(* ===== verification/Prelude.thy ===== *)
theory Prelude
  imports Main "HOL-Library.Word"
begin

text \<open>
  Shared vocabulary of the development: the names of the model's basic types, the Go and
  PostgreSQL integer operations at their width, the few functions of Go's \<open>strings\<close>
  package the program calls, and list lemmas used by several components.

  A Go \<open>string\<close> is a byte sequence, here \<^typ>\<open>string\<close> (a list of 8-bit characters).
  An \<open>int64\<close> and a PostgreSQL \<open>BIGINT\<close> are \<open>64 word\<close> read as two's complement by
  \<open>sint\<close>; \<open>+\<close> on them wraps, as Go's does, and \<open>bigint_add\<close> is the checked
  addition of the database. An instant is a number of nanoseconds since the Unix epoch.
\<close>

named_theorems go_strings \<open>defining equations of the string functions\<close>

section \<open>Integers at their width\<close>

type_synonym int64 = "64 word"
type_synonym uint32 = "32 word"
type_synonym byte = "8 word"
type_synonym time = int

definition int64_range :: "int \<Rightarrow> bool" where
  "int64_range x \<longleftrightarrow> - (2 ^ 63) \<le> x \<and> x < 2 ^ 63"

text \<open>Addition of two \<open>BIGINT\<close> values: out of range is an error (SQLSTATE 22003).\<close>

definition bigint_add :: "int64 \<Rightarrow> int64 \<Rightarrow> int64 option" where
  "bigint_add a b = (if int64_range (sint a + sint b) then Some (a + b) else None)"

lemma int64_range_sint [simp]: "int64_range (sint (a :: int64))"
  using sint_range_size [of a] by (simp add: int64_range_def word_size)

lemma sint_of_int_int64: "int64_range x \<Longrightarrow> sint (word_of_int x :: int64) = x"
  by (simp add: int64_range_def signed_take_bit_int_eq_self_iff sint_sbintrunc')

lemma sint_add_int64: "int64_range (sint a + sint b) \<Longrightarrow> sint (a + b :: int64) = sint a + sint b"
  by (simp add: int64_range_def signed_take_bit_int_eq_self_iff sint_word_ariths)

lemma bigint_add_Some: "bigint_add a b = Some c \<Longrightarrow> sint c = sint a + sint b"
  by (auto simp: bigint_add_def sint_add_int64 split: if_splits)

section \<open>Time\<close>

definition nano_day :: time where
  "nano_day = 86400 * 1000000000"

text \<open>
  \<open>t.AddDate(0, 0, days)\<close> in UTC, the zone of the deployed image: a day is 24 hours.
\<close>

definition AddDays :: "time \<Rightarrow> int \<Rightarrow> time" where
  "AddDays t days = t + days * nano_day"

lemma nano_day_pos [simp]: "0 < nano_day"
  by (simp add: nano_day_def)

lemma AddDays_less: "0 < n \<Longrightarrow> t < AddDays t n"
  by (simp add: AddDays_def)

lemma AddDays_add: "AddDays (AddDays t m) n = AddDays t (m + n)"
  by (simp add: AddDays_def algebra_simps)

section \<open>Strings\<close>

primrec HasPrefix :: "string \<Rightarrow> string \<Rightarrow> bool" where
  "HasPrefix s [] = True"
| "HasPrefix s (p # ps) = (case s of [] \<Rightarrow> False | c # cs \<Rightarrow> c = p \<and> HasPrefix cs ps)"

fun Contains :: "string \<Rightarrow> string \<Rightarrow> bool" where
  "Contains [] sub = (sub = [])"
| "Contains (c # cs) sub = (HasPrefix (c # cs) sub \<or> Contains cs sub)"

text \<open>Lower case of the ASCII letters; every other byte is kept.\<close>

definition lower_char :: "char \<Rightarrow> char" where
  "lower_char c =
     (let n = (of_char c :: nat) in if 65 \<le> n \<and> n \<le> 90 then char_of (n + 32) else c)"

definition ToLower :: "string \<Rightarrow> string" where
  "ToLower s = map lower_char s"

lemma HasPrefix_append [simp]: "HasPrefix (p @ s) p"
  by (induction p) auto

lemma HasPrefix_iff: "HasPrefix s p \<longleftrightarrow> (\<exists>t. s = p @ t)"
  by (induction p arbitrary: s) (auto split: list.splits)

lemma Contains_iff: "Contains s sub \<longleftrightarrow> (\<exists>a b. s = a @ sub @ b)"
proof (induction s)
  case Nil
  then show ?case by simp
next
  case (Cons c cs)
  have "(\<exists>a b. c # cs = a @ sub @ b) \<longleftrightarrow>
    (\<exists>b. c # cs = sub @ b) \<or> (\<exists>a b. cs = a @ sub @ b)"
    by (metis append_Cons append_Nil list.exhaust list.sel(3))
  with Cons.IH show ?case by (simp add: HasPrefix_iff)
qed

text \<open>
  \<open>strings.TrimSpace\<close>. The white space of \<open>unicode.IsSpace\<close>, as the UTF-8 byte
  sequences of its code points: six ASCII characters, U+0085, U+00A0, U+1680,
  U+2000 to U+200A, U+2028, U+2029, U+202F, U+205F and U+3000.
\<close>

definition space_seqs :: "string list" where
  "space_seqs =
     map (map char_of :: nat list \<Rightarrow> string)
      ([[9], [10], [11], [12], [13], [32], [194, 133], [194, 160], [225, 154, 128],
        [226, 128, 168], [226, 128, 169], [226, 128, 175], [226, 129, 159], [227, 128, 128]]
       @ map (\<lambda>k. [226, 128, k]) [128 ..< 139])"

text \<open>The same list with its characters written out, for evaluation.\<close>

lemma space_seqs_code [code]:
  "space_seqs = [[CHR 0x09], [CHR 0x0A], [CHR 0x0B], [CHR 0x0C], [CHR 0x0D], [CHR 0x20], [CHR 0xC2, CHR 0x85], [CHR 0xC2, CHR 0xA0],
      [CHR 0xE1, CHR 0x9A, CHR 0x80], [CHR 0xE2, CHR 0x80, CHR 0xA8], [CHR 0xE2, CHR 0x80, CHR 0xA9], [CHR 0xE2, CHR 0x80,
      CHR 0xAF], [CHR 0xE2, CHR 0x81, CHR 0x9F], [CHR 0xE3, CHR 0x80, CHR 0x80], [CHR 0xE2, CHR 0x80, CHR 0x80], [CHR 0xE2,
      CHR 0x80, CHR 0x81], [CHR 0xE2, CHR 0x80, CHR 0x82], [CHR 0xE2, CHR 0x80, CHR 0x83], [CHR 0xE2, CHR 0x80, CHR 0x84],
      [CHR 0xE2, CHR 0x80, CHR 0x85], [CHR 0xE2, CHR 0x80, CHR 0x86], [CHR 0xE2, CHR 0x80, CHR 0x87], [CHR 0xE2, CHR 0x80,
      CHR 0x88], [CHR 0xE2, CHR 0x80, CHR 0x89], [CHR 0xE2, CHR 0x80, CHR 0x8A]]"
proof -
  have nums: "[128 ..< 139] = [128 :: nat, 129, 130, 131, 132, 133, 134, 135, 136, 137, 138]" by code_simp
  show ?thesis unfolding space_seqs_def nums by (simp add: char_of_def bit_iff_odd)
qed

definition strip_one :: "string list \<Rightarrow> string \<Rightarrow> string option" where
  "strip_one seqs s = (case find (\<lambda>p. p \<noteq> [] \<and> HasPrefix s p) seqs of
     None \<Rightarrow> None | Some p \<Rightarrow> Some (drop (length p) s))"

lemma strip_one_shorter: "strip_one seqs s = Some t \<Longrightarrow> length t < length s"
  by (auto simp: strip_one_def find_Some_iff HasPrefix_iff split: option.splits)

function trim_left :: "string list \<Rightarrow> string \<Rightarrow> string" where
  "trim_left seqs s = (case strip_one seqs s of None \<Rightarrow> s | Some t \<Rightarrow> trim_left seqs t)"
  by pat_completeness auto
termination
  by (relation "measure (\<lambda>(seqs, s). length s)") (auto dest: strip_one_shorter)

declare trim_left.simps [simp del]

definition TrimSpace :: "string \<Rightarrow> string" where
  "TrimSpace s = rev (trim_left (map rev space_seqs) (rev (trim_left space_seqs s)))"

lemma trim_left_Nil [simp]: "trim_left seqs [] = []"
  by (subst trim_left.simps) (auto simp: strip_one_def find_Some_iff HasPrefix_iff split: option.splits)

lemma TrimSpace_Nil [simp]: "TrimSpace [] = []"
  by (simp add: TrimSpace_def)

definition hex_digit :: "nat \<Rightarrow> char" where
  "hex_digit n = ''0123456789abcdef'' ! (n mod 16)"

end
