(* ===== verification/Domain.thy ===== *)
theory Domain
  imports Prelude
begin

text \<open>
  The types of \<open>internal/domain\<close>: the entities the control plane stores, their status
  values and the error values its layers exchange.

  The status types of the source are string types. A user's status can be set to any text
  by an administrator (\<open>UpdateInput.Status\<close>), so it stays a string here, and so do
  protocol, network and security, which are checked by \<open>Valid\<close>. The status of a node
  and of an assignment only ever take the declared values and are datatypes.
\<close>

section \<open>Errors\<close>

text \<open>
  \<open>ErrConflict\<close> and \<open>ErrValidation\<close> carry the constraint name that \<open>mapErr\<close> wraps
  them with; \<open>UserRef\<close> is the context added by \<open>resolveUser\<close>; \<open>SqlErrNoRows\<close>,
  \<open>PgError\<close> (SQLSTATE, constraint) and \<open>DriverErr\<close> are errors of the database driver.
\<close>

datatype error =
    ErrNotFound
  | ErrConflict string
  | ErrValidation string
  | ValidationError string
  | SqlErrNoRows
  | PgError string string
  | DriverErr string
  | BeginTx error
  | CommitTx error
  | UserRef string error
  | LinkError string

datatype sentinel = NotFoundS | ConflictS | ValidationS

text \<open>\<open>errors.Is(err, target)\<close> for the three sentinels of the domain package.\<close>

fun errors_Is :: "error \<Rightarrow> sentinel \<Rightarrow> bool" where
  "errors_Is ErrNotFound s = (s = NotFoundS)"
| "errors_Is (ErrConflict c) s = (s = ConflictS)"
| "errors_Is (ErrValidation c) s = (s = ValidationS)"
| "errors_Is (ValidationError m) s = (s = ValidationS)"
| "errors_Is (BeginTx e) s = errors_Is e s"
| "errors_Is (CommitTx e) s = errors_Is e s"
| "errors_Is (UserRef r e) s = errors_Is e s"
| "errors_Is e s = False"

abbreviation Validationf :: "string \<Rightarrow> error" where
  "Validationf msg \<equiv> ValidationError msg"

section \<open>Inbounds\<close>

definition ProtocolVLESS :: string where "ProtocolVLESS = ''vless''"
definition ProtocolVMess :: string where "ProtocolVMess = ''vmess''"
definition ProtocolTrojan :: string where "ProtocolTrojan = ''trojan''"
definition ProtocolShadowsocks :: string where "ProtocolShadowsocks = ''shadowsocks''"

definition Protocol_Valid :: "string \<Rightarrow> bool" where
  "Protocol_Valid p \<longleftrightarrow>
     p \<in> {ProtocolVLESS, ProtocolVMess, ProtocolTrojan, ProtocolShadowsocks}"

definition ShadowsocksMethods :: "string list" where
  "ShadowsocksMethods =
     [''aes-128-gcm'', ''aes-256-gcm'', ''chacha20-ietf-poly1305'',
      ''xchacha20-ietf-poly1305'', ''none'']"

definition NetworkTCP :: string where "NetworkTCP = ''tcp''"
definition NetworkWS :: string where "NetworkWS = ''ws''"
definition NetworkGRPC :: string where "NetworkGRPC = ''grpc''"
definition NetworkHTTPUpgrade :: string where "NetworkHTTPUpgrade = ''httpupgrade''"
definition NetworkXHTTP :: string where "NetworkXHTTP = ''xhttp''"

definition Network_Valid :: "string \<Rightarrow> bool" where
  "Network_Valid n \<longleftrightarrow>
     n \<in> {NetworkTCP, NetworkWS, NetworkGRPC, NetworkHTTPUpgrade, NetworkXHTTP}"

definition SecurityNone :: string where "SecurityNone = ''none''"
definition SecurityTLS :: string where "SecurityTLS = ''tls''"
definition SecurityReality :: string where "SecurityReality = ''reality''"

definition Security_Valid :: "string \<Rightarrow> bool" where
  "Security_Valid s \<longleftrightarrow> s \<in> {SecurityNone, SecurityTLS, SecurityReality}"

lemmas protocol_defs =
  ProtocolVLESS_def ProtocolVMess_def ProtocolTrojan_def ProtocolShadowsocks_def
lemmas network_defs =
  NetworkTCP_def NetworkWS_def NetworkGRPC_def NetworkHTTPUpgrade_def NetworkXHTTP_def
lemmas security_defs = SecurityNone_def SecurityTLS_def SecurityReality_def

record inbound =
  ib_ID :: string
  ib_NodeID :: string
  ib_Tag :: string
  ib_Protocol :: string
  ib_ListenPort :: int
  ib_PublicHost :: string
  ib_PublicPort :: int
  ib_Network :: string
  ib_Security :: string
  ib_WSPath :: string
  ib_HostHeader :: string
  ib_GRPCServiceName :: string
  ib_SNI :: string
  ib_Fingerprint :: string
  ib_RealityPublicKey :: string
  ib_RealityShortID :: string
  ib_Flow :: string
  ib_Method :: string
  ib_XHTTPMode :: string
  ib_Remark :: string
  ib_CreatedAt :: time
  ib_UpdatedAt :: time

section \<open>Nodes\<close>

datatype NodeStatus =
  NodeStatusUnknown | NodeStatusOnline | NodeStatusOffline | NodeStatusDisabled

record node =
  n_ID :: string
  n_Name :: string
  n_APIAddress :: string
  n_APIPort :: int
  n_APITLS :: bool
  n_APITLSServerName :: string
  n_APITLSInsecure :: bool
  n_APICACert :: string
  n_APIClientCert :: string
  n_APIClientKey :: string
  n_APIHasClientKey :: bool
  n_Status :: NodeStatus
  n_LastSeenAt :: "time option"
  n_LastError :: string
  n_CreatedAt :: time
  n_UpdatedAt :: time

section \<open>Plans\<close>

record plan =
  p_ID :: string
  p_Name :: string
  p_DataLimitBytes :: "int64 option"
  p_DurationDays :: "int option"
  p_CreatedAt :: time
  p_UpdatedAt :: time

section \<open>Users\<close>

definition UserStatusActive :: string where "UserStatusActive = ''active''"
definition UserStatusSuspended :: string where "UserStatusSuspended = ''suspended''"
definition UserStatusExpired :: string where "UserStatusExpired = ''expired''"
definition UserStatusDisabled :: string where "UserStatusDisabled = ''disabled''"

lemma UserStatus_distinct [simp]:
  "UserStatusActive \<noteq> UserStatusSuspended" "UserStatusSuspended \<noteq> UserStatusActive"
  "UserStatusActive \<noteq> UserStatusExpired" "UserStatusExpired \<noteq> UserStatusActive"
  "UserStatusActive \<noteq> UserStatusDisabled" "UserStatusDisabled \<noteq> UserStatusActive"
  "UserStatusSuspended \<noteq> UserStatusExpired" "UserStatusExpired \<noteq> UserStatusSuspended"
  "UserStatusSuspended \<noteq> UserStatusDisabled" "UserStatusDisabled \<noteq> UserStatusSuspended"
  "UserStatusExpired \<noteq> UserStatusDisabled" "UserStatusDisabled \<noteq> UserStatusExpired"
  by (simp_all add: UserStatusActive_def UserStatusSuspended_def UserStatusExpired_def
      UserStatusDisabled_def)

record user =
  u_ID :: string
  u_Email :: string
  u_UUID :: string
  u_TrojanPassword :: string
  u_PlanID :: "string option"
  u_Status :: string
  u_DataLimitBytes :: "int64 option"
  u_UsedUploadBytes :: int64
  u_UsedDownloadBytes :: int64
  u_ExpiresAt :: "time option"
  u_SubToken :: string
  u_Note :: string
  u_ExternalID :: "string option"
  u_CreatedAt :: time
  u_UpdatedAt :: time

text \<open>The Go sum wraps around at 64 bits.\<close>

definition UsedTotalBytes :: "user \<Rightarrow> int64" where
  "UsedTotalBytes u = u_UsedUploadBytes u + u_UsedDownloadBytes u"

definition OverQuota :: "user \<Rightarrow> bool" where
  "OverQuota u = (case u_DataLimitBytes u of
     None \<Rightarrow> False | Some lim \<Rightarrow> sint lim \<le> sint (UsedTotalBytes u))"

datatype SyncStatus = SyncPending | SyncApplied | SyncFailed | SyncRemoving

record user_inbound =
  ui_UserID :: string
  ui_InboundID :: string
  ui_SyncStatus :: SyncStatus
  ui_LastSyncedAt :: "time option"
  ui_LastError :: string

record traffic_snapshot =
  ts_ID :: nat
  ts_UserID :: string
  ts_NodeID :: string
  ts_UplinkBytes :: int64
  ts_DownlinkBytes :: int64
  ts_CollectedAt :: time

section \<open>API keys and webhook events\<close>

record api_key =
  k_ID :: string
  k_Name :: string
  k_KeyHash :: string
  k_CreatedAt :: time
  k_LastUsedAt :: "time option"
  k_RevokedAt :: "time option"

record webhook_event =
  we_ID :: string
  we_Action :: string
  we_ReceivedAt :: time

end
