(* ===== verification/World.thy ===== *)
theory World
  imports Domain
begin

text \<open>
  The state the program runs in and the effects its functions have.

  A \<open>world\<close> holds the PostgreSQL database, the clock, the sources of identifiers and
  random bytes, the worker manager with its node actors, and the state of the remote Xray
  nodes (by dial target, of an unspecified type \<open>'x\<close>: that code is not part of this
  repository).
  A Go function that may return an error is a function of type \<open>('x, 'a) io\<close>, from a
  world to an error or a result and the world after it.

  Concurrency and faults are explicit: \<open>w_sched\<close> lists, for the database calls still to
  come, what the other goroutines do to the database before the call and whether the
  driver fails it. The empty schedule is an undisturbed run. The statements of one
  transaction are not interleaved with other writers, and a failed statement has no effect.

  Actors are objects: \<open>w_actors\<close> is the manager's map from a node to its current actor,
  \<open>w_heap\<close> holds the objects and \<open>w_next\<close> is the first free address.
\<close>

section \<open>The database\<close>

record db =
  db_nodes :: "node list"
  db_inbounds :: "inbound list"
  db_plans :: "plan list"
  db_users :: "user list"
  db_user_inbounds :: "user_inbound list"
  db_snapshots :: "traffic_snapshot list"
  db_snapshot_seq :: nat
  db_api_keys :: "api_key list"
  db_webhook_events :: "webhook_event list"

section \<open>Node actors\<close>

record user_traffic =
  ut_Email :: string
  ut_Uplink :: int64
  ut_Downlink :: int64

text \<open>
  \<open>xray.DialOptions\<close> without \<open>DialTimeout\<close>, which \<open>xray.Dial\<close> does not read. A connection
  (\<open>grpcClient\<close>) is determined by the options it was dialled with.
\<close>

record dial_options =
  do_Address :: string
  do_Port :: int
  do_TLS :: bool
  do_TLSServerName :: string
  do_TLSInsecure :: bool
  do_CACertPEM :: string
  do_ClientCertPEM :: string
  do_ClientKeyPEM :: string

text \<open>
  \<open>a_reconcileCh\<close>: the one-slot trigger channel is full; \<open>a_stopCh\<close>: the stop channel is
  closed; \<open>a_client\<close>: the open connection; \<open>a_pendingDeltas\<close>: the map from e-mail to
  traffic, its entries in insertion order; \<open>a_running\<close>: the goroutine of \<open>run\<close> has not
  returned yet.
\<close>

record actor =
  a_node :: node
  a_reconcileCh :: bool
  a_stopCh :: bool
  a_client :: "dial_options option"
  a_failCount :: nat
  a_online :: bool
  a_lastUptime :: uint32
  a_pendingDeltas :: "user_traffic list"
  a_running :: bool

section \<open>Worlds and effects\<close>

record 'x world =
  w_db :: db
  w_now :: time
  w_ticks :: "nat list"
  w_sched :: "(string option \<times> (db \<Rightarrow> db)) list"
  w_uuids :: "nat \<Rightarrow> string"
  w_uuid_pos :: nat
  w_rand :: "nat \<Rightarrow> byte"
  w_rand_pos :: nat
  w_actors :: "string \<Rightarrow> nat option"
  w_heap :: "nat \<Rightarrow> actor"
  w_next :: nat
  w_remote :: "string \<Rightarrow> 'x"

type_synonym ('x, 'a) io = "'x world \<Rightarrow> (error + 'a) \<times> 'x world"

definition ret :: "'a \<Rightarrow> ('x, 'a) io" where
  "ret a = (\<lambda>w. (Inr a, w))"

definition raise :: "error \<Rightarrow> ('x, 'a) io" where
  "raise e = (\<lambda>w. (Inl e, w))"

definition bindE :: "('x, 'a) io \<Rightarrow> ('a \<Rightarrow> ('x, 'b) io) \<Rightarrow> ('x, 'b) io" where
  "bindE m f = (\<lambda>w. case m w of (Inl e, w') \<Rightarrow> (Inl e, w') | (Inr a, w') \<Rightarrow> f a w')"

text \<open>\<open>attempt m\<close> hands the caller the error instead of returning with it.\<close>

definition attempt :: "('x, 'a) io \<Rightarrow> ('x, error + 'a) io" where
  "attempt m = (\<lambda>w. case m w of (r, w') \<Rightarrow> (Inr r, w'))"

definition onErr :: "(error \<Rightarrow> error) \<Rightarrow> ('x, 'a) io \<Rightarrow> ('x, 'a) io" where
  "onErr g m = (\<lambda>w. case m w of (Inl e, w') \<Rightarrow> (Inl (g e), w') | (Inr a, w') \<Rightarrow> (Inr a, w'))"

definition getW :: "('x world \<Rightarrow> 'a) \<Rightarrow> ('x, 'a) io" where
  "getW f = (\<lambda>w. (Inr (f w), w))"

definition modifyW :: "('x world \<Rightarrow> 'x world) \<Rightarrow> ('x, unit) io" where
  "modifyW f = (\<lambda>w. (Inr (), f w))"

fun forEach :: "'b list \<Rightarrow> ('b \<Rightarrow> ('x, unit) io) \<Rightarrow> ('x, unit) io" where
  "forEach [] f = ret ()"
| "forEach (b # bs) f = bindE (f b) (\<lambda>_. forEach bs f)"

text \<open>\<open>time.Now()\<close>: the clock never runs backwards; it may advance after each reading.\<close>

definition time_Now :: "('x, time) io" where
  "time_Now = (\<lambda>w. (Inr (w_now w), case w_ticks w of [] \<Rightarrow> w
     | k # ks \<Rightarrow> w\<lparr>w_now := w_now w + int k, w_ticks := ks\<rparr>))"

text \<open>\<open>uuid.NewString()\<close> and \<open>rand.Read\<close>: the next values of the world's sources.\<close>

definition uuid_NewString :: "('x, string) io" where
  "uuid_NewString = (\<lambda>w. (Inr (w_uuids w (w_uuid_pos w)), w\<lparr>w_uuid_pos := Suc (w_uuid_pos w)\<rparr>))"

definition rand_Read :: "nat \<Rightarrow> ('x, byte list) io" where
  "rand_Read n = (\<lambda>w. (Inr (map (\<lambda>i. w_rand w (w_rand_pos w + i)) [0 ..< n]),
     w\<lparr>w_rand_pos := w_rand_pos w + n\<rparr>))"

lemma run_eqI: "fst z = r \<Longrightarrow> z = (r, snd z)"
  by (simp add: prod_eq_iff)

lemmas io_defs = ret_def raise_def bindE_def attempt_def onErr_def getW_def modifyW_def

section \<open>Database calls\<close>

definition next_call :: "'x world \<Rightarrow> string option \<times> 'x world" where
  "next_call w = (case w_sched w of [] \<Rightarrow> (None, w)
     | (f, g) # s \<Rightarrow> (f, w\<lparr>w_sched := s, w_db := g (w_db w)\<rparr>))"

definition next_tx_call :: "'x world \<Rightarrow> string option \<times> 'x world" where
  "next_tx_call w = (case w_sched w of [] \<Rightarrow> (None, w)
     | (f, g) # s \<Rightarrow> (f, w\<lparr>w_sched := s\<rparr>))"

definition run_stmt :: "(time \<Rightarrow> db \<Rightarrow> error + 'a \<times> db) \<Rightarrow> string option \<times> 'x world
    \<Rightarrow> (error + 'a) \<times> 'x world" where
  "run_stmt q c = (case c of
      (Some msg, w) \<Rightarrow> (Inl (DriverErr msg), w)
    | (None, w) \<Rightarrow> (case q (w_now w) (w_db w) of
          Inl e \<Rightarrow> (Inl e, w)
        | Inr (a, d) \<Rightarrow> (Inr a, w\<lparr>w_db := d\<rparr>)))"

definition db_exec :: "(time \<Rightarrow> db \<Rightarrow> error + 'a \<times> db) \<Rightarrow> ('x, 'a) io" where
  "db_exec q = (\<lambda>w. run_stmt q (next_call w))"

definition tx_exec :: "(time \<Rightarrow> db \<Rightarrow> error + 'a \<times> db) \<Rightarrow> ('x, 'a) io" where
  "tx_exec q = (\<lambda>w. run_stmt q (next_tx_call w))"

definition db_query :: "(db \<Rightarrow> error + 'a) \<Rightarrow> ('x, 'a) io" where
  "db_query q = db_exec (\<lambda>now d. case q d of Inl e \<Rightarrow> Inl e | Inr a \<Rightarrow> Inr (a, d))"

text \<open>\<open>mapErr\<close> of \<open>internal/store/store.go\<close>.\<close>

fun err_root :: "error \<Rightarrow> error" where
  "err_root (BeginTx e) = err_root e"
| "err_root (CommitTx e) = err_root e"
| "err_root (UserRef r e) = err_root e"
| "err_root e = e"

definition mapErr :: "error \<Rightarrow> error" where
  "mapErr e = (case err_root e of
      SqlErrNoRows \<Rightarrow> ErrNotFound
    | PgError code name \<Rightarrow>
        if code = ''23505'' then ErrConflict name
        else if code = ''23503'' then ErrValidation name
        else e
    | _ \<Rightarrow> e)"

text \<open>\<open>requireRow\<close>: an \<open>UPDATE\<close> or \<open>DELETE\<close> that matches no row is \<open>ErrNotFound\<close>.\<close>

definition requireRow :: "('x, nat) io \<Rightarrow> ('x, unit) io" where
  "requireRow m = bindE (onErr mapErr m) (\<lambda>n. if n = 0 then raise ErrNotFound else ret ())"

text \<open>\<open>WithTx\<close>: commit on success, roll back on an error or on a failed commit.\<close>

definition WithTx :: "('x, 'a) io \<Rightarrow> ('x, 'a) io" where
  "WithTx fn = (\<lambda>w. case next_call w of
      (Some msg, w0) \<Rightarrow> (Inl (BeginTx (DriverErr msg)), w0)
    | (None, w0) \<Rightarrow> (case fn w0 of
          (Inl e, w1) \<Rightarrow> (Inl (mapErr e), w1\<lparr>w_db := w_db w0\<rparr>)
        | (Inr a, w1) \<Rightarrow> (case next_tx_call w1 of
              (Some msg, w2) \<Rightarrow> (Inl (CommitTx (DriverErr msg)), w2\<lparr>w_db := w_db w0\<rparr>)
            | (None, w2) \<Rightarrow> (Inr a, w2))))"

section \<open>Invariants of runs\<close>

text \<open>
  \<open>preserves I m\<close>: started in a world whose database satisfies \<open>I\<close>, while every other
  goroutine keeps \<open>I\<close>, the function \<open>m\<close> ends in such a world, whatever fails on the way.
\<close>

definition rely :: "(db \<Rightarrow> bool) \<Rightarrow> 'x world \<Rightarrow> bool" where
  "rely I w \<longleftrightarrow> (\<forall>c \<in> set (w_sched w). \<forall>d. I d \<longrightarrow> I (snd c d))"

definition holdsW :: "(db \<Rightarrow> bool) \<Rightarrow> 'x world \<Rightarrow> bool" where
  "holdsW I w \<longleftrightarrow> I (w_db w) \<and> rely I w"

definition keeps :: "('x world \<Rightarrow> bool) \<Rightarrow> ('x, 'a) io \<Rightarrow> bool" where
  "keeps P m \<longleftrightarrow> (\<forall>w. P w \<longrightarrow> P (snd (m w)))"

abbreviation preserves :: "(db \<Rightarrow> bool) \<Rightarrow> ('x, 'a) io \<Rightarrow> bool" where
  "preserves I m \<equiv> keeps (holdsW I) m"

text \<open>No interference: calls may still fail, but nothing else writes to the database.\<close>

definition calm :: "'x world \<Rightarrow> bool" where
  "calm w \<longleftrightarrow> (\<forall>c \<in> set (w_sched w). snd c = (\<lambda>d. d))"

text \<open>Functions that touch neither the database nor the schedule.\<close>

definition db_free :: "('x, 'a) io \<Rightarrow> bool" where
  "db_free m \<longleftrightarrow> (\<forall>w. w_db (snd (m w)) = w_db w \<and> w_sched (snd (m w)) = w_sched w)"

named_theorems pres \<open>rules for invariants of runs\<close>

lemma keepsD: "keeps P m \<Longrightarrow> P w \<Longrightarrow> P (snd (m w))"
  by (simp add: keeps_def)

lemma keeps_ret [pres]: "keeps P (ret a)"
  by (simp add: keeps_def ret_def)

lemma keeps_raise [pres]: "keeps P (raise e)"
  by (simp add: keeps_def raise_def)

lemma keeps_bindE [pres]: "keeps P m \<Longrightarrow> (\<And>a. keeps P (f a)) \<Longrightarrow> keeps P (bindE m f)"
  by (fastforce simp: keeps_def bindE_def split: prod.splits sum.splits)

lemma keeps_attempt [pres]: "keeps P m \<Longrightarrow> keeps P (attempt m)"
  by (fastforce simp: keeps_def attempt_def split: prod.splits)

lemma keeps_onErr [pres]: "keeps P m \<Longrightarrow> keeps P (onErr g m)"
  by (fastforce simp: keeps_def onErr_def split: prod.splits sum.splits)

lemma keeps_if [pres]: "keeps P m \<Longrightarrow> keeps P n \<Longrightarrow> keeps P (if b then m else n)"
  by simp

lemma keeps_option [pres]:
  "keeps P m \<Longrightarrow> (\<And>a. keeps P (f a)) \<Longrightarrow> keeps P (case z of None \<Rightarrow> m | Some a \<Rightarrow> f a)"
  by (cases z) auto

lemma keeps_sum [pres]:
  "(\<And>e. keeps P (g e)) \<Longrightarrow> (\<And>a. keeps P (f a)) \<Longrightarrow> keeps P (case z of Inl e \<Rightarrow> g e | Inr a \<Rightarrow> f a)"
  by (cases z) auto

lemma keeps_prod [pres]: "(\<And>a b. keeps P (f a b)) \<Longrightarrow> keeps P (case z of (a, b) \<Rightarrow> f a b)"
  by (cases z) auto

lemma keeps_Let [pres]: "(\<And>a. keeps P (f a)) \<Longrightarrow> keeps P (let a = z in f a)"
  by simp

lemma keeps_forEach [pres]: "(\<And>b. keeps P (f b)) \<Longrightarrow> keeps P (forEach bs f)"
  by (induction bs) (auto intro: pres)

lemma keeps_getW [pres]: "keeps P (getW f)"
  by (simp add: keeps_def getW_def)

lemma keeps_db_free:
  assumes "db_free m" shows "preserves I m" and "keeps calm m"
  using assms by (simp_all add: db_free_def keeps_def holdsW_def rely_def calm_def)

lemma db_free_basic:
  "db_free time_Now" "db_free uuid_NewString" "db_free (rand_Read n)"
  "(\<And>w. w_db (f w) = w_db w \<and> w_sched (f w) = w_sched w) \<Longrightarrow> db_free (modifyW f)"
  by (auto simp: db_free_def time_Now_def uuid_NewString_def rand_Read_def modifyW_def split: list.splits)

lemmas keeps_basic [pres] = db_free_basic(1-3) [THEN keeps_db_free(1)] db_free_basic(1-3) [THEN keeps_db_free(2)]

lemma calm_db_exec [pres]: "keeps calm (db_exec q)"
  by (auto simp: keeps_def calm_def db_exec_def next_call_def run_stmt_def
      split: list.splits option.splits sum.splits)

lemma calm_tx_exec [pres]: "keeps calm (tx_exec q)"
  by (auto simp: keeps_def calm_def tx_exec_def next_tx_call_def run_stmt_def
      split: list.splits option.splits sum.splits)

lemma calm_db_query [pres]: "keeps calm (db_query q)"
  unfolding db_query_def by (rule pres)

lemma calm_calls:
  "calm w \<Longrightarrow> next_call w = (f, w') \<Longrightarrow> calm w'" "calm w \<Longrightarrow> next_tx_call w = (f, w') \<Longrightarrow> calm w'"
  by (auto simp: calm_def next_call_def next_tx_call_def split: list.splits)

lemma calm_WithTx [pres]:
  assumes "keeps calm fn" shows "keeps calm (WithTx fn)"
proof (unfold keeps_def, intro allI impI)
  fix w :: "'a world" assume "calm w"
  obtain f w0 r w1 g w2 where c: "next_call w = (f, w0)" and fn: "fn w0 = (r, w1)" and c2: "next_tx_call w1 = (g, w2)"
    by (metis surj_pair)
  have h0: "calm w0" using calm_calls(1) [OF \<open>calm w\<close> c] .
  have h1: "calm w1" using keepsD [OF assms h0] fn by simp
  have h2: "calm w2" using calm_calls(2) [OF h1 c2] .
  show "calm (snd (WithTx fn w))"
    using h0 h1 h2 c fn c2 by (auto simp: WithTx_def calm_def split: option.splits sum.splits)
qed

lemma next_call_holds: "holdsW I w \<Longrightarrow> next_call w = (f, w') \<Longrightarrow> holdsW I w'"
  by (fastforce simp: next_call_def holdsW_def rely_def split: list.splits prod.splits)

lemma next_tx_call_holds: "holdsW I w \<Longrightarrow> next_tx_call w = (f, w') \<Longrightarrow> holdsW I w'"
  by (fastforce simp: next_tx_call_def holdsW_def rely_def split: list.splits prod.splits)

lemma run_stmt_holds:
  assumes "\<And>now d a d'. I d \<Longrightarrow> q now d = Inr (a, d') \<Longrightarrow> I d'" and "holdsW I (snd c)"
  shows "holdsW I (snd (run_stmt q c))"
  using assms
  by (cases c) (auto simp: run_stmt_def holdsW_def rely_def split: option.splits sum.splits)

lemma preserves_db_exec [pres]:
  "(\<And>now d a d'. I d \<Longrightarrow> q now d = Inr (a, d') \<Longrightarrow> I d') \<Longrightarrow> preserves I (db_exec q)"
  unfolding keeps_def db_exec_def
  by (metis (mono_tags, lifting) next_call_holds prod.collapse run_stmt_holds)

lemma preserves_tx_exec [pres]:
  "(\<And>now d a d'. I d \<Longrightarrow> q now d = Inr (a, d') \<Longrightarrow> I d') \<Longrightarrow> preserves I (tx_exec q)"
  unfolding keeps_def tx_exec_def
  by (metis (mono_tags, lifting) next_tx_call_holds prod.collapse run_stmt_holds)

lemma preserves_db_query [pres]: "preserves I (db_query q)"
  unfolding db_query_def by (rule preserves_db_exec) (auto split: sum.splits)

lemma keeps_requireRow [pres]: "keeps P m \<Longrightarrow> keeps P (requireRow m)"
  unfolding requireRow_def by (intro pres)

lemma preserves_WithTx [pres]:
  assumes "preserves I fn" shows "preserves I (WithTx fn)"
proof (unfold keeps_def, intro allI impI)
  fix w :: "'a world"
  assume h: "holdsW I w"
  obtain f w0 where c: "next_call w = (f, w0)" by fastforce
  have h0: "holdsW I w0" using next_call_holds [OF h c] .
  obtain r w1 where fn: "fn w0 = (r, w1)" by fastforce
  have h1: "holdsW I w1" using keepsD [OF assms h0] fn by simp
  obtain g w2 where c2: "next_tx_call w1 = (g, w2)" by fastforce
  have h2: "holdsW I w2" using next_tx_call_holds [OF h1 c2] .
  show "holdsW I (snd (WithTx fn w))"
    using h0 h1 h2 c fn c2
    by (auto simp: WithTx_def holdsW_def rely_def split: option.splits sum.splits)
qed

end
