(* ===== verification/Schema.thy ===== *)
theory Schema
  imports World
begin

text \<open>
  The schema of \<open>internal/store/migrations\<close>: its primary keys, \<open>UNIQUE\<close> constraints and
  foreign keys as a well-formedness predicate on databases, and the row operations of SQL
  (\<open>UPDATE ... WHERE\<close>, \<open>DELETE ... WHERE\<close>, constraint violations) the statements of the
  store are written with. The locale \<open>repository\<close> is the contract of a table keyed by an
  identifier; every entity table of the store is an instance of it.
\<close>

section \<open>Row operations\<close>

definition update_rows :: "('r \<Rightarrow> bool) \<Rightarrow> ('r \<Rightarrow> 'r) \<Rightarrow> 'r list \<Rightarrow> 'r list" where
  "update_rows P f rs = map (\<lambda>r. if P r then f r else r) rs"

definition delete_rows :: "('r \<Rightarrow> bool) \<Rightarrow> 'r list \<Rightarrow> 'r list" where
  "delete_rows P rs = filter (\<lambda>r. \<not> P r) rs"

definition count_rows :: "('r \<Rightarrow> bool) \<Rightarrow> 'r list \<Rightarrow> nat" where
  "count_rows P rs = length (filter P rs)"

text \<open>The first violated constraint decides the error: SQLSTATE 23505 and 23503.\<close>

definition unique_err :: "(bool \<times> string) list \<Rightarrow> error option" where
  "unique_err cs = map_option (\<lambda>(b, name). PgError ''23505'' name) (find fst cs)"

definition fk_err :: "(bool \<times> string) list \<Rightarrow> error option" where
  "fk_err cs = map_option (\<lambda>(b, name). PgError ''23503'' name) (find fst cs)"

lemma update_rows_simps [simp]:
  "update_rows P f [] = []"
  "update_rows P f (r # rs) = (if P r then f r else r) # update_rows P f rs"
  by (simp_all add: update_rows_def)

lemma set_update_rows: "set (update_rows P f rs) = f ` {r \<in> set rs. P r} \<union> {r \<in> set rs. \<not> P r}"
  by (auto simp: update_rows_def)

lemma map_update_rows:
  "(\<And>r. r \<in> set rs \<Longrightarrow> P r \<Longrightarrow> k (f r) = k r) \<Longrightarrow> map k (update_rows P f rs) = map k rs"
  by (simp add: update_rows_def)

lemma image_update_rows:
  "(\<And>r. r \<in> set rs \<Longrightarrow> P r \<Longrightarrow> k (f r) = k r) \<Longrightarrow> k ` set (update_rows P f rs) = k ` set rs"
  by (metis (no_types, lifting) list.set_map map_update_rows)

lemma set_delete_rows [simp]: "set (delete_rows P rs) = {r \<in> set rs. \<not> P r}"
  by (auto simp: delete_rows_def)

lemma image_key_other: "key ` {r \<in> S. key r \<noteq> k} = key ` S - {k}"
  by auto

lemma image_kept: "x \<in> f ` S \<Longrightarrow> x \<notin> f ` {r \<in> S. P r} \<Longrightarrow> x \<in> f ` {r \<in> S. \<not> P r}"
  by auto

lemma distinct_map_delete_rows: "distinct (map k rs) \<Longrightarrow> distinct (map k (delete_rows P rs))"
  by (simp add: delete_rows_def distinct_map_filter)

lemma length_update_rows [simp]: "length (update_rows P f rs) = length rs"
  by (simp add: update_rows_def)

lemma count_rows_0 [simp]: "count_rows P rs = 0 \<longleftrightarrow> (\<forall>r \<in> set rs. \<not> P r)"
  by (auto simp: count_rows_def filter_empty_conv)

lemma unique_err_None [simp]:
  "unique_err [] = None"
  "unique_err ((b, n) # cs) = (if b then Some (PgError ''23505'' n) else unique_err cs)"
  by (simp_all add: unique_err_def)

lemma fk_err_None [simp]:
  "fk_err [] = None"
  "fk_err ((b, n) # cs) = (if b then Some (PgError ''23503'' n) else fk_err cs)"
  by (simp_all add: fk_err_def)

lemma find_None_key: "find (\<lambda>r. key r = k) rs = None \<longleftrightarrow> k \<notin> key ` set rs"
  by (auto simp: find_None_iff)

lemma find_Some_key:
  "distinct (map key rs) \<Longrightarrow> find (\<lambda>r. key r = k) rs = Some r \<longleftrightarrow> r \<in> set rs \<and> key r = k"
  by (induction rs) (auto simp: rev_image_eqI)

lemma find_SomeD: "find P rs = Some r \<Longrightarrow> r \<in> set rs \<and> P r"
  by (auto simp: find_Some_iff)

lemma find_update_rows:
  "(\<And>r. r \<in> set rs \<Longrightarrow> P r \<Longrightarrow> key (f r) = key r) \<Longrightarrow>
   find (\<lambda>r. key r = k) (update_rows P f rs)
     = map_option (\<lambda>r. if P r then f r else r) (find (\<lambda>r. key r = k) rs)"
  by (induction rs) (auto simp: update_rows_def)

lemma find_filter_other: "find (\<lambda>r. key r = k) (filter (\<lambda>r. key r \<noteq> j) rs)
    = (if k = j then None else find (\<lambda>r. key r = k) rs)"
  by (induction rs) auto

lemma find_append_single: "find P (rs @ [r])
    = (case find P rs of None \<Rightarrow> if P r then Some r else None | Some q \<Rightarrow> Some q)"
  by (induction rs) auto

lemma count_rows_key:
  "distinct (map key rs) \<Longrightarrow>
   count_rows (\<lambda>r. key r = k) rs = (if find (\<lambda>r. key r = k) rs = None then 0 else 1)"
proof (induction rs)
  case Nil
  then show ?case by (simp add: count_rows_def)
next
  case (Cons r rs)
  have "find (\<lambda>r'. key r' = key r) rs = None"
    using Cons.prems by (simp add: find_None_key)
  with Cons show ?case by (auto simp: count_rows_def)
qed

lemma inj_on_set_unique:
  "distinct (map key rs) \<Longrightarrow> r \<in> set rs \<Longrightarrow> r' \<in> set rs \<Longrightarrow> key r = key r' \<Longrightarrow> r = r'"
  by (auto simp: distinct_map dest: inj_onD)

text \<open>
  Writing a \<open>UNIQUE\<close> column of one row: still unique when no other row has the value.
\<close>

lemma distinct_map_update_one:
  assumes "distinct (map key rs)" and "distinct (map k rs)"
    and "\<And>r r'. r \<in> set rs \<Longrightarrow> key r = i \<Longrightarrow> r' \<in> set rs \<Longrightarrow> key r' \<noteq> i \<Longrightarrow> k r' \<noteq> k (f r)"
  shows "distinct (map k (update_rows (\<lambda>r. key r = i) f rs))"
  using assms
proof (induction rs)
  case Nil
  then show ?case by simp
next
  case (Cons a rs)
  have IH: "distinct (map k (update_rows (\<lambda>r. key r = i) f rs))"
    using Cons by auto
  show ?case
  proof (cases "key a = i")
    case True
    then have none: "\<forall>r \<in> set rs. key r \<noteq> i"
      using Cons.prems(1) by (fastforce simp: image_iff)
    then have same: "update_rows (\<lambda>r. key r = i) f rs = rs"
      by (simp add: update_rows_def map_idI)
    have "k (f a) \<notin> k ` set rs"
      using Cons.prems(3) [of a] True none by fastforce
    with same True Cons.prems(2) show ?thesis by simp
  next
    case False
    have "k a \<notin> k ` set (update_rows (\<lambda>r. key r = i) f rs)"
      using Cons.prems(2,3) False by (fastforce simp: set_update_rows)
    with IH False show ?thesis by simp
  qed
qed

section \<open>Well-formed databases\<close>

definition opt_list :: "'a option \<Rightarrow> 'a list" where
  "opt_list z = (case z of None \<Rightarrow> [] | Some a \<Rightarrow> [a])"

definition node_ids :: "db \<Rightarrow> string set" where "node_ids d = n_ID ` set (db_nodes d)"
definition inbound_ids :: "db \<Rightarrow> string set" where "inbound_ids d = ib_ID ` set (db_inbounds d)"
definition plan_ids :: "db \<Rightarrow> string set" where "plan_ids d = p_ID ` set (db_plans d)"
definition user_ids :: "db \<Rightarrow> string set" where "user_ids d = u_ID ` set (db_users d)"

definition wf_nodes :: "db \<Rightarrow> bool" where
  "wf_nodes d \<longleftrightarrow> distinct (map n_ID (db_nodes d)) \<and> distinct (map n_Name (db_nodes d))"

definition wf_inbounds :: "db \<Rightarrow> bool" where
  "wf_inbounds d \<longleftrightarrow> distinct (map ib_ID (db_inbounds d))
     \<and> distinct (map (\<lambda>i. (ib_NodeID i, ib_Tag i)) (db_inbounds d))
     \<and> (\<forall>i \<in> set (db_inbounds d). ib_NodeID i \<in> node_ids d)"

definition wf_plans :: "db \<Rightarrow> bool" where
  "wf_plans d \<longleftrightarrow> distinct (map p_ID (db_plans d)) \<and> distinct (map p_Name (db_plans d))"

definition ext_unique :: "user list \<Rightarrow> bool" where
  "ext_unique us \<longleftrightarrow> (\<forall>u \<in> set us. \<forall>v \<in> set us. u_ExternalID u \<noteq> None
     \<longrightarrow> u_ExternalID u = u_ExternalID v \<longrightarrow> u_ID u = u_ID v)"

definition wf_users :: "db \<Rightarrow> bool" where
  "wf_users d \<longleftrightarrow> distinct (map u_ID (db_users d))
     \<and> distinct (map u_Email (db_users d))
     \<and> distinct (map u_UUID (db_users d))
     \<and> distinct (map u_TrojanPassword (db_users d))
     \<and> distinct (map u_SubToken (db_users d))
     \<and> ext_unique (db_users d)
     \<and> (\<forall>u \<in> set (db_users d). \<forall>p. u_PlanID u = Some p \<longrightarrow> p \<in> plan_ids d)"

lemma wf_users_code [code]:
  "wf_users d \<longleftrightarrow> distinct (map u_ID (db_users d)) \<and> distinct (map u_Email (db_users d))
     \<and> distinct (map u_UUID (db_users d)) \<and> distinct (map u_TrojanPassword (db_users d))
     \<and> distinct (map u_SubToken (db_users d)) \<and> ext_unique (db_users d)
     \<and> (\<forall>u \<in> set (db_users d). case u_PlanID u of None \<Rightarrow> True | Some p \<Rightarrow> p \<in> plan_ids d)"
  by (simp add: wf_users_def split: option.splits)

definition wf_user_inbounds :: "db \<Rightarrow> bool" where
  "wf_user_inbounds d \<longleftrightarrow>
     distinct (map (\<lambda>r. (ui_UserID r, ui_InboundID r)) (db_user_inbounds d))
     \<and> (\<forall>r \<in> set (db_user_inbounds d). ui_UserID r \<in> user_ids d \<and> ui_InboundID r \<in> inbound_ids d)"

definition wf_snapshots :: "db \<Rightarrow> bool" where
  "wf_snapshots d \<longleftrightarrow> distinct (map ts_ID (db_snapshots d))
     \<and> (\<forall>s \<in> set (db_snapshots d). ts_ID s < db_snapshot_seq d
          \<and> ts_UserID s \<in> user_ids d \<and> ts_NodeID s \<in> node_ids d)"

definition wf_keys :: "db \<Rightarrow> bool" where
  "wf_keys d \<longleftrightarrow> distinct (map k_ID (db_api_keys d)) \<and> distinct (map k_KeyHash (db_api_keys d))"

definition wf_events :: "db \<Rightarrow> bool" where
  "wf_events d \<longleftrightarrow> distinct (map we_ID (db_webhook_events d))"

definition wf_db :: "db \<Rightarrow> bool" where
  "wf_db d \<longleftrightarrow> wf_nodes d \<and> wf_inbounds d \<and> wf_plans d \<and> wf_users d \<and> wf_user_inbounds d
     \<and> wf_snapshots d \<and> wf_keys d \<and> wf_events d"

lemmas wf_table_defs =
  wf_nodes_def wf_inbounds_def wf_plans_def wf_users_def wf_user_inbounds_def
  wf_snapshots_def wf_keys_def wf_events_def
lemmas ids_defs = node_ids_def inbound_ids_def plan_ids_def user_ids_def

lemma ext_unique_update:
  assumes "ext_unique us" and "\<And>u. u_ID (f u) = u_ID u" and "\<And>u. u_ExternalID (f u) = u_ExternalID u"
  shows "ext_unique (update_rows P f us)"
proof -
  have orig: "\<exists>u \<in> set us. u_ID u = u_ID v \<and> u_ExternalID u = u_ExternalID v"
    if "v \<in> set (update_rows P f us)" for v
    using that assms(2,3) by (auto simp: set_update_rows)
  show ?thesis
    unfolding ext_unique_def
  proof (intro ballI impI)
    fix u v
    assume "u \<in> set (update_rows P f us)" and "v \<in> set (update_rows P f us)"
      and "u_ExternalID u \<noteq> None" and "u_ExternalID u = u_ExternalID v"
    then show "u_ID u = u_ID v"
      using orig [of u] orig [of v] assms(1) unfolding ext_unique_def by metis
  qed
qed

text \<open>Replacing one table: its own constraints, and no key others refer to may vanish.\<close>

lemma wf_db_nodes:
  "wf_db d \<Longrightarrow> distinct (map n_ID ns) \<Longrightarrow> distinct (map n_Name ns) \<Longrightarrow> node_ids d \<subseteq> n_ID ` set ns
    \<Longrightarrow> wf_db (d\<lparr>db_nodes := ns\<rparr>)"
  unfolding wf_db_def wf_table_defs ids_defs by (simp, blast)

lemma wf_db_inbounds:
  "wf_db d \<Longrightarrow> wf_inbounds (d\<lparr>db_inbounds := is\<rparr>) \<Longrightarrow> inbound_ids d \<subseteq> ib_ID ` set is
    \<Longrightarrow> wf_db (d\<lparr>db_inbounds := is\<rparr>)"
  unfolding wf_db_def wf_table_defs ids_defs by (simp, blast)

lemma wf_db_plans:
  "wf_db d \<Longrightarrow> distinct (map p_ID ps) \<Longrightarrow> distinct (map p_Name ps) \<Longrightarrow> plan_ids d \<subseteq> p_ID ` set ps
    \<Longrightarrow> wf_db (d\<lparr>db_plans := ps\<rparr>)"
  unfolding wf_db_def wf_table_defs ids_defs by (simp, blast)

lemma wf_db_users:
  "wf_db d \<Longrightarrow> wf_users (d\<lparr>db_users := us\<rparr>) \<Longrightarrow> user_ids d \<subseteq> u_ID ` set us
    \<Longrightarrow> wf_db (d\<lparr>db_users := us\<rparr>)"
  unfolding wf_db_def wf_table_defs ids_defs by (simp, blast)

lemma wf_db_user_inbounds:
  "wf_db d \<Longrightarrow> wf_user_inbounds (d\<lparr>db_user_inbounds := rs\<rparr>) \<Longrightarrow> wf_db (d\<lparr>db_user_inbounds := rs\<rparr>)"
  unfolding wf_db_def wf_table_defs ids_defs by simp

lemma wf_db_snapshots:
  "wf_db d \<Longrightarrow> wf_snapshots (d\<lparr>db_snapshots := ss, db_snapshot_seq := q\<rparr>)
    \<Longrightarrow> wf_db (d\<lparr>db_snapshots := ss, db_snapshot_seq := q\<rparr>)"
  unfolding wf_db_def wf_table_defs ids_defs by simp

lemma wf_db_keys:
  "wf_db d \<Longrightarrow> distinct (map k_ID ks) \<Longrightarrow> distinct (map k_KeyHash ks) \<Longrightarrow> wf_db (d\<lparr>db_api_keys := ks\<rparr>)"
  unfolding wf_db_def wf_table_defs ids_defs by simp

lemma wf_db_events:
  "wf_db d \<Longrightarrow> distinct (map we_ID es) \<Longrightarrow> wf_db (d\<lparr>db_webhook_events := es\<rparr>)"
  unfolding wf_db_def wf_table_defs ids_defs by simp

lemma wf_dbD:
  assumes "wf_db d"
  shows "wf_nodes d" "wf_inbounds d" "wf_plans d" "wf_users d" "wf_user_inbounds d"
    "wf_snapshots d" "wf_keys d" "wf_events d"
  using assms by (simp_all add: wf_db_def)

lemmas wf_dbI = wf_db_def [THEN iffD2, OF conjI, OF _ conjI, OF _ _ conjI, OF _ _ _ conjI,
  OF _ _ _ _ conjI, OF _ _ _ _ _ conjI, OF _ _ _ _ _ _ conjI]

lemma wf_db_distinct:
  assumes "wf_db d"
  shows "distinct (map n_ID (db_nodes d))" "distinct (map n_Name (db_nodes d))"
    "distinct (map ib_ID (db_inbounds d))" "distinct (map p_ID (db_plans d))"
    "distinct (map p_Name (db_plans d))" "distinct (map u_ID (db_users d))"
    "distinct (map u_Email (db_users d))" "distinct (map u_SubToken (db_users d))"
    "distinct (map k_ID (db_api_keys d))" "distinct (map k_KeyHash (db_api_keys d))"
    "distinct (map we_ID (db_webhook_events d))"
  using assms by (simp_all add: wf_db_def wf_table_defs)

section \<open>The contract of an entity table\<close>

locale repository =
  fixes key :: "'r \<Rightarrow> string"
    and rows :: "db \<Rightarrow> 'r list"
    and stored :: "time \<Rightarrow> 'r \<Rightarrow> 'r"
    and ins :: "'r \<Rightarrow> time \<Rightarrow> db \<Rightarrow> error + unit \<times> db"
    and del :: "string \<Rightarrow> time \<Rightarrow> db \<Rightarrow> error + nat \<times> db"
  assumes key_stored: "key (stored now r) = key r"
    and rows_distinct: "wf_db d \<Longrightarrow> distinct (map key (rows d))"
    and ins_rows: "ins r now d = Inr (u, d') \<Longrightarrow> rows d' = rows d @ [stored now r]"
    and ins_fresh: "ins r now d = Inr (u, d') \<Longrightarrow> key r \<notin> key ` set (rows d)"
    and ins_wf: "wf_db d \<Longrightarrow> ins r now d = Inr (u, d') \<Longrightarrow> wf_db d'"
    and del_result: "\<exists>d'. del k now d = Inr (count_rows (\<lambda>r. key r = k) (rows d), d')
           \<and> rows d' = delete_rows (\<lambda>r. key r = k) (rows d)"
    and del_wf: "wf_db d \<Longrightarrow> del k now d = Inr (n, d') \<Longrightarrow> wf_db d'"
begin

definition lookup :: "string \<Rightarrow> db \<Rightarrow> 'r option" where
  "lookup k d = find (\<lambda>r. key r = k) (rows d)"

lemma lookup_insert:
  assumes "ins r now d = Inr (u, d')"
  shows "lookup k d' = (if k = key r then Some (stored now r) else lookup k d)"
proof -
  have rs: "rows d' = rows d @ [stored now r]"
    using assms by (rule ins_rows)
  have "find (\<lambda>r'. key r' = key r) (rows d) = None"
    using ins_fresh [OF assms] by (simp add: find_None_key)
  with rs show ?thesis
    by (auto simp: lookup_def key_stored find_append_single split: option.splits)
qed

lemma insert_duplicate: "lookup (key r) d \<noteq> None \<Longrightarrow> \<exists>e. ins r now d = Inl e"
  by (metis find_None_key ins_fresh lookup_def obj_sumE surj_pair)

lemma lookup_delete:
  assumes "del k now d = Inr (n, d')"
  shows "lookup j d' = (if j = k then None else lookup j d)"
proof -
  obtain d0 where "del k now d = Inr (count_rows (\<lambda>r. key r = k) (rows d), d0)"
    and "rows d0 = delete_rows (\<lambda>r. key r = k) (rows d)"
    using del_result by blast
  with assms show ?thesis by (simp add: lookup_def delete_rows_def find_filter_other)
qed

lemma delete_count:
  assumes "wf_db d"
  shows "\<exists>d'. del k now d = Inr (if lookup k d = None then 0 else 1, d')"
proof -
  have "count_rows (\<lambda>r. key r = k) (rows d) = (if lookup k d = None then 0 else 1)"
    unfolding lookup_def by (rule count_rows_key [OF rows_distinct [OF assms]])
  then show ?thesis using del_result [of k now d] by auto
qed

text \<open>Creating and then deleting a row leaves the table as it was.\<close>

lemma insert_delete_rows:
  assumes "ins r now d = Inr (u, d1)" and "del (key r) now' d1 = Inr (n, d2)"
  shows "rows d2 = rows d"
proof -
  have "rows d2 = delete_rows (\<lambda>r'. key r' = key r) (rows d1)"
    using del_result [of "key r" now' d1] assms(2) by auto
  also have "\<dots> = delete_rows (\<lambda>r'. key r' = key r) (rows d)"
    using ins_rows [OF assms(1)] by (simp add: delete_rows_def key_stored)
  also have "\<dots> = rows d"
    using ins_fresh [OF assms(1)] by (force simp: delete_rows_def filter_id_conv image_iff)
  finally show ?thesis .
qed

end

text \<open>A table whose rows can also be updated in place, keeping their identifier.\<close>

locale updatable_repository = repository +
  fixes upd :: "'a \<Rightarrow> time \<Rightarrow> db \<Rightarrow> error + nat \<times> db"
    and assign :: "time \<Rightarrow> 'a \<Rightarrow> 'a \<Rightarrow> 'a"
  assumes assign_key: "key (assign now r old) = key old"
    and upd_rows: "upd r now d = Inr (n, d') \<Longrightarrow>
          rows d' = update_rows (\<lambda>r'. key r' = key r) (assign now r) (rows d)"
    and upd_count: "upd r now d = Inr (n, d') \<Longrightarrow> n = count_rows (\<lambda>r'. key r' = key r) (rows d)"
    and upd_wf: "wf_db d \<Longrightarrow> upd r now d = Inr (n, d') \<Longrightarrow> wf_db d'"
begin

lemma lookup_update:
  assumes "upd r now d = Inr (n, d')"
  shows "lookup k d' = (if k = key r then map_option (assign now r) (lookup k d) else lookup k d)"
proof -
  have "lookup k d' = map_option (\<lambda>r'. if key r' = key r then assign now r r' else r') (lookup k d)"
    unfolding lookup_def upd_rows [OF assms] by (rule find_update_rows) (simp add: assign_key)
  moreover have "key r' = k" if "lookup k d = Some r'" for r'
    using that by (auto simp: lookup_def find_Some_iff)
  ultimately show ?thesis by (cases "lookup k d") auto
qed

lemma update_domain: "upd r now d = Inr (n, d') \<Longrightarrow> lookup k d' = None \<longleftrightarrow> lookup k d = None"
  by (simp add: lookup_update)

end

end
