(* ===== verification/Store_Catalog.thy ===== *)
theory Store_Catalog
  imports Schema
begin

text \<open>
  \<open>internal/store\<close>: the tables of nodes, inbounds, plans, API keys and webhook events.
  Each SQL statement is a function on databases (\<open>insert_node\<close>, \<open>delete_plan\<close>, ...);
  the repository methods of \<open>Store\<close> run it and map its errors. The entity tables are
  shown to be instances of the \<open>repository\<close> contract, so what a lookup returns after a
  creation, an update or a deletion, and that all of them keep the schema's constraints,
  are the lemmas of that locale.
\<close>

section \<open>Nodes\<close>

definition scanNode :: "node \<Rightarrow> node" where
  "scanNode n = n\<lparr>n_APIHasClientKey := n_APIClientKey n \<noteq> []\<rparr>"

definition new_node_row :: "time \<Rightarrow> node \<Rightarrow> node" where
  "new_node_row now n = n\<lparr>n_LastSeenAt := None, n_LastError := [], n_CreatedAt := now, n_UpdatedAt := now\<rparr>"

definition insert_node :: "node \<Rightarrow> time \<Rightarrow> db \<Rightarrow> error + unit \<times> db" where
  "insert_node n now d = (case unique_err
      [(n_ID n \<in> n_ID ` set (db_nodes d), ''nodes_pkey''),
       (n_Name n \<in> n_Name ` set (db_nodes d), ''nodes_name_key'')] of
      Some e \<Rightarrow> Inl e
    | None \<Rightarrow> Inr ((), d\<lparr>db_nodes := db_nodes d @ [new_node_row now n]\<rparr>))"

definition CreateNode :: "node \<Rightarrow> ('x, unit) io" where
  "CreateNode n = onErr mapErr (db_exec (insert_node n))"

definition find_node :: "string \<Rightarrow> db \<Rightarrow> node option" where
  "find_node ident d = find (\<lambda>n. n_ID n = ident) (db_nodes d)"

definition GetNode :: "string \<Rightarrow> ('x, node) io" where
  "GetNode ident = onErr mapErr (db_query (\<lambda>d. case find_node ident d of
      None \<Rightarrow> Inl SqlErrNoRows | Some n \<Rightarrow> Inr (scanNode n)))"

definition ListNodes :: "('x, node list) io" where
  "ListNodes = onErr mapErr (db_query (\<lambda>d. Inr (map scanNode (sort_key n_CreatedAt (db_nodes d)))))"

definition assign_node :: "time \<Rightarrow> node \<Rightarrow> node \<Rightarrow> node" where
  "assign_node now n r = r\<lparr>n_Name := n_Name n, n_APIAddress := n_APIAddress n, n_APIPort := n_APIPort n,
     n_APITLS := n_APITLS n, n_APITLSServerName := n_APITLSServerName n,
     n_APITLSInsecure := n_APITLSInsecure n, n_APICACert := n_APICACert n,
     n_APIClientCert := n_APIClientCert n, n_APIClientKey := n_APIClientKey n,
     n_Status := n_Status n, n_UpdatedAt := now\<rparr>"

definition update_node :: "node \<Rightarrow> time \<Rightarrow> db \<Rightarrow> error + nat \<times> db" where
  "update_node n now d = (case unique_err
      [(n_ID n \<in> n_ID ` set (db_nodes d) \<and>
        (\<exists>r \<in> set (db_nodes d). n_ID r \<noteq> n_ID n \<and> n_Name r = n_Name n), ''nodes_name_key'')] of
      Some e \<Rightarrow> Inl e
    | None \<Rightarrow> Inr (count_rows (\<lambda>r. n_ID r = n_ID n) (db_nodes d),
        d\<lparr>db_nodes := update_rows (\<lambda>r. n_ID r = n_ID n) (assign_node now n) (db_nodes d)\<rparr>))"

definition UpdateNode :: "node \<Rightarrow> ('x, unit) io" where
  "UpdateNode n = requireRow (db_exec (update_node n))"

definition set_node_health :: "string \<Rightarrow> NodeStatus \<Rightarrow> string \<Rightarrow> time option \<Rightarrow> time \<Rightarrow> db
    \<Rightarrow> error + nat \<times> db" where
  "set_node_health ident status lastErr seenAt now d =
     Inr (count_rows (\<lambda>r. n_ID r = ident) (db_nodes d),
       d\<lparr>db_nodes := update_rows (\<lambda>r. n_ID r = ident)
          (\<lambda>r. r\<lparr>n_Status := status, n_LastError := lastErr,
             n_LastSeenAt := (case seenAt of None \<Rightarrow> n_LastSeenAt r | Some t \<Rightarrow> Some t),
             n_UpdatedAt := now\<rparr>) (db_nodes d)\<rparr>)"

definition SetNodeHealth :: "string \<Rightarrow> NodeStatus \<Rightarrow> string \<Rightarrow> time option \<Rightarrow> ('x, unit) io" where
  "SetNodeHealth ident status lastErr seenAt =
     requireRow (db_exec (set_node_health ident status lastErr seenAt))"

text \<open>\<open>ON DELETE CASCADE\<close>: a node takes its inbounds, their assignments and its snapshots along.\<close>

definition delete_node :: "string \<Rightarrow> time \<Rightarrow> db \<Rightarrow> error + nat \<times> db" where
  "delete_node ident now d =
     (let gone = ib_ID ` {i \<in> set (db_inbounds d). ib_NodeID i = ident} in
      Inr (count_rows (\<lambda>r. n_ID r = ident) (db_nodes d),
        d\<lparr>db_nodes := delete_rows (\<lambda>r. n_ID r = ident) (db_nodes d),
          db_inbounds := delete_rows (\<lambda>i. ib_NodeID i = ident) (db_inbounds d),
          db_user_inbounds := delete_rows (\<lambda>r. ui_InboundID r \<in> gone) (db_user_inbounds d),
          db_snapshots := delete_rows (\<lambda>s. ts_NodeID s = ident) (db_snapshots d)\<rparr>))"

definition DeleteNode :: "string \<Rightarrow> ('x, unit) io" where
  "DeleteNode ident = requireRow (db_exec (delete_node ident))"

section \<open>Inbounds\<close>

definition new_inbound_row :: "time \<Rightarrow> inbound \<Rightarrow> inbound" where
  "new_inbound_row now i = i\<lparr>ib_CreatedAt := now, ib_UpdatedAt := now\<rparr>"

definition insert_inbound :: "inbound \<Rightarrow> time \<Rightarrow> db \<Rightarrow> error + unit \<times> db" where
  "insert_inbound i now d = (case unique_err
      [(ib_ID i \<in> ib_ID ` set (db_inbounds d), ''inbounds_pkey''),
       (\<exists>r \<in> set (db_inbounds d). ib_NodeID r = ib_NodeID i \<and> ib_Tag r = ib_Tag i,
        ''inbounds_node_id_tag_key'')] of
      Some e \<Rightarrow> Inl e
    | None \<Rightarrow> (case fk_err [(ib_NodeID i \<notin> node_ids d, ''inbounds_node_id_fkey'')] of
          Some e \<Rightarrow> Inl e
        | None \<Rightarrow> Inr ((), d\<lparr>db_inbounds := db_inbounds d @ [new_inbound_row now i]\<rparr>)))"

definition CreateInbound :: "inbound \<Rightarrow> ('x, unit) io" where
  "CreateInbound i = onErr mapErr (db_exec (insert_inbound i))"

definition find_inbound :: "string \<Rightarrow> db \<Rightarrow> inbound option" where
  "find_inbound ident d = find (\<lambda>i. ib_ID i = ident) (db_inbounds d)"

definition GetInbound :: "string \<Rightarrow> ('x, inbound) io" where
  "GetInbound ident = onErr mapErr (db_query (\<lambda>d. case find_inbound ident d of
      None \<Rightarrow> Inl SqlErrNoRows | Some i \<Rightarrow> Inr i))"

definition queryInbounds :: "(db \<Rightarrow> inbound list) \<Rightarrow> ('x, inbound list) io" where
  "queryInbounds q = onErr mapErr (db_query (\<lambda>d. Inr (q d)))"

definition ListInboundsByNode :: "string \<Rightarrow> ('x, inbound list) io" where
  "ListInboundsByNode nodeID = queryInbounds (\<lambda>d.
     sort_key ib_CreatedAt (filter (\<lambda>i. ib_NodeID i = nodeID) (db_inbounds d)))"

definition ListInboundsByIDs :: "string list \<Rightarrow> ('x, inbound list) io" where
  "ListInboundsByIDs ids = (if ids = [] then ret []
     else queryInbounds (\<lambda>d. filter (\<lambda>i. ib_ID i \<in> set ids) (db_inbounds d)))"

definition ListInboundsForUser :: "string \<Rightarrow> ('x, inbound list) io" where
  "ListInboundsForUser userID = queryInbounds (\<lambda>d.
     sort_key ib_CreatedAt (filter (\<lambda>i. \<exists>r \<in> set (db_user_inbounds d).
        ui_InboundID r = ib_ID i \<and> ui_UserID r = userID) (db_inbounds d)))"

definition assign_inbound :: "time \<Rightarrow> inbound \<Rightarrow> inbound \<Rightarrow> inbound" where
  "assign_inbound now i r = i\<lparr>ib_ID := ib_ID r, ib_NodeID := ib_NodeID r,
     ib_CreatedAt := ib_CreatedAt r, ib_UpdatedAt := now\<rparr>"

definition update_inbound :: "inbound \<Rightarrow> time \<Rightarrow> db \<Rightarrow> error + nat \<times> db" where
  "update_inbound i now d = (case unique_err
      [(\<exists>r \<in> set (db_inbounds d). ib_ID r = ib_ID i \<and>
         (\<exists>r' \<in> set (db_inbounds d). ib_ID r' \<noteq> ib_ID i \<and> ib_NodeID r' = ib_NodeID r
            \<and> ib_Tag r' = ib_Tag i), ''inbounds_node_id_tag_key'')] of
      Some e \<Rightarrow> Inl e
    | None \<Rightarrow> Inr (count_rows (\<lambda>r. ib_ID r = ib_ID i) (db_inbounds d),
        d\<lparr>db_inbounds := update_rows (\<lambda>r. ib_ID r = ib_ID i) (assign_inbound now i) (db_inbounds d)\<rparr>))"

definition UpdateInbound :: "inbound \<Rightarrow> ('x, unit) io" where
  "UpdateInbound i = requireRow (db_exec (update_inbound i))"

definition delete_inbound :: "string \<Rightarrow> time \<Rightarrow> db \<Rightarrow> error + nat \<times> db" where
  "delete_inbound ident now d =
     Inr (count_rows (\<lambda>r. ib_ID r = ident) (db_inbounds d),
       d\<lparr>db_inbounds := delete_rows (\<lambda>r. ib_ID r = ident) (db_inbounds d),
         db_user_inbounds := delete_rows (\<lambda>r. ui_InboundID r = ident) (db_user_inbounds d)\<rparr>)"

definition DeleteInbound :: "string \<Rightarrow> ('x, unit) io" where
  "DeleteInbound ident = requireRow (db_exec (delete_inbound ident))"

section \<open>Plans\<close>

definition new_plan_row :: "time \<Rightarrow> plan \<Rightarrow> plan" where
  "new_plan_row now p = p\<lparr>p_CreatedAt := now, p_UpdatedAt := now\<rparr>"

definition insert_plan :: "plan \<Rightarrow> time \<Rightarrow> db \<Rightarrow> error + unit \<times> db" where
  "insert_plan p now d = (case unique_err
      [(p_ID p \<in> p_ID ` set (db_plans d), ''plans_pkey''),
       (p_Name p \<in> p_Name ` set (db_plans d), ''plans_name_key'')] of
      Some e \<Rightarrow> Inl e
    | None \<Rightarrow> Inr ((), d\<lparr>db_plans := db_plans d @ [new_plan_row now p]\<rparr>))"

definition CreatePlan :: "plan \<Rightarrow> ('x, unit) io" where
  "CreatePlan p = onErr mapErr (db_exec (insert_plan p))"

definition find_plan :: "string \<Rightarrow> db \<Rightarrow> plan option" where
  "find_plan ident d = find (\<lambda>p. p_ID p = ident) (db_plans d)"

definition GetPlan :: "string \<Rightarrow> ('x, plan) io" where
  "GetPlan ident = onErr mapErr (db_query (\<lambda>d. case find_plan ident d of
      None \<Rightarrow> Inl SqlErrNoRows | Some p \<Rightarrow> Inr p))"

definition ListPlans :: "('x, plan list) io" where
  "ListPlans = onErr mapErr (db_query (\<lambda>d. Inr (sort_key p_CreatedAt (db_plans d))))"

definition assign_plan :: "time \<Rightarrow> plan \<Rightarrow> plan \<Rightarrow> plan" where
  "assign_plan now p r = r\<lparr>p_Name := p_Name p, p_DataLimitBytes := p_DataLimitBytes p,
     p_DurationDays := p_DurationDays p, p_UpdatedAt := now\<rparr>"

definition update_plan :: "plan \<Rightarrow> time \<Rightarrow> db \<Rightarrow> error + nat \<times> db" where
  "update_plan p now d = (case unique_err
      [(p_ID p \<in> p_ID ` set (db_plans d) \<and>
        (\<exists>r \<in> set (db_plans d). p_ID r \<noteq> p_ID p \<and> p_Name r = p_Name p), ''plans_name_key'')] of
      Some e \<Rightarrow> Inl e
    | None \<Rightarrow> Inr (count_rows (\<lambda>r. p_ID r = p_ID p) (db_plans d),
        d\<lparr>db_plans := update_rows (\<lambda>r. p_ID r = p_ID p) (assign_plan now p) (db_plans d)\<rparr>))"

definition UpdatePlan :: "plan \<Rightarrow> ('x, unit) io" where
  "UpdatePlan p = requireRow (db_exec (update_plan p))"

text \<open>\<open>ON DELETE SET NULL\<close>: users of a deleted plan keep their limits and lose the reference.\<close>

definition delete_plan :: "string \<Rightarrow> time \<Rightarrow> db \<Rightarrow> error + nat \<times> db" where
  "delete_plan ident now d =
     Inr (count_rows (\<lambda>r. p_ID r = ident) (db_plans d),
       d\<lparr>db_plans := delete_rows (\<lambda>r. p_ID r = ident) (db_plans d),
         db_users := update_rows (\<lambda>u. u_PlanID u = Some ident) (\<lambda>u. u\<lparr>u_PlanID := None\<rparr>) (db_users d)\<rparr>)"

definition DeletePlan :: "string \<Rightarrow> ('x, unit) io" where
  "DeletePlan ident = requireRow (db_exec (delete_plan ident))"

section \<open>API keys\<close>

definition new_key_row :: "time \<Rightarrow> api_key \<Rightarrow> api_key" where
  "new_key_row now k = k\<lparr>k_CreatedAt := now, k_LastUsedAt := None, k_RevokedAt := None\<rparr>"

definition insert_api_key :: "api_key \<Rightarrow> time \<Rightarrow> db \<Rightarrow> error + unit \<times> db" where
  "insert_api_key k now d = (case unique_err
      [(k_ID k \<in> k_ID ` set (db_api_keys d), ''api_keys_pkey''),
       (k_KeyHash k \<in> k_KeyHash ` set (db_api_keys d), ''api_keys_key_hash_key'')] of
      Some e \<Rightarrow> Inl e
    | None \<Rightarrow> Inr ((), d\<lparr>db_api_keys := db_api_keys d @ [new_key_row now k]\<rparr>))"

definition CreateAPIKey :: "api_key \<Rightarrow> ('x, unit) io" where
  "CreateAPIKey k = onErr mapErr (db_exec (insert_api_key k))"

definition live_key :: "string \<Rightarrow> api_key \<Rightarrow> bool" where
  "live_key hash k \<longleftrightarrow> k_KeyHash k = hash \<and> k_RevokedAt k = None"

definition touch_api_key :: "string \<Rightarrow> time \<Rightarrow> db \<Rightarrow> error + api_key \<times> db" where
  "touch_api_key hash now d = (case find (live_key hash) (db_api_keys d) of
      None \<Rightarrow> Inl SqlErrNoRows
    | Some k \<Rightarrow> Inr (k\<lparr>k_LastUsedAt := Some now\<rparr>,
        d\<lparr>db_api_keys := update_rows (live_key hash) (\<lambda>k. k\<lparr>k_LastUsedAt := Some now\<rparr>) (db_api_keys d)\<rparr>))"

definition FindAPIKeyByHash :: "string \<Rightarrow> ('x, api_key) io" where
  "FindAPIKeyByHash hash = onErr mapErr (db_exec (touch_api_key hash))"

definition ListAPIKeys :: "('x, api_key list) io" where
  "ListAPIKeys = onErr mapErr (db_query (\<lambda>d. Inr (sort_key k_CreatedAt (db_api_keys d))))"

definition revoke_api_key :: "string \<Rightarrow> time \<Rightarrow> db \<Rightarrow> error + nat \<times> db" where
  "revoke_api_key ident now d =
     (let P = (\<lambda>k. k_ID k = ident \<and> k_RevokedAt k = None) in
      Inr (count_rows P (db_api_keys d),
        d\<lparr>db_api_keys := update_rows P (\<lambda>k. k\<lparr>k_RevokedAt := Some now\<rparr>) (db_api_keys d)\<rparr>))"

definition RevokeAPIKey :: "string \<Rightarrow> ('x, unit) io" where
  "RevokeAPIKey ident = requireRow (db_exec (revoke_api_key ident))"

definition CountAPIKeys :: "('x, nat) io" where
  "CountAPIKeys = onErr mapErr (db_query (\<lambda>d. Inr (count_rows (\<lambda>k. k_RevokedAt k = None) (db_api_keys d))))"

section \<open>Webhook events\<close>

definition insert_webhook_event :: "string \<Rightarrow> string \<Rightarrow> time \<Rightarrow> db \<Rightarrow> error + nat \<times> db" where
  "insert_webhook_event eventID action now d =
     (if eventID \<in> we_ID ` set (db_webhook_events d) then Inr (0, d)
      else Inr (1, d\<lparr>db_webhook_events := db_webhook_events d
             @ [\<lparr>we_ID = eventID, we_Action = action, we_ReceivedAt = now\<rparr>]\<rparr>))"

definition RecordWebhookEvent :: "string \<Rightarrow> string \<Rightarrow> ('x, bool) io" where
  "RecordWebhookEvent eventID action =
     bindE (onErr mapErr (db_exec (insert_webhook_event eventID action))) (\<lambda>n. ret (n = 1))"

section \<open>The schema's constraints are kept\<close>

lemma wf_insert_node: "wf_db d \<Longrightarrow> insert_node n now d = Inr (u, d') \<Longrightarrow> wf_db d'"
  by (auto simp: insert_node_def new_node_row_def wf_db_distinct node_ids_def split: if_splits
      intro!: wf_db_nodes)

lemma wf_update_node: "wf_db d \<Longrightarrow> update_node n now d = Inr (c, d') \<Longrightarrow> wf_db d'"
  by (auto simp: update_node_def assign_node_def wf_db_distinct node_ids_def map_update_rows
      image_update_rows rev_image_eqI split: if_splits intro!: wf_db_nodes distinct_map_update_one)

lemma wf_set_node_health:
  "wf_db d \<Longrightarrow> set_node_health ident st e seen now d = Inr (c, d') \<Longrightarrow> wf_db d'"
  by (auto simp: set_node_health_def wf_db_distinct node_ids_def map_update_rows image_update_rows
      intro!: wf_db_nodes)

lemma wf_insert_inbound:
  assumes "wf_db d" and ins: "insert_inbound i now d = Inr (u, d')"
  shows "wf_db d'"
proof -
  let ?is = "db_inbounds d @ [new_inbound_row now i]"
  have d': "d' = d\<lparr>db_inbounds := ?is\<rparr>"
    using ins by (auto simp: insert_inbound_def split: if_splits)
  have "wf_inbounds (d\<lparr>db_inbounds := ?is\<rparr>)"
    using wf_dbD(2) [OF assms(1)] ins
    by (auto simp: insert_inbound_def new_inbound_row_def wf_inbounds_def node_ids_def split: if_splits)
  then show ?thesis
    unfolding d' by (rule wf_db_inbounds [OF assms(1)]) (auto simp: inbound_ids_def)
qed

lemma wf_update_inbound:
  assumes "wf_db d" and upd: "update_inbound i now d = Inr (n, d')"
  shows "wf_db d'"
proof -
  let ?is = "update_rows (\<lambda>r. ib_ID r = ib_ID i) (assign_inbound now i) (db_inbounds d)"
  have d': "d' = d\<lparr>db_inbounds := ?is\<rparr>"
    using upd by (auto simp: update_inbound_def split: if_splits)
  have ids: "map ib_ID ?is = map ib_ID (db_inbounds d)"
    by (rule map_update_rows) (simp add: assign_inbound_def)
  have "distinct (map (\<lambda>i. (ib_NodeID i, ib_Tag i)) ?is)"
    using wf_dbD(2) [OF assms(1)] upd
    by (intro distinct_map_update_one)
       (auto simp: wf_inbounds_def update_inbound_def assign_inbound_def split: if_splits)
  then have "wf_inbounds (d\<lparr>db_inbounds := ?is\<rparr>)"
    using wf_dbD(2) [OF assms(1)] ids
    by (auto simp: wf_inbounds_def node_ids_def set_update_rows assign_inbound_def)
  then show ?thesis
    unfolding d' by (rule wf_db_inbounds [OF assms(1)])
      (simp add: inbound_ids_def image_update_rows assign_inbound_def)
qed

lemma wf_insert_plan: "wf_db d \<Longrightarrow> insert_plan p now d = Inr (u, d') \<Longrightarrow> wf_db d'"
  by (auto simp: insert_plan_def new_plan_row_def wf_db_distinct plan_ids_def split: if_splits
      intro!: wf_db_plans)

lemma wf_update_plan: "wf_db d \<Longrightarrow> update_plan p now d = Inr (c, d') \<Longrightarrow> wf_db d'"
  by (auto simp: update_plan_def assign_plan_def wf_db_distinct plan_ids_def map_update_rows
      image_update_rows rev_image_eqI split: if_splits intro!: wf_db_plans distinct_map_update_one)

lemma wf_insert_api_key: "wf_db d \<Longrightarrow> insert_api_key k now d = Inr (u, d') \<Longrightarrow> wf_db d'"
  by (auto simp: insert_api_key_def new_key_row_def wf_db_distinct split: if_splits intro!: wf_db_keys)

lemma wf_touch_api_key: "wf_db d \<Longrightarrow> touch_api_key h now d = Inr (k, d') \<Longrightarrow> wf_db d'"
  by (auto simp: touch_api_key_def wf_db_distinct map_update_rows split: option.splits intro!: wf_db_keys)

lemma wf_revoke_api_key: "wf_db d \<Longrightarrow> revoke_api_key h now d = Inr (k, d') \<Longrightarrow> wf_db d'"
  by (auto simp: revoke_api_key_def wf_db_distinct map_update_rows Let_def intro!: wf_db_keys)

lemma wf_insert_webhook_event:
  "wf_db d \<Longrightarrow> insert_webhook_event e a now d = Inr (n, d') \<Longrightarrow> wf_db d'"
  by (auto simp: insert_webhook_event_def wf_db_distinct split: if_splits intro!: wf_db_events)

lemma wf_delete_node:
  assumes "wf_db d" and del: "delete_node ident now d = Inr (n, d')"
  shows "wf_db d'"
proof (rule wf_dbI)
  have d': "d' = d\<lparr>db_nodes := delete_rows (\<lambda>r. n_ID r = ident) (db_nodes d),
      db_inbounds := delete_rows (\<lambda>i. ib_NodeID i = ident) (db_inbounds d),
      db_user_inbounds := delete_rows (\<lambda>r. ui_InboundID r \<in>
         ib_ID ` {i \<in> set (db_inbounds d). ib_NodeID i = ident}) (db_user_inbounds d),
      db_snapshots := delete_rows (\<lambda>s. ts_NodeID s = ident) (db_snapshots d)\<rparr>"
    using del by (simp add: delete_node_def Let_def)
  note wf = wf_dbD [OF assms(1)]
  have nodes: "node_ids d' = node_ids d - {ident}"
    by (simp add: d' node_ids_def image_key_other)
  show "wf_nodes d'" using wf(1) by (simp add: d' wf_nodes_def distinct_map_delete_rows)
  show "wf_inbounds d'"
    using wf(2) nodes by (simp add: wf_inbounds_def d' distinct_map_delete_rows)
  show "wf_plans d'" using wf(3) by (simp add: d' wf_plans_def)
  show "wf_users d'" using wf(4) by (simp add: d' wf_users_def plan_ids_def)
  show "wf_user_inbounds d'"
    using wf(5) by (auto simp: d' wf_user_inbounds_def user_ids_def inbound_ids_def
        distinct_map_delete_rows intro!: image_kept)
  show "wf_snapshots d'"
    using wf(6) nodes by (simp add: wf_snapshots_def d' user_ids_def distinct_map_delete_rows)
  show "wf_keys d'" using wf(7) by (simp add: d' wf_keys_def)
  show "wf_events d'" using wf(8) by (simp add: d' wf_events_def)
qed

lemma wf_delete_inbound:
  assumes "wf_db d" and del: "delete_inbound ident now d = Inr (n, d')"
  shows "wf_db d'"
proof -
  have d': "d' = d\<lparr>db_inbounds := delete_rows (\<lambda>r. ib_ID r = ident) (db_inbounds d),
      db_user_inbounds := delete_rows (\<lambda>r. ui_InboundID r = ident) (db_user_inbounds d)\<rparr>"
    using del by (simp add: delete_inbound_def)
  note wf = wf_dbD [OF assms(1)]
  have ids: "inbound_ids d' = inbound_ids d - {ident}"
    by (simp add: d' inbound_ids_def image_key_other)
  show ?thesis
  proof (rule wf_dbI)
    show "wf_inbounds d'" using wf(2) by (simp add: d' wf_inbounds_def node_ids_def distinct_map_delete_rows)
    show "wf_user_inbounds d'"
      using wf(5) ids by (simp add: wf_user_inbounds_def d' user_ids_def distinct_map_delete_rows)
  qed (use wf in \<open>simp_all add: d' wf_table_defs user_ids_def node_ids_def plan_ids_def\<close>)
qed

lemma wf_delete_plan:
  assumes "wf_db d" and del: "delete_plan ident now d = Inr (n, d')"
  shows "wf_db d'"
proof -
  let ?us = "update_rows (\<lambda>u. u_PlanID u = Some ident) (\<lambda>u. u\<lparr>u_PlanID := None\<rparr>) (db_users d)"
  let ?ps = "delete_rows (\<lambda>r. p_ID r = ident) (db_plans d)"
  have d': "d' = d\<lparr>db_plans := ?ps, db_users := ?us\<rparr>"
    using del by (simp add: delete_plan_def)
  note wf = wf_dbD [OF assms(1)]
  have ids: "plan_ids d' = plan_ids d - {ident}" "user_ids d' = user_ids d"
    by (simp_all add: d' ids_defs image_key_other image_update_rows)
  have "ext_unique ?us"
    using wf(4) by (intro ext_unique_update) (simp_all add: wf_users_def)
  then have "wf_users d'"
    using wf(4) ids(1)
    by (auto simp: wf_users_def d' map_update_rows set_update_rows)
  then show ?thesis
  proof (rule wf_dbI [rotated 3])
    show "wf_user_inbounds d'" using wf(5) ids(2) by (simp add: wf_user_inbounds_def d' inbound_ids_def)
    show "wf_snapshots d'" using wf(6) ids(2) by (simp add: wf_snapshots_def d' node_ids_def)
  qed (use wf in \<open>simp_all add: d' wf_table_defs node_ids_def distinct_map_delete_rows\<close>)
qed

section \<open>The entity tables are repositories\<close>

lemma delete_node_result:
  "\<exists>d'. delete_node k now d = Inr (count_rows (\<lambda>r. n_ID r = k) (db_nodes d), d')
     \<and> db_nodes d' = delete_rows (\<lambda>r. n_ID r = k) (db_nodes d)"
  by (simp add: delete_node_def Let_def)

interpretation nodes: updatable_repository n_ID db_nodes new_node_row insert_node delete_node
  update_node assign_node
proof unfold_locales
  fix r now d u d' assume ins: "insert_node r now d = Inr (u, d')"
  show "db_nodes d' = db_nodes d @ [new_node_row now r]" and "n_ID r \<notin> n_ID ` set (db_nodes d)"
    using ins by (auto simp: insert_node_def split: if_splits)
next
  fix r now d n d' assume upd: "update_node r now d = Inr (n, d')"
  show "db_nodes d' = update_rows (\<lambda>r'. n_ID r' = n_ID r) (assign_node now r) (db_nodes d)"
    and "n = count_rows (\<lambda>r'. n_ID r' = n_ID r) (db_nodes d)"
    using upd by (auto simp: update_node_def split: if_splits)
qed (rule delete_node_result wf_db_distinct | erule (1) wf_insert_node wf_delete_node wf_update_node
    | simp add: new_node_row_def assign_node_def)+

lemma delete_inbound_result:
  "\<exists>d'. delete_inbound k now d = Inr (count_rows (\<lambda>r. ib_ID r = k) (db_inbounds d), d')
     \<and> db_inbounds d' = delete_rows (\<lambda>r. ib_ID r = k) (db_inbounds d)"
  by (simp add: delete_inbound_def Let_def)

interpretation inbounds: updatable_repository ib_ID db_inbounds new_inbound_row insert_inbound
  delete_inbound update_inbound assign_inbound
proof unfold_locales
  fix r now d u d' assume ins: "insert_inbound r now d = Inr (u, d')"
  show "db_inbounds d' = db_inbounds d @ [new_inbound_row now r]"
    and "ib_ID r \<notin> ib_ID ` set (db_inbounds d)"
    using ins by (auto simp: insert_inbound_def split: if_splits)
next
  fix r now d n d' assume upd: "update_inbound r now d = Inr (n, d')"
  show "db_inbounds d' = update_rows (\<lambda>r'. ib_ID r' = ib_ID r) (assign_inbound now r) (db_inbounds d)"
    and "n = count_rows (\<lambda>r'. ib_ID r' = ib_ID r) (db_inbounds d)"
    using upd by (auto simp: update_inbound_def split: if_splits)
qed (rule delete_inbound_result wf_db_distinct
    | erule (1) wf_insert_inbound wf_delete_inbound wf_update_inbound
    | simp add: new_inbound_row_def assign_inbound_def)+

lemma delete_plan_result:
  "\<exists>d'. delete_plan k now d = Inr (count_rows (\<lambda>r. p_ID r = k) (db_plans d), d')
     \<and> db_plans d' = delete_rows (\<lambda>r. p_ID r = k) (db_plans d)"
  by (simp add: delete_plan_def Let_def)

interpretation plans: updatable_repository p_ID db_plans new_plan_row insert_plan delete_plan
  update_plan assign_plan
proof unfold_locales
  fix r now d u d' assume ins: "insert_plan r now d = Inr (u, d')"
  show "db_plans d' = db_plans d @ [new_plan_row now r]" and "p_ID r \<notin> p_ID ` set (db_plans d)"
    using ins by (auto simp: insert_plan_def split: if_splits)
next
  fix r now d n d' assume upd: "update_plan r now d = Inr (n, d')"
  show "db_plans d' = update_rows (\<lambda>r'. p_ID r' = p_ID r) (assign_plan now r) (db_plans d)"
    and "n = count_rows (\<lambda>r'. p_ID r' = p_ID r) (db_plans d)"
    using upd by (auto simp: update_plan_def split: if_splits)
qed (rule delete_plan_result wf_db_distinct | erule (1) wf_insert_plan wf_delete_plan wf_update_plan
    | simp add: new_plan_row_def assign_plan_def)+

lemma find_node_eq: "find_node = nodes.lookup"
  by (simp add: find_node_def nodes.lookup_def fun_eq_iff)

lemma find_inbound_eq: "find_inbound = inbounds.lookup"
  by (simp add: find_inbound_def inbounds.lookup_def fun_eq_iff)

lemma find_plan_eq: "find_plan = plans.lookup"
  by (simp add: find_plan_def plans.lookup_def fun_eq_iff)

section \<open>The methods of the store keep the schema's constraints\<close>

named_theorems wf_stmt \<open>statements that keep the constraints\<close>

declare wf_insert_node [wf_stmt] wf_update_node [wf_stmt] wf_set_node_health [wf_stmt]
  wf_delete_node [wf_stmt] wf_insert_inbound [wf_stmt] wf_update_inbound [wf_stmt]
  wf_delete_inbound [wf_stmt] wf_insert_plan [wf_stmt] wf_update_plan [wf_stmt]
  wf_delete_plan [wf_stmt] wf_insert_api_key [wf_stmt] wf_touch_api_key [wf_stmt]
  wf_revoke_api_key [wf_stmt] wf_insert_webhook_event [wf_stmt]

named_theorems store_defs \<open>the methods of the store\<close>

declare CreateNode_def [store_defs] UpdateNode_def [store_defs] GetNode_def [store_defs]
  ListNodes_def [store_defs] SetNodeHealth_def [store_defs] DeleteNode_def [store_defs]
  CreateInbound_def [store_defs] GetInbound_def [store_defs] queryInbounds_def [store_defs]
  ListInboundsByNode_def [store_defs] ListInboundsByIDs_def [store_defs]
  ListInboundsForUser_def [store_defs] UpdateInbound_def [store_defs] DeleteInbound_def [store_defs]
  CreatePlan_def [store_defs] GetPlan_def [store_defs] ListPlans_def [store_defs]
  UpdatePlan_def [store_defs] DeletePlan_def [store_defs] CreateAPIKey_def [store_defs]
  FindAPIKeyByHash_def [store_defs] ListAPIKeys_def [store_defs] RevokeAPIKey_def [store_defs]
  CountAPIKeys_def [store_defs] RecordWebhookEvent_def [store_defs]

lemma preserves_reads [pres]:
  "preserves I (GetNode i)" "preserves I ListNodes" "preserves I (GetInbound i)"
  "preserves I (ListInboundsByNode i)" "preserves I (ListInboundsByIDs is)"
  "preserves I (ListInboundsForUser i)" "preserves I (GetPlan i)" "preserves I ListPlans"
  "preserves I ListAPIKeys" "preserves I CountAPIKeys"
  unfolding store_defs by (intro pres)+

lemma preserves_catalog [pres]:
  "preserves wf_db (CreateNode n)" "preserves wf_db (UpdateNode n)"
  "preserves wf_db (SetNodeHealth i st e s)" "preserves wf_db (DeleteNode i)"
  "preserves wf_db (CreateInbound ib)" "preserves wf_db (UpdateInbound ib)"
  "preserves wf_db (DeleteInbound i)" "preserves wf_db (CreatePlan p)"
  "preserves wf_db (UpdatePlan p)" "preserves wf_db (DeletePlan i)"
  "preserves wf_db (CreateAPIKey k)" "preserves wf_db (FindAPIKeyByHash h)"
  "preserves wf_db (RevokeAPIKey i)" "preserves wf_db (RecordWebhookEvent i a)"
  unfolding store_defs by (intro pres; erule (1) wf_stmt)+

end
