(* ===== verification/Transactions.thy ===== *)
theory Transactions
  imports Schema
begin

text \<open>
  Refinement of transactions. A transaction body of the program is a sequence of calls
  that may fail one by one; its specification is a single statement on databases.
  \<open>refines m q\<close> says that the body \<open>m\<close> does what the statement \<open>q\<close> says. The rules for
  sequencing, iteration and error mapping derive it from the body's text, and
  \<open>WithTx\<close> then turns it into a statement about the committed database that holds under
  every schedule of faults and interference.
\<close>

section \<open>Statements and their composition\<close>

type_synonym 'a stmt = "time \<Rightarrow> db \<Rightarrow> error + 'a \<times> db"

definition ret_stmt :: "'a \<Rightarrow> 'a stmt" where
  "ret_stmt a now d = Inr (a, d)"

definition raise_stmt :: "error \<Rightarrow> 'a stmt" where
  "raise_stmt e now d = Inl e"

definition seq_stmt :: "'a stmt \<Rightarrow> ('a \<Rightarrow> 'b stmt) \<Rightarrow> 'b stmt" where
  "seq_stmt q r now d = (case q now d of Inl e \<Rightarrow> Inl e | Inr (a, d') \<Rightarrow> r a now d')"

definition err_stmt :: "(error \<Rightarrow> error) \<Rightarrow> 'a stmt \<Rightarrow> 'a stmt" where
  "err_stmt g q now d = (case q now d of Inl e \<Rightarrow> Inl (g e) | Inr z \<Rightarrow> Inr z)"

fun for_stmt :: "'b list \<Rightarrow> ('b \<Rightarrow> unit stmt) \<Rightarrow> unit stmt" where
  "for_stmt [] f = ret_stmt ()"
| "for_stmt (b # bs) f = seq_stmt (f b) (\<lambda>_. for_stmt bs f)"

lemma seq_stmt_Inr:
  "seq_stmt q r now d = Inr z \<longleftrightarrow> (\<exists>a d'. q now d = Inr (a, d') \<and> r a now d' = Inr z)"
  by (auto simp: seq_stmt_def split: sum.splits)

lemma err_stmt_Inr [simp]: "err_stmt g q now d = Inr z \<longleftrightarrow> q now d = Inr z"
  by (auto simp: err_stmt_def split: sum.splits)

lemma ret_stmt_Inr [simp]: "ret_stmt a now d = Inr z \<longleftrightarrow> z = (a, d)"
  by (auto simp: ret_stmt_def)

text \<open>What each pass of a loop keeps, the loop keeps.\<close>

lemma for_stmt_induct:
  assumes "for_stmt bs f now d = Inr (u, d')" and "P [] d"
    and "\<And>done b d1 d2. P done d1 \<Longrightarrow> b \<in> set bs \<Longrightarrow> f b now d1 = Inr ((), d2) \<Longrightarrow> P (done @ [b]) d2"
  shows "P bs d'"
proof -
  have "P (done @ bs) d'"
    if "for_stmt bs f now d = Inr (u, d')" "P done d"
      "\<And>done b d1 d2. P done d1 \<Longrightarrow> b \<in> set bs \<Longrightarrow> f b now d1 = Inr ((), d2) \<Longrightarrow> P (done @ [b]) d2"
    for "done"
    using that
  proof (induction bs arbitrary: "done" d)
    case Nil
    then show ?case by simp
  next
    case (Cons b bs)
    from Cons.prems(1) obtain d1 where "f b now d = Inr ((), d1)" and rest: "for_stmt bs f now d1 = Inr (u, d')"
      by (auto simp: seq_stmt_Inr)
    with Cons.prems(2,3) have "P (done @ [b]) d1" by simp
    from Cons.IH [OF rest this Cons.prems(3)] show ?case by simp
  qed
  from this [of "[]"] assms show ?thesis by simp
qed

section \<open>Refinement of a transaction body\<close>

text \<open>
  A successful run had the effect of the statement; in an undisturbed run the statement
  decides the result. The clock stands still inside a transaction (\<open>now()\<close> is its start).
\<close>

definition refines :: "('x, 'a) io \<Rightarrow> 'a stmt \<Rightarrow> bool" where
  "refines m q \<longleftrightarrow>
     (\<forall>w a w'. m w = (Inr a, w') \<longrightarrow> q (w_now w) (w_db w) = Inr (a, w_db w') \<and> w_now w' = w_now w) \<and>
     (\<forall>w. w_sched w = [] \<longrightarrow> (case q (w_now w) (w_db w) of
         Inl e \<Rightarrow> (\<exists>d. m w = (Inl e, w\<lparr>w_db := d\<rparr>))
       | Inr (a, d) \<Rightarrow> m w = (Inr a, w\<lparr>w_db := d\<rparr>)))"

named_theorems ref \<open>rules for the refinement of transaction bodies\<close>

lemma refines_ret [ref]: "refines (ret a) (ret_stmt a)"
  by (auto simp: refines_def ret_def ret_stmt_def)

lemma world_db_some: "\<exists>d. w = w\<lparr>w_db := d\<rparr>"
  by (rule exI [of _ "w_db w"]) simp

lemma refines_raise [ref]: "refines (raise e) (raise_stmt e)"
  by (simp add: refines_def raise_def raise_stmt_def world_db_some)

lemma refines_tx_exec [ref]: "refines (tx_exec q) q"
  by (auto simp: refines_def tx_exec_def next_tx_call_def run_stmt_def world_db_some
      split: list.splits option.splits sum.splits)

lemma refinesD:
  assumes "refines m q" and "m w = (Inr a, w')"
  shows "q (w_now w) (w_db w) = Inr (a, w_db w')" and "w_now w' = w_now w"
  using assms unfolding refines_def by blast+

lemma refines_quiet:
  assumes "refines m q" and "w_sched w = []"
  shows "q (w_now w) (w_db w) = Inr (a, d) \<Longrightarrow> m w = (Inr a, w\<lparr>w_db := d\<rparr>)"
    and "q (w_now w) (w_db w) = Inl e \<Longrightarrow> \<exists>d. m w = (Inl e, w\<lparr>w_db := d\<rparr>)"
  using assms(1) [unfolded refines_def, THEN conjunct2, rule_format, OF assms(2)] by auto

lemma refinesI:
  fixes m :: "('x, 'a) io"
  assumes "\<And>w a w'. m w = (Inr a, w') \<Longrightarrow> q (w_now w) (w_db w) = Inr (a, w_db w') \<and> w_now w' = w_now w"
    and "\<And>w a d. w_sched w = [] \<Longrightarrow> q (w_now w) (w_db w) = Inr (a, d) \<Longrightarrow> m w = (Inr a, w\<lparr>w_db := d\<rparr>)"
    and "\<And>w e. w_sched w = [] \<Longrightarrow> q (w_now w) (w_db w) = Inl e \<Longrightarrow> \<exists>d. m w = (Inl e, w\<lparr>w_db := d\<rparr>)"
  shows "refines m q"
  unfolding refines_def
proof (intro conjI allI impI)
  fix w a w' assume "m w = (Inr a, w')"
  then show "q (w_now w) (w_db w) = Inr (a, w_db w')" and "w_now w' = w_now w"
    by (rule assms(1) [THEN conjunct1], rule assms(1) [THEN conjunct2])
next
  fix w :: "'x world" assume quiet: "w_sched w = []"
  show "case q (w_now w) (w_db w) of Inl e \<Rightarrow> \<exists>d. m w = (Inl e, w\<lparr>w_db := d\<rparr>)
    | Inr (a, d) \<Rightarrow> m w = (Inr a, w\<lparr>w_db := d\<rparr>)"
    using assms(2) [OF quiet] assms(3) [OF quiet] by (simp split: sum.splits prod.splits)
qed

lemma refines_bindE [ref]:
  fixes m :: "('x, 'a) io"
  assumes m: "refines m q" and f: "\<And>a. refines (f a) (r a)"
  shows "refines (bindE m f) (seq_stmt q r)"
proof (rule refinesI)
  fix w b w' assume "bindE m f w = (Inr b, w')"
  then obtain a w1 where w1: "m w = (Inr a, w1)" and w': "f a w1 = (Inr b, w')"
    by (auto simp: bindE_def split: prod.splits sum.splits)
  show "seq_stmt q r (w_now w) (w_db w) = Inr (b, w_db w') \<and> w_now w' = w_now w"
    using refinesD [OF m w1] refinesD [OF f w'] by (simp add: seq_stmt_def)
next
  fix w :: "'x world" and b d
  assume quiet: "w_sched w = []" and "seq_stmt q r (w_now w) (w_db w) = Inr (b, d)"
  then obtain a d1 where q: "q (w_now w) (w_db w) = Inr (a, d1)" and r: "r a (w_now w) d1 = Inr (b, d)"
    by (auto simp: seq_stmt_Inr)
  show "bindE m f w = (Inr b, w\<lparr>w_db := d\<rparr>)"
    using refines_quiet(1) [OF m quiet q] refines_quiet(1) [OF f, of "w\<lparr>w_db := d1\<rparr>" a b d] quiet r
    by (simp add: bindE_def)
next
  fix w :: "'x world" and e
  assume quiet: "w_sched w = []" and err: "seq_stmt q r (w_now w) (w_db w) = Inl e"
  show "\<exists>d. bindE m f w = (Inl e, w\<lparr>w_db := d\<rparr>)"
  proof (cases "q (w_now w) (w_db w)")
    case (Inl e')
    with err refines_quiet(2) [OF m quiet Inl] show ?thesis by (auto simp: seq_stmt_def bindE_def)
  next
    case (Inr z)
    then obtain a d1 where q: "q (w_now w) (w_db w) = Inr (a, d1)" by (cases z) auto
    with err have "r a (w_now w) d1 = Inl e" by (simp add: seq_stmt_def)
    with refines_quiet(1) [OF m quiet q] refines_quiet(2) [OF f, of "w\<lparr>w_db := d1\<rparr>" a e] quiet
    show ?thesis by (auto simp: bindE_def)
  qed
qed

lemma onErr_done: "onErr g m w = (Inr a, w') \<longleftrightarrow> m w = (Inr a, w')"
  by (auto simp: onErr_def split: prod.splits sum.splits)

lemma refines_onErr [ref]:
  fixes m :: "('x, 'a) io"
  assumes "refines m q" shows "refines (onErr g m) (err_stmt g q)"
proof (rule refinesI)
  fix w :: "'x world" and e
  assume quiet: "w_sched w = []" and "err_stmt g q (w_now w) (w_db w) = Inl e"
  then obtain e' where "q (w_now w) (w_db w) = Inl e'" "e = g e'"
    by (auto simp: err_stmt_def split: sum.splits)
  with refines_quiet(2) [OF assms quiet] show "\<exists>d. onErr g m w = (Inl e, w\<lparr>w_db := d\<rparr>)"
    by (auto simp: onErr_def)
next
  fix w a w' assume "onErr g m w = (Inr a, w')"
  with refinesD [OF assms, of w a w']
  show "err_stmt g q (w_now w) (w_db w) = Inr (a, w_db w') \<and> w_now w' = w_now w"
    by (simp add: onErr_done)
next
  fix w :: "'x world" and a d
  assume "w_sched w = []" and "err_stmt g q (w_now w) (w_db w) = Inr (a, d)"
  with refines_quiet(1) [OF assms, of w a d] show "onErr g m w = (Inr a, w\<lparr>w_db := d\<rparr>)"
    by (simp add: onErr_done)
qed

lemma refines_if [ref]:
  "refines m q \<Longrightarrow> refines n r \<Longrightarrow> refines (if b then m else n) (if b then q else r)"
  by simp

lemma refines_forEach [ref]: "(\<And>b. refines (f b) (g b)) \<Longrightarrow> refines (forEach bs f) (for_stmt bs g)"
  by (induction bs) (auto intro: ref)

section \<open>Committed and rolled back transactions\<close>

text \<open>
  The database a call finds when its turn comes: what the other goroutines left.
\<close>

definition db_at_call :: "'x world \<Rightarrow> db" where
  "db_at_call w = (case w_sched w of [] \<Rightarrow> w_db w | (f, g) # s \<Rightarrow> g (w_db w))"

lemma next_call_db: "next_call w = (f, w') \<Longrightarrow> w_db w' = db_at_call w \<and> w_now w' = w_now w"
  by (auto simp: next_call_def db_at_call_def split: list.splits)

lemma next_tx_call_db: "next_tx_call w = (f, w') \<Longrightarrow> w_db w' = w_db w \<and> w_now w' = w_now w"
  by (auto simp: next_tx_call_def split: list.splits)

lemma db_at_call_quiet [simp]: "w_sched w = [] \<Longrightarrow> db_at_call w = w_db w"
  by (simp add: db_at_call_def)

lemma db_at_call_holds: "holdsW I w \<Longrightarrow> I (db_at_call w)"
  by (auto simp: holdsW_def rely_def db_at_call_def split: list.splits)

lemma WithTx_failed: "WithTx fn w = (Inl e, w') \<Longrightarrow> w_db w' = db_at_call w"
  by (auto simp: WithTx_def dest: next_call_db split: prod.splits option.splits sum.splits)

lemma WithTx_committed:
  assumes "refines fn q" and "WithTx fn w = (Inr a, w')"
  shows "q (w_now w) (db_at_call w) = Inr (a, w_db w')" and "w_now w' = w_now w"
proof -
  obtain w0 w1 where "next_call w = (None, w0)" "fn w0 = (Inr a, w1)" "next_tx_call w1 = (None, w')"
    using assms(2) by (auto simp: WithTx_def split: prod.splits option.splits sum.splits)
  then have "w_db w0 = db_at_call w \<and> w_now w0 = w_now w" "w_db w' = w_db w1 \<and> w_now w' = w_now w1"
    and "q (w_now w0) (w_db w0) = Inr (a, w_db w1)" "w_now w1 = w_now w0"
    using next_call_db next_tx_call_db refinesD [OF assms(1)] by blast+
  then show "q (w_now w) (db_at_call w) = Inr (a, w_db w')" and "w_now w' = w_now w" by simp_all
qed

lemma WithTx_quiet:
  assumes "refines fn q" and "w_sched w = []"
  shows "WithTx fn w = (case q (w_now w) (w_db w) of
      Inl e \<Rightarrow> (Inl (mapErr e), w) | Inr (a, d) \<Rightarrow> (Inr a, w\<lparr>w_db := d\<rparr>))"
proof (cases "q (w_now w) (w_db w)")
  case (Inl e)
  with refines_quiet(2) [OF assms Inl] assms(2) show ?thesis
    by (auto simp: WithTx_def next_call_def)
next
  case (Inr z)
  then obtain a d where "q (w_now w) (w_db w) = Inr (a, d)" by (cases z) auto
  with refines_quiet(1) [OF assms this] assms(2) show ?thesis
    by (simp add: WithTx_def next_call_def next_tx_call_def)
qed

text \<open>Single statements outside a transaction.\<close>

lemma db_exec_quiet:
  "w_sched w = [] \<Longrightarrow> db_exec q w = (case q (w_now w) (w_db w) of
      Inl e \<Rightarrow> (Inl e, w) | Inr (a, d) \<Rightarrow> (Inr a, w\<lparr>w_db := d\<rparr>))"
  by (simp add: db_exec_def next_call_def run_stmt_def)

lemma db_exec_done:
  "db_exec q w = (Inr a, w') \<Longrightarrow> q (w_now w) (db_at_call w) = Inr (a, w_db w') \<and> w_now w' = w_now w"
  by (auto simp: db_exec_def next_call_def run_stmt_def db_at_call_def
      split: list.splits option.splits sum.splits)

lemma db_exec_failed: "db_exec q w = (Inl e, w') \<Longrightarrow> w_db w' = db_at_call w"
  by (auto simp: db_exec_def next_call_def run_stmt_def db_at_call_def
      split: list.splits option.splits sum.splits)

lemma db_query_quiet:
  "w_sched w = [] \<Longrightarrow> db_query q w = (q (w_db w), w)"
  by (simp add: db_query_def db_exec_quiet split: sum.splits)

lemma db_query_done: "db_query q w = (Inr a, w') \<Longrightarrow> q (db_at_call w) = Inr a \<and> w_db w' = db_at_call w"
  by (auto simp: db_query_def dest!: db_exec_done split: sum.splits)

lemma requireRow_done:
  "requireRow m w = (Inr u, w') \<longleftrightarrow> (\<exists>n. n \<noteq> 0 \<and> m w = (Inr n, w'))"
  by (auto simp: requireRow_def bindE_def onErr_def ret_def raise_def
      split: prod.splits sum.splits if_splits)

lemma onErr_quiet:
  "m w = (Inl e, w') \<Longrightarrow> onErr g m w = (Inl (g e), w')"
  "m w = (Inr a, w') \<Longrightarrow> onErr g m w = (Inr a, w')"
  by (simp_all add: onErr_def)

lemma bindE_quiet:
  "m w = (Inl e, w') \<Longrightarrow> bindE m f w = (Inl e, w')"
  "m w = (Inr a, w') \<Longrightarrow> bindE m f w = f a w'"
  by (simp_all add: bindE_def)

end
