(* ===== verification/Store_Users.thy ===== *)
theory Store_Users
  imports Store_Catalog Transactions
begin

text \<open>
  \<open>internal/store/users.go\<close> and \<open>internal/store/traffic.go\<close>: the users table, traffic
  accounting with quota suspension, and the expiry sweep.

  The two statements that take users out of service (over quota, expired) have the same
  shape, an \<open>UPDATE\<close> of the active users that are due which returns their identifiers;
  what such statements do is in \<open>Accounting\<close>.
\<close>

section \<open>Users\<close>

definition new_user_row :: "time \<Rightarrow> user \<Rightarrow> user" where
  "new_user_row now u = u\<lparr>u_UsedUploadBytes := 0, u_UsedDownloadBytes := 0,
     u_CreatedAt := now, u_UpdatedAt := now\<rparr>"

definition bad_plan :: "string option \<Rightarrow> db \<Rightarrow> bool" where
  "bad_plan p d \<longleftrightarrow> (case p of None \<Rightarrow> False | Some i \<Rightarrow> i \<notin> plan_ids d)"

definition ext_taken :: "string option \<Rightarrow> user list \<Rightarrow> bool" where
  "ext_taken x us \<longleftrightarrow> x \<noteq> None \<and> x \<in> u_ExternalID ` set us"

definition insert_user :: "user \<Rightarrow> time \<Rightarrow> db \<Rightarrow> error + unit \<times> db" where
  "insert_user u now d = (case unique_err
      [(u_ID u \<in> u_ID ` set (db_users d), ''users_pkey''),
       (u_Email u \<in> u_Email ` set (db_users d), ''users_email_key''),
       (u_UUID u \<in> u_UUID ` set (db_users d), ''users_uuid_key''),
       (u_TrojanPassword u \<in> u_TrojanPassword ` set (db_users d), ''users_trojan_password_key''),
       (u_SubToken u \<in> u_SubToken ` set (db_users d), ''users_sub_token_key''),
       (ext_taken (u_ExternalID u) (db_users d), ''users_external_id_key'')] of
      Some e \<Rightarrow> Inl e
    | None \<Rightarrow> (case fk_err [(bad_plan (u_PlanID u) d, ''users_plan_id_fkey'')] of
          Some e \<Rightarrow> Inl e
        | None \<Rightarrow> Inr ((), d\<lparr>db_users := db_users d @ [new_user_row now u]\<rparr>)))"

definition CreateUserTx :: "user \<Rightarrow> ('x, unit) io" where
  "CreateUserTx u = onErr mapErr (tx_exec (insert_user u))"

definition find_user :: "string \<Rightarrow> db \<Rightarrow> user option" where
  "find_user uid d = find (\<lambda>u. u_ID u = uid) (db_users d)"

text \<open>\<open>scanUser\<close>: the row, or \<open>ErrNotFound\<close> when the query has none.\<close>

definition scanUser :: "(db \<Rightarrow> user option) \<Rightarrow> ('x, user) io" where
  "scanUser q = onErr mapErr (db_query (\<lambda>d. case q d of None \<Rightarrow> Inl SqlErrNoRows | Some u \<Rightarrow> Inr u))"

definition GetUser :: "string \<Rightarrow> ('x, user) io" where
  "GetUser uid = scanUser (find_user uid)"

definition GetUserBySubToken :: "string \<Rightarrow> ('x, user) io" where
  "GetUserBySubToken token = scanUser (\<lambda>d. find (\<lambda>u. u_SubToken u = token) (db_users d))"

definition GetUserByExternalID :: "string \<Rightarrow> ('x, user) io" where
  "GetUserByExternalID x = scanUser (\<lambda>d. find (\<lambda>u. u_ExternalID u = Some x) (db_users d))"

definition GetUserByEmail :: "string \<Rightarrow> ('x, user) io" where
  "GetUserByEmail email = scanUser (\<lambda>d. find (\<lambda>u. u_Email u = email) (db_users d))"

definition assign_user :: "time \<Rightarrow> user \<Rightarrow> user \<Rightarrow> user" where
  "assign_user now u r = r\<lparr>u_PlanID := u_PlanID u, u_Status := u_Status u,
     u_DataLimitBytes := u_DataLimitBytes u, u_ExpiresAt := u_ExpiresAt u, u_Note := u_Note u,
     u_SubToken := u_SubToken u, u_ExternalID := u_ExternalID u, u_UpdatedAt := now\<rparr>"

definition update_user :: "user \<Rightarrow> time \<Rightarrow> db \<Rightarrow> error + nat \<times> db" where
  "update_user u now d =
     (let others = filter (\<lambda>r. u_ID r \<noteq> u_ID u) (db_users d);
          hit = (u_ID u \<in> u_ID ` set (db_users d)) in
      case unique_err
      [(hit \<and> u_SubToken u \<in> u_SubToken ` set others, ''users_sub_token_key''),
       (hit \<and> ext_taken (u_ExternalID u) others, ''users_external_id_key'')] of
      Some e \<Rightarrow> Inl e
    | None \<Rightarrow> (case fk_err [(hit \<and> bad_plan (u_PlanID u) d, ''users_plan_id_fkey'')] of
          Some e \<Rightarrow> Inl e
        | None \<Rightarrow> Inr (count_rows (\<lambda>r. u_ID r = u_ID u) (db_users d),
            d\<lparr>db_users := update_rows (\<lambda>r. u_ID r = u_ID u) (assign_user now u) (db_users d)\<rparr>)))"

definition UpdateUser :: "user \<Rightarrow> ('x, unit) io" where
  "UpdateUser u = requireRow (db_exec (update_user u))"

text \<open>An \<open>UPDATE\<close> of one user that writes no constrained column.\<close>

definition touch_user :: "string \<Rightarrow> (time \<Rightarrow> user \<Rightarrow> user) \<Rightarrow> time \<Rightarrow> db \<Rightarrow> error + nat \<times> db" where
  "touch_user uid f now d = Inr (count_rows (\<lambda>r. u_ID r = uid) (db_users d),
     d\<lparr>db_users := update_rows (\<lambda>r. u_ID r = uid) (f now) (db_users d)\<rparr>)"

definition SetUserStatus :: "string \<Rightarrow> string \<Rightarrow> ('x, unit) io" where
  "SetUserStatus uid status = requireRow (db_exec (touch_user uid
     (\<lambda>now u. u\<lparr>u_Status := status, u_UpdatedAt := now\<rparr>)))"

definition ResetTrafficRow :: "string \<Rightarrow> ('x, unit) io" where
  "ResetTrafficRow uid = requireRow (db_exec (touch_user uid
     (\<lambda>now u. u\<lparr>u_UsedUploadBytes := 0, u_UsedDownloadBytes := 0, u_UpdatedAt := now\<rparr>)))"

definition delete_user :: "string \<Rightarrow> time \<Rightarrow> db \<Rightarrow> error + nat \<times> db" where
  "delete_user uid now d = Inr (count_rows (\<lambda>r. u_ID r = uid) (db_users d),
     d\<lparr>db_users := delete_rows (\<lambda>r. u_ID r = uid) (db_users d),
       db_user_inbounds := delete_rows (\<lambda>r. ui_UserID r = uid) (db_user_inbounds d),
       db_snapshots := delete_rows (\<lambda>s. ts_UserID s = uid) (db_snapshots d)\<rparr>)"

definition DeleteUser :: "string \<Rightarrow> ('x, unit) io" where
  "DeleteUser uid = requireRow (db_exec (delete_user uid))"

text \<open>The e-mail to identifier pairs of the requested users.\<close>

definition UserIDsByEmail :: "string list \<Rightarrow> ('x, string \<Rightarrow> string option) io" where
  "UserIDsByEmail emails = (if emails = [] then ret Map.empty
     else onErr mapErr (db_query (\<lambda>d. Inr (map_of
        (map (\<lambda>u. (u_Email u, u_ID u)) (filter (\<lambda>u. u_Email u \<in> set emails) (db_users d)))))))"

section \<open>Sweeps\<close>

definition active_due :: "(user \<Rightarrow> bool) \<Rightarrow> user \<Rightarrow> bool" where
  "active_due due u \<longleftrightarrow> u_Status u = UserStatusActive \<and> due u"

definition flip_status :: "string \<Rightarrow> (user \<Rightarrow> bool) \<Rightarrow> time \<Rightarrow> db \<Rightarrow> string list \<times> db" where
  "flip_status target due now d =
     (map u_ID (filter (active_due due) (db_users d)),
      d\<lparr>db_users := update_rows (active_due due)
          (\<lambda>u. u\<lparr>u_Status := target, u_UpdatedAt := now\<rparr>) (db_users d)\<rparr>)"

definition expired_by :: "time \<Rightarrow> user \<Rightarrow> bool" where
  "expired_by t u \<longleftrightarrow> (case u_ExpiresAt u of None \<Rightarrow> False | Some e \<Rightarrow> e \<le> t)"

definition expire_due_users :: "time \<Rightarrow> time \<Rightarrow> db \<Rightarrow> error + string list \<times> db" where
  "expire_due_users t now d = Inr (flip_status UserStatusExpired (expired_by t) now d)"

definition ExpireDueUsers :: "time \<Rightarrow> ('x, string list) io" where
  "ExpireDueUsers t = onErr mapErr (db_exec (expire_due_users t))"

definition used_sum :: "user \<Rightarrow> int" where
  "used_sum u = sint (u_UsedUploadBytes u) + sint (u_UsedDownloadBytes u)"

text \<open>
  \<open>used_upload_bytes + used_download_bytes >= data_limit_bytes\<close> with the database's
  arithmetic: a sum outside the \<open>BIGINT\<close> range fails the statement.
\<close>

definition sql_over_quota :: "user \<Rightarrow> bool" where
  "sql_over_quota u \<longleftrightarrow> (case u_DataLimitBytes u of None \<Rightarrow> False | Some lim \<Rightarrow> sint lim \<le> used_sum u)"

definition suspend_over_quota :: "time \<Rightarrow> db \<Rightarrow> error + string list \<times> db" where
  "suspend_over_quota now d =
     (if \<exists>u \<in> set (db_users d). u_Status u = UserStatusActive \<and> u_DataLimitBytes u \<noteq> None
           \<and> \<not> int64_range (used_sum u)
      then Inl (PgError ''22003'' [])
      else Inr (flip_status UserStatusSuspended sql_over_quota now d))"

section \<open>Traffic\<close>

record traffic_delta =
  td_UserID :: string
  td_Uplink :: int64
  td_Downlink :: int64

definition insert_snapshot :: "string \<Rightarrow> traffic_delta \<Rightarrow> time \<Rightarrow> time \<Rightarrow> db \<Rightarrow> error + unit \<times> db" where
  "insert_snapshot nodeID t at now d = (case fk_err
      [(td_UserID t \<notin> user_ids d, ''traffic_snapshots_user_id_fkey''),
       (nodeID \<notin> node_ids d, ''traffic_snapshots_node_id_fkey'')] of
      Some e \<Rightarrow> Inl e
    | None \<Rightarrow> Inr ((), d\<lparr>db_snapshots := db_snapshots d @
         [\<lparr>ts_ID = db_snapshot_seq d, ts_UserID = td_UserID t, ts_NodeID = nodeID,
           ts_UplinkBytes = td_Uplink t, ts_DownlinkBytes = td_Downlink t, ts_CollectedAt = at\<rparr>],
         db_snapshot_seq := Suc (db_snapshot_seq d)\<rparr>))"

definition add_traffic :: "traffic_delta \<Rightarrow> time \<Rightarrow> db \<Rightarrow> error + nat \<times> db" where
  "add_traffic t now d =
     (if \<exists>u \<in> set (db_users d). u_ID u = td_UserID t
           \<and> (bigint_add (u_UsedUploadBytes u) (td_Uplink t) = None
              \<or> bigint_add (u_UsedDownloadBytes u) (td_Downlink t) = None)
      then Inl (PgError ''22003'' [])
      else touch_user (td_UserID t) (\<lambda>now u. u\<lparr>u_UsedUploadBytes := u_UsedUploadBytes u + td_Uplink t,
             u_UsedDownloadBytes := u_UsedDownloadBytes u + td_Downlink t, u_UpdatedAt := now\<rparr>) now d)"

definition ApplyTrafficDeltas :: "string \<Rightarrow> traffic_delta list \<Rightarrow> time \<Rightarrow> ('x, string list) io" where
  "ApplyTrafficDeltas nodeID deltas at = WithTx (
     bindE (forEach deltas (\<lambda>t.
        if td_Uplink t = 0 \<and> td_Downlink t = 0 then ret ()
        else bindE (tx_exec (insert_snapshot nodeID t at)) (\<lambda>_.
             bindE (tx_exec (add_traffic t)) (\<lambda>_. ret ())))) (\<lambda>_.
     tx_exec suspend_over_quota))"

definition prune_snapshots :: "time \<Rightarrow> time \<Rightarrow> db \<Rightarrow> error + nat \<times> db" where
  "prune_snapshots before now d = Inr (count_rows (\<lambda>s. ts_CollectedAt s < before) (db_snapshots d),
     d\<lparr>db_snapshots := delete_rows (\<lambda>s. ts_CollectedAt s < before) (db_snapshots d)\<rparr>)"

definition PruneSnapshots :: "time \<Rightarrow> ('x, nat) io" where
  "PruneSnapshots before = onErr mapErr (db_exec (prune_snapshots before))"

declare CreateUserTx_def [store_defs] scanUser_def [store_defs] GetUser_def [store_defs]
  GetUserBySubToken_def [store_defs] GetUserByExternalID_def [store_defs]
  GetUserByEmail_def [store_defs] UpdateUser_def [store_defs] SetUserStatus_def [store_defs]
  ResetTrafficRow_def [store_defs] DeleteUser_def [store_defs] UserIDsByEmail_def [store_defs]
  ExpireDueUsers_def [store_defs] ApplyTrafficDeltas_def [store_defs] PruneSnapshots_def [store_defs]

section \<open>The schema's constraints are kept\<close>

lemma wf_users_same_keys:
  assumes "wf_users d"
    and "\<And>u. u_ID (f u) = u_ID u" "\<And>u. u_Email (f u) = u_Email u" "\<And>u. u_UUID (f u) = u_UUID u"
      "\<And>u. u_TrojanPassword (f u) = u_TrojanPassword u" "\<And>u. u_SubToken (f u) = u_SubToken u"
      "\<And>u. u_ExternalID (f u) = u_ExternalID u" "\<And>u. u_PlanID (f u) = u_PlanID u"
  shows "wf_users (d\<lparr>db_users := update_rows P f (db_users d)\<rparr>)"
  using assms by (auto simp: wf_users_def map_update_rows ext_unique_update plan_ids_def set_update_rows)

lemma wf_touch_users:
  assumes "wf_db d"
    and "\<And>u. u_ID (f u) = u_ID u" "\<And>u. u_Email (f u) = u_Email u" "\<And>u. u_UUID (f u) = u_UUID u"
      "\<And>u. u_TrojanPassword (f u) = u_TrojanPassword u" "\<And>u. u_SubToken (f u) = u_SubToken u"
      "\<And>u. u_ExternalID (f u) = u_ExternalID u" "\<And>u. u_PlanID (f u) = u_PlanID u"
  shows "wf_db (d\<lparr>db_users := update_rows P f (db_users d)\<rparr>)"
  by (rule wf_db_users [OF assms(1) wf_users_same_keys [OF wf_dbD(4) [OF assms(1)]]])
    (simp_all add: assms(2-) user_ids_def image_update_rows)

lemma ext_uniqueD:
  assumes "ext_unique us" "u \<in> set us" "v \<in> set us" "u_ExternalID u = Some x" "u_ExternalID v = Some x"
  shows "u_ID u = u_ID v"
proof -
  have "u_ExternalID u \<noteq> None" "u_ExternalID u = u_ExternalID v" using assms(4,5) by simp_all
  then show ?thesis using assms(1-3) unfolding ext_unique_def by blast
qed

lemma ext_uniqueI:
  assumes "\<And>u v x. u \<in> set us \<Longrightarrow> v \<in> set us \<Longrightarrow> u_ExternalID u = Some x \<Longrightarrow> u_ExternalID v = Some x
    \<Longrightarrow> u_ID u = u_ID v"
  shows "ext_unique us"
  unfolding ext_unique_def
proof (intro ballI impI)
  fix u v
  assume uv: "u \<in> set us" "v \<in> set us" and ext: "u_ExternalID u \<noteq> None" "u_ExternalID u = u_ExternalID v"
  obtain x where x: "u_ExternalID u = Some x" using ext(1) by blast
  with ext(2) have "u_ExternalID v = Some x" by simp
  with uv x show "u_ID u = u_ID v" by (rule assms)
qed

lemma ext_taken_Some: "ext_taken (Some x) us \<longleftrightarrow> (\<exists>u \<in> set us. u_ExternalID u = Some x)"
  by (simp add: ext_taken_def image_iff eq_commute [of "Some x"])

lemma ext_unique_append:
  assumes "ext_unique us" and "\<not> ext_taken (u_ExternalID v) us"
  shows "ext_unique (us @ [v])"
proof (rule ext_uniqueI)
  fix u u' x
  assume *: "u \<in> set (us @ [v])" "u' \<in> set (us @ [v])" "u_ExternalID u = Some x" "u_ExternalID u' = Some x"
  show "u_ID u = u_ID u'"
  proof (cases "u_ExternalID v = Some x")
    case True
    then have "\<forall>r \<in> set us. u_ExternalID r \<noteq> Some x"
      using assms(2) by (simp add: ext_taken_Some)
    with * have "u = v" "u' = v" by auto
    then show ?thesis by simp
  next
    case False
    with * have "u \<in> set us" "u' \<in> set us" by auto
    with * show ?thesis using ext_uniqueD [OF assms(1)] by blast
  qed
qed

lemma ext_unique_update_one:
  assumes "ext_unique us" and "\<not> ext_taken x (filter (\<lambda>r. u_ID r \<noteq> i) us)"
    and "\<And>r. u_ID (f r) = u_ID r" "\<And>r. u_ExternalID (f r) = x"
  shows "ext_unique (update_rows (\<lambda>r. u_ID r = i) f us)"
proof (rule ext_uniqueI)
  fix u u' y
  assume *: "u \<in> set (update_rows (\<lambda>r. u_ID r = i) f us)" "u' \<in> set (update_rows (\<lambda>r. u_ID r = i) f us)"
    "u_ExternalID u = Some y" "u_ExternalID u' = Some y"
  have shape: "(u_ID v = i \<and> u_ExternalID v = x) \<or> (v \<in> set us \<and> u_ID v \<noteq> i)"
    if "v \<in> set (update_rows (\<lambda>r. u_ID r = i) f us)" for v
    using that assms(3,4) by (auto simp: set_update_rows)
  show "u_ID u = u_ID u'"
  proof (cases "x = Some y")
    case True
    then have "\<forall>r \<in> set us. u_ID r \<noteq> i \<longrightarrow> u_ExternalID r \<noteq> Some y"
      using assms(2) by (auto simp: ext_taken_Some)
    with shape [OF *(1)] shape [OF *(2)] *(3,4) show ?thesis by auto
  next
    case False
    with shape [OF *(1)] shape [OF *(2)] *(3,4) have "u \<in> set us" "u' \<in> set us" by auto
    with *(3,4) show ?thesis using ext_uniqueD [OF assms(1)] by blast
  qed
qed

lemma wf_insert_user:
  assumes "wf_db d" and ins: "insert_user u now d = Inr (x, d')"
  shows "wf_db d'"
proof -
  let ?us = "db_users d @ [new_user_row now u]"
  have d': "d' = d\<lparr>db_users := ?us\<rparr>"
    using ins by (auto simp: insert_user_def split: if_splits)
  have "ext_unique ?us"
    using wf_dbD(4) [OF assms(1)] ins
    by (intro ext_unique_append) (auto simp: insert_user_def wf_users_def new_user_row_def split: if_splits)
  then have "wf_users (d\<lparr>db_users := ?us\<rparr>)"
    using wf_dbD(4) [OF assms(1)] ins
    by (auto simp: insert_user_def wf_users_def new_user_row_def bad_plan_def plan_ids_def
        split: if_splits option.splits)
  then show ?thesis
    unfolding d' by (rule wf_db_users [OF assms(1)]) (auto simp: user_ids_def)
qed

lemma wf_update_user:
  assumes "wf_db d" and upd: "update_user u now d = Inr (n, d')"
  shows "wf_db d'"
proof -
  let ?us = "update_rows (\<lambda>r. u_ID r = u_ID u) (assign_user now u) (db_users d)"
  let ?others = "filter (\<lambda>r. u_ID r \<noteq> u_ID u) (db_users d)"
  have d': "d' = d\<lparr>db_users := ?us\<rparr>"
    using upd by (auto simp: update_user_def Let_def split: if_splits)
  note wf = wf_dbD(4) [OF assms(1), unfolded wf_users_def]
  show ?thesis
  proof (cases "u_ID u \<in> u_ID ` set (db_users d)")
    case False
    then have "?us = db_users d"
      by (force simp: update_rows_def image_iff intro!: map_idI)
    with assms(1) show ?thesis by (simp add: d')
  next
    case True
    with upd have tok: "u_SubToken u \<notin> u_SubToken ` set ?others"
      and ext: "\<not> ext_taken (u_ExternalID u) ?others" and plan: "\<not> bad_plan (u_PlanID u) d"
      by (auto simp: update_user_def Let_def simp del: set_filter split: if_splits)
    have "distinct (map u_SubToken ?us)"
      using wf tok by (intro distinct_map_update_one) (force simp: assign_user_def image_iff)+
    moreover have "ext_unique ?us"
      using wf ext by (intro ext_unique_update_one) (simp_all add: assign_user_def)
    moreover have "\<forall>v \<in> set ?us. \<forall>p. u_PlanID v = Some p \<longrightarrow> p \<in> plan_ids d"
      using wf plan by (auto simp: set_update_rows assign_user_def bad_plan_def)
    ultimately have "wf_users (d\<lparr>db_users := ?us\<rparr>)"
      using wf by (simp add: wf_users_def map_update_rows assign_user_def plan_ids_def)
    then show ?thesis
      unfolding d' by (rule wf_db_users [OF assms(1)])
        (simp add: user_ids_def image_update_rows assign_user_def)
  qed
qed

lemma wf_delete_user:
  assumes "wf_db d" and del: "delete_user uid now d = Inr (n, d')"
  shows "wf_db d'"
proof -
  have d': "d' = d\<lparr>db_users := delete_rows (\<lambda>r. u_ID r = uid) (db_users d),
       db_user_inbounds := delete_rows (\<lambda>r. ui_UserID r = uid) (db_user_inbounds d),
       db_snapshots := delete_rows (\<lambda>s. ts_UserID s = uid) (db_snapshots d)\<rparr>"
    using del by (simp add: delete_user_def)
  note wf = wf_dbD [OF assms(1)]
  have ids: "user_ids d' = user_ids d - {uid}"
    by (simp add: d' user_ids_def image_key_other)
  show ?thesis
  proof (rule wf_dbI)
    have "ext_unique (delete_rows (\<lambda>r. u_ID r = uid) (db_users d))"
      using wf(4) by (auto simp: wf_users_def intro!: ext_uniqueI dest: ext_uniqueD)
    then show "wf_users d'"
      using wf(4) by (auto simp: wf_users_def d' plan_ids_def distinct_map_delete_rows)
    show "wf_user_inbounds d'"
      using wf(5) ids by (simp add: wf_user_inbounds_def d' inbound_ids_def distinct_map_delete_rows)
    show "wf_snapshots d'"
      using wf(6) ids by (simp add: wf_snapshots_def d' node_ids_def distinct_map_delete_rows)
  qed (use wf in \<open>simp_all add: d' wf_table_defs node_ids_def plan_ids_def\<close>)
qed

lemma wf_insert_snapshot:
  assumes "wf_db d" and "insert_snapshot nodeID t at now d = Inr (u, d')"
  shows "wf_db d'"
proof -
  let ?ss = "db_snapshots d @ [\<lparr>ts_ID = db_snapshot_seq d, ts_UserID = td_UserID t, ts_NodeID = nodeID,
    ts_UplinkBytes = td_Uplink t, ts_DownlinkBytes = td_Downlink t, ts_CollectedAt = at\<rparr>]"
  let ?d = "d\<lparr>db_snapshots := ?ss, db_snapshot_seq := Suc (db_snapshot_seq d)\<rparr>"
  have d': "d' = ?d" and fk: "td_UserID t \<in> user_ids d" "nodeID \<in> node_ids d"
    using assms(2) by (auto simp: insert_snapshot_def split: if_splits)
  have "wf_snapshots ?d"
    using wf_dbD(6) [OF assms(1)] fk
    by (fastforce simp: wf_snapshots_def user_ids_def node_ids_def less_Suc_eq)
  then show ?thesis unfolding d' by (rule wf_db_snapshots [OF assms(1)])
qed

lemma wf_add_traffic: "wf_db d \<Longrightarrow> add_traffic t now d = Inr (n, d') \<Longrightarrow> wf_db d'"
  by (auto simp: add_traffic_def touch_user_def split: if_splits intro!: wf_touch_users)

lemma wf_flip_status: "wf_db d \<Longrightarrow> flip_status target due now d = (ids, d') \<Longrightarrow> wf_db d'"
  by (auto simp: flip_status_def intro!: wf_touch_users)

lemma wf_expire_due_users: "wf_db d \<Longrightarrow> expire_due_users t now d = Inr (ids, d') \<Longrightarrow> wf_db d'"
  by (auto simp: expire_due_users_def intro: wf_flip_status)

lemma wf_suspend_over_quota: "wf_db d \<Longrightarrow> suspend_over_quota now d = Inr (ids, d') \<Longrightarrow> wf_db d'"
  by (auto simp: suspend_over_quota_def split: if_splits intro: wf_flip_status)

lemma wf_prune_snapshots:
  assumes "wf_db d" and "prune_snapshots b now d = Inr (n, d')"
  shows "wf_db d'"
proof -
  let ?d = "d\<lparr>db_snapshots := delete_rows (\<lambda>s. ts_CollectedAt s < b) (db_snapshots d),
    db_snapshot_seq := db_snapshot_seq d\<rparr>"
  have "wf_snapshots ?d"
    using wf_dbD(6) [OF assms(1)]
    by (simp add: wf_snapshots_def user_ids_def node_ids_def distinct_map_delete_rows)
  then have "wf_db ?d" by (rule wf_db_snapshots [OF assms(1)])
  then show ?thesis using assms(2) by (simp add: prune_snapshots_def)
qed

declare wf_insert_user [wf_stmt] wf_update_user [wf_stmt] wf_delete_user [wf_stmt]
  wf_insert_snapshot [wf_stmt] wf_add_traffic [wf_stmt] wf_expire_due_users [wf_stmt]
  wf_suspend_over_quota [wf_stmt] wf_prune_snapshots [wf_stmt]

lemma preserves_user_reads [pres]:
  "preserves I (scanUser q)" "preserves I (GetUser uid)" "preserves I (GetUserBySubToken t)"
  "preserves I (GetUserByExternalID x)" "preserves I (GetUserByEmail e)"
  "preserves I (UserIDsByEmail es)"
  unfolding store_defs by (intro pres)+

lemma preserves_touch_user:
  assumes "\<And>now u. u_ID (f now u) = u_ID u" "\<And>now u. u_Email (f now u) = u_Email u"
    "\<And>now u. u_UUID (f now u) = u_UUID u" "\<And>now u. u_TrojanPassword (f now u) = u_TrojanPassword u"
    "\<And>now u. u_SubToken (f now u) = u_SubToken u" "\<And>now u. u_ExternalID (f now u) = u_ExternalID u"
    "\<And>now u. u_PlanID (f now u) = u_PlanID u"
  shows "preserves wf_db (db_exec (touch_user uid f))"
  by (rule pres) (use assms in \<open>auto simp: touch_user_def intro!: wf_touch_users\<close>)

lemma preserves_users [pres]:
  "preserves wf_db (CreateUserTx u)" "preserves wf_db (UpdateUser u)"
  "preserves wf_db (DeleteUser uid)" "preserves wf_db (ExpireDueUsers t)"
  "preserves wf_db (PruneSnapshots b)"
  unfolding store_defs by (intro pres; erule (1) wf_stmt)+

lemma preserves_user_fields [pres]:
  "preserves wf_db (SetUserStatus uid st)" "preserves wf_db (ResetTrafficRow uid)"
  unfolding store_defs by (intro keeps_requireRow preserves_touch_user; simp)+

lemma preserves_ApplyTrafficDeltas [pres]: "preserves wf_db (ApplyTrafficDeltas n ds at)"
  unfolding ApplyTrafficDeltas_def by (intro pres; erule (1) wf_stmt)

section \<open>The users table is a repository\<close>

lemma delete_user_result:
  "\<exists>d'. delete_user k now d = Inr (count_rows (\<lambda>r. u_ID r = k) (db_users d), d')
     \<and> db_users d' = delete_rows (\<lambda>r. u_ID r = k) (db_users d)"
  by (simp add: delete_user_def)

interpretation users: updatable_repository u_ID db_users new_user_row insert_user delete_user
  update_user assign_user
proof unfold_locales
  fix r now d u d' assume ins: "insert_user r now d = Inr (u, d')"
  show "db_users d' = db_users d @ [new_user_row now r]" and "u_ID r \<notin> u_ID ` set (db_users d)"
    using ins by (auto simp: insert_user_def split: if_splits)
next
  fix r now d n d' assume upd: "update_user r now d = Inr (n, d')"
  show "db_users d' = update_rows (\<lambda>r'. u_ID r' = u_ID r) (assign_user now r) (db_users d)"
    and "n = count_rows (\<lambda>r'. u_ID r' = u_ID r) (db_users d)"
    using upd by (auto simp: update_user_def Let_def split: if_splits)
qed (rule delete_user_result wf_db_distinct | erule (1) wf_insert_user wf_delete_user wf_update_user
    | simp add: new_user_row_def assign_user_def)+

lemma find_user_eq: "find_user = users.lookup"
  by (simp add: find_user_def users.lookup_def fun_eq_iff)

lemma find_user_in: "find_user uid d = Some u \<Longrightarrow> u \<in> set (db_users d) \<and> u_ID u = uid"
  unfolding find_user_def by (drule find_SomeD) simp

lemma find_user_wf: "wf_db d \<Longrightarrow> find_user uid d = Some u \<longleftrightarrow> u \<in> set (db_users d) \<and> u_ID u = uid"
  unfolding find_user_def by (rule find_Some_key [OF wf_db_distinct(6)])

lemma find_user_ids: "find_user uid d \<noteq> None \<longleftrightarrow> uid \<in> user_ids d"
  by (simp add: find_user_def find_None_key user_ids_def)

lemma find_touch_user:
  assumes "touch_user uid f now d = Inr (n, d')" and "\<And>u. u_ID (f now u) = u_ID u"
  shows "find_user k d' = (if k = uid then map_option (f now) (find_user k d) else find_user k d)"
proof -
  have "find_user k d' = map_option (\<lambda>u. if u_ID u = uid then f now u else u) (find_user k d)"
    using assms by (auto simp: touch_user_def find_user_def intro!: find_update_rows)
  then show ?thesis by (cases "find_user k d") (auto dest: find_user_in)
qed

end
