(* ===== verification/Samples.thy ===== *)
theory Samples
  imports Schema
begin

text \<open>
  Concrete values on which the hypotheses of the theorems are shown to be satisfiable: a
  small database with one node, two inbounds, a plan, two users and their assignments, and
  an undisturbed world around it. The remote state of a node is left open.
\<close>

definition sample_node :: node where
  "sample_node = \<lparr>n_ID = ''n1'', n_Name = ''fra'', n_APIAddress = ''10.0.0.1'', n_APIPort = 10085,
     n_APITLS = False, n_APITLSServerName = '''', n_APITLSInsecure = False, n_APICACert = '''',
     n_APIClientCert = '''', n_APIClientKey = '''', n_APIHasClientKey = False,
     n_Status = NodeStatusUnknown, n_LastSeenAt = None, n_LastError = '''',
     n_CreatedAt = 0, n_UpdatedAt = 0\<rparr>"

definition sample_inbound :: inbound where
  "sample_inbound = \<lparr>ib_ID = ''i1'', ib_NodeID = ''n1'', ib_Tag = ''vless-in'', ib_Protocol = ''vless'',
     ib_ListenPort = 443, ib_PublicHost = ''vpn.example'', ib_PublicPort = 443, ib_Network = ''tcp'',
     ib_Security = ''none'', ib_WSPath = '''', ib_HostHeader = '''', ib_GRPCServiceName = '''',
     ib_SNI = '''', ib_Fingerprint = '''', ib_RealityPublicKey = '''', ib_RealityShortID = '''',
     ib_Flow = '''', ib_Method = '''', ib_XHTTPMode = '''', ib_Remark = '''',
     ib_CreatedAt = 0, ib_UpdatedAt = 0\<rparr>"

definition sample_trojan :: inbound where
  "sample_trojan = sample_inbound\<lparr>ib_ID := ''i2'', ib_Tag := ''trojan-in'', ib_Protocol := ''trojan''\<rparr>"

definition sample_plan :: plan where
  "sample_plan = \<lparr>p_ID = ''p1'', p_Name = ''basic'', p_DataLimitBytes = Some 5000,
     p_DurationDays = Some 30, p_CreatedAt = 0, p_UpdatedAt = 0\<rparr>"

definition sample_user :: user where
  "sample_user = \<lparr>u_ID = ''u1'', u_Email = ''a@x'', u_UUID = ''uuid1'', u_TrojanPassword = ''pw1'',
     u_PlanID = Some ''p1'', u_Status = ''active'', u_DataLimitBytes = Some 1000,
     u_UsedUploadBytes = 100, u_UsedDownloadBytes = 200, u_ExpiresAt = Some 50,
     u_SubToken = ''tok1'', u_Note = '''', u_ExternalID = Some ''ext1'', u_CreatedAt = 0, u_UpdatedAt = 0\<rparr>"

definition sample_suspended :: user where
  "sample_suspended = sample_user\<lparr>u_ID := ''u2'', u_Email := ''b@x'', u_UUID := ''uuid2'',
     u_TrojanPassword := ''pw2'', u_PlanID := None, u_Status := ''suspended'', u_DataLimitBytes := None,
     u_ExpiresAt := None, u_SubToken := ''tok2'', u_ExternalID := None\<rparr>"

definition sample_db :: db where
  "sample_db = \<lparr>db_nodes = [sample_node], db_inbounds = [sample_inbound, sample_trojan],
     db_plans = [sample_plan], db_users = [sample_user, sample_suspended],
     db_user_inbounds =
       [\<lparr>ui_UserID = ''u1'', ui_InboundID = ''i1'', ui_SyncStatus = SyncPending,
         ui_LastSyncedAt = None, ui_LastError = ''''\<rparr>,
        \<lparr>ui_UserID = ''u2'', ui_InboundID = ''i2'', ui_SyncStatus = SyncApplied,
         ui_LastSyncedAt = None, ui_LastError = ''''\<rparr>],
     db_snapshots = [], db_snapshot_seq = 1, db_api_keys = [], db_webhook_events = []\<rparr>"

definition sample_actor :: actor where
  "sample_actor = \<lparr>a_node = sample_node, a_reconcileCh = False, a_stopCh = False, a_client = None,
     a_failCount = 0, a_online = False, a_lastUptime = 0, a_pendingDeltas = [], a_running = True\<rparr>"

definition sample_world :: "(string \<Rightarrow> 'x) \<Rightarrow> 'x world" where
  "sample_world rem = \<lparr>w_db = sample_db, w_now = 100, w_ticks = [], w_sched = [],
     w_uuids = (\<lambda>k. ''id'' @ replicate k (CHR ''x'')), w_uuid_pos = 0,
     w_rand = (\<lambda>k. of_nat k), w_rand_pos = 0,
     w_actors = [''n1'' \<mapsto> 0], w_heap = (\<lambda>_. sample_actor), w_next = 1, w_remote = rem\<rparr>"

text \<open>A world in which another goroutine interferes and the second call fails.\<close>

definition faulty_world :: "(string \<Rightarrow> 'x) \<Rightarrow> 'x world" where
  "faulty_world rem = (sample_world rem)\<lparr>w_sched := [(None, \<lambda>d. d\<lparr>db_webhook_events := []\<rparr>), (Some ''conn reset'', \<lambda>d. d)]\<rparr>"

lemma wf_sample_db: "wf_db sample_db"
  by code_simp

lemma sample_world_simps [simp]:
  "w_db (sample_world rem) = sample_db" "w_now (sample_world rem) = 100"
  "w_sched (sample_world rem) = []" "w_ticks (sample_world rem) = []"
  by (simp_all add: sample_world_def)

lemma holds_sample_world [simp]: "holdsW wf_db (sample_world rem)"
  by (simp add: holdsW_def rely_def wf_sample_db)

lemma holds_faulty_world [simp]: "holdsW wf_db (faulty_world rem)"
proof -
  have "wf_db (d\<lparr>db_webhook_events := []\<rparr>)" if "wf_db d" for d
    using that by (rule wf_db_events) simp_all
  then show ?thesis by (simp add: faulty_world_def holdsW_def rely_def wf_sample_db)
qed

end
