(* ===== verification/Accounting.thy ===== *)
theory Accounting
  imports Store_Users Samples
begin

text \<open>
  What the expiry sweep and the traffic accounting do to the users table.

  \<open>status_sweep\<close> is the contract of a statement that flips the active users that are due;
  it is met by \<open>expire_due_users\<close> and by \<open>suspend_over_quota\<close>. \<open>ApplyTrafficDeltas\<close> is
  refined to one statement, \<open>apply_deltas\<close>, from which its accounting follows: the bytes
  of a batch are added to the counters exactly once or not at all, and the users it
  returns are exactly the active ones that reached their limit.
\<close>

section \<open>Sweeps\<close>

locale status_sweep =
  fixes sweep :: "string list stmt" and target :: string and due :: "user \<Rightarrow> bool"
  assumes sweep_flips: "sweep now d = Inr z \<Longrightarrow> z = flip_status target due now d"
    and target_inactive: "target \<noteq> UserStatusActive"
begin

lemma swept_ids:
  "sweep now d = Inr (ids, d') \<Longrightarrow> ids = map u_ID (filter (active_due due) (db_users d))"
  using sweep_flips [of now d "(ids, d')"] by (simp add: flip_status_def)

lemma swept_user:
  assumes "sweep now d = Inr (ids, d')"
  shows "find_user uid d' = map_option (\<lambda>u. if active_due due u
      then u\<lparr>u_Status := target, u_UpdatedAt := now\<rparr> else u) (find_user uid d)"
proof -
  have "d' = snd (flip_status target due now d)" using sweep_flips [OF assms, symmetric] by simp
  then show ?thesis unfolding find_user_def by (simp add: flip_status_def find_update_rows)
qed

lemma swept_mem:
  assumes "wf_db d" and "sweep now d = Inr (ids, d')" and "find_user uid d = Some u"
  shows "uid \<in> set ids \<longleftrightarrow> active_due due u"
proof -
  have "u \<in> set (db_users d)" "u_ID u = uid" using find_user_in [OF assms(3)] by simp_all
  moreover have "v = u" if "v \<in> set (db_users d)" "u_ID v = uid" for v
  proof -
    have "find_user uid d = Some v" unfolding find_user_wf [OF assms(1)] using that by blast
    with assms(3) show ?thesis by simp
  qed
  ultimately show ?thesis unfolding swept_ids [OF assms(2)] set_map set_filter by blast
qed

text \<open>No active user that is due is left, so a second sweep has nothing to do.\<close>

lemma none_active:
  assumes "sweep now d = Inr (ids, d')"
    and "\<And>u s t. due (u\<lparr>u_Status := s, u_UpdatedAt := t\<rparr>) = due u"
  shows "\<forall>u \<in> set (db_users d'). \<not> active_due due u"
proof -
  have "db_users d' = update_rows (active_due due) (\<lambda>u. u\<lparr>u_Status := target, u_UpdatedAt := now\<rparr>) (db_users d)"
    using sweep_flips [OF assms(1)] by (simp add: flip_status_def)
  then show ?thesis using target_inactive by (auto simp: set_update_rows active_due_def)
qed

lemma sweep_idem:
  assumes "sweep now d = Inr (ids, d')" and "sweep now' d' = Inr (ids', d'')"
    and "\<And>u s t. due (u\<lparr>u_Status := s, u_UpdatedAt := t\<rparr>) = due u"
  shows "ids' = [] \<and> d'' = d'"
proof -
  have none: "\<forall>u \<in> set (db_users d'). \<not> active_due due u"
    using assms(1,3) by (rule none_active)
  then have "filter (active_due due) (db_users d') = []"
    and "update_rows (active_due due) (\<lambda>u. u\<lparr>u_Status := target, u_UpdatedAt := now'\<rparr>) (db_users d') = db_users d'"
    by (simp_all add: update_rows_def map_idI)
  then show ?thesis using sweep_flips [OF assms(2)] by (simp add: flip_status_def)
qed

end

interpretation expiry: status_sweep "expire_due_users t" UserStatusExpired "expired_by t" for t
  by unfold_locales (auto simp: expire_due_users_def)

interpretation quota: status_sweep suspend_over_quota UserStatusSuspended sql_over_quota
  by unfold_locales (auto simp: suspend_over_quota_def split: if_splits)

lemma expired_by_status [simp]: "expired_by t (u\<lparr>u_Status := s, u_UpdatedAt := x\<rparr>) = expired_by t u"
  by (simp add: expired_by_def)

lemma sql_over_quota_status [simp]: "sql_over_quota (u\<lparr>u_Status := s, u_UpdatedAt := x\<rparr>) = sql_over_quota u"
  by (simp add: sql_over_quota_def used_sum_def split: option.split)

section \<open>One batch of traffic deltas\<close>

definition apply_delta :: "string \<Rightarrow> time \<Rightarrow> traffic_delta \<Rightarrow> unit stmt" where
  "apply_delta nodeID at t = (if td_Uplink t = 0 \<and> td_Downlink t = 0 then ret_stmt ()
     else seq_stmt (insert_snapshot nodeID t at) (\<lambda>_. seq_stmt (add_traffic t) (\<lambda>_. ret_stmt ())))"

definition apply_deltas :: "string \<Rightarrow> traffic_delta list \<Rightarrow> time \<Rightarrow> string list stmt" where
  "apply_deltas nodeID deltas at =
     seq_stmt (for_stmt deltas (apply_delta nodeID at)) (\<lambda>_. suspend_over_quota)"

lemma ApplyTrafficDeltas_refines:
  "\<exists>body. ApplyTrafficDeltas nodeID deltas at = WithTx body \<and> refines body (apply_deltas nodeID deltas at)"
  unfolding ApplyTrafficDeltas_def apply_deltas_def apply_delta_def
  by (rule exI, rule conjI, rule refl, intro ref)

text \<open>The bytes a batch holds for one user.\<close>

definition up_of :: "string \<Rightarrow> traffic_delta list \<Rightarrow> int" where
  "up_of uid ts = sum_list (map (\<lambda>t. sint (td_Uplink t)) (filter (\<lambda>t. td_UserID t = uid) ts))"

definition down_of :: "string \<Rightarrow> traffic_delta list \<Rightarrow> int" where
  "down_of uid ts = sum_list (map (\<lambda>t. sint (td_Downlink t)) (filter (\<lambda>t. td_UserID t = uid) ts))"

text \<open>
  \<open>credited uid ts u u'\<close>: the row \<open>u'\<close> is \<open>u\<close> with the traffic of \<open>ts\<close> added, in exact
  arithmetic, and nothing else changed but the modification time.
\<close>

definition credited :: "string \<Rightarrow> traffic_delta list \<Rightarrow> user \<Rightarrow> user \<Rightarrow> bool" where
  "credited uid ts u u' \<longleftrightarrow> (\<exists>up down t.
     u' = u\<lparr>u_UsedUploadBytes := up, u_UsedDownloadBytes := down, u_UpdatedAt := t\<rparr> \<and>
     sint up = sint (u_UsedUploadBytes u) + up_of uid ts \<and>
     sint down = sint (u_UsedDownloadBytes u) + down_of uid ts)"

lemma credited_none: "(\<And>t. t \<in> set ts \<Longrightarrow> td_UserID t = uid \<Longrightarrow> td_Uplink t = 0 \<and> td_Downlink t = 0)
    \<Longrightarrow> credited uid ts u u"
proof -
  assume none: "\<And>t. t \<in> set ts \<Longrightarrow> td_UserID t = uid \<Longrightarrow> td_Uplink t = 0 \<and> td_Downlink t = 0"
  have "up_of uid ts = 0" "down_of uid ts = 0"
    unfolding up_of_def down_of_def using none by (induction ts) auto
  then show ?thesis
    unfolding credited_def
    by (intro exI [of _ "u_UsedUploadBytes u"] exI [of _ "u_UsedDownloadBytes u"] exI [of _ "u_UpdatedAt u"]) simp
qed

lemma add_traffic_user:
  assumes "add_traffic t now d = Inr (n, d')" and "find_user uid d = Some u"
  shows "\<exists>u'. find_user uid d' = Some u' \<and> credited uid [t] u u'"
proof -
  have ok: "\<not> (\<exists>u \<in> set (db_users d). u_ID u = td_UserID t
        \<and> (bigint_add (u_UsedUploadBytes u) (td_Uplink t) = None
           \<or> bigint_add (u_UsedDownloadBytes u) (td_Downlink t) = None))"
    and touch: "touch_user (td_UserID t) (\<lambda>now u. u\<lparr>u_UsedUploadBytes := u_UsedUploadBytes u + td_Uplink t,
             u_UsedDownloadBytes := u_UsedDownloadBytes u + td_Downlink t, u_UpdatedAt := now\<rparr>) now d = Inr (n, d')"
    using assms(1) by (auto simp: add_traffic_def split: if_splits)
  note find = find_touch_user [OF touch, of uid]
  show ?thesis
  proof (cases "uid = td_UserID t")
    case True
    have "int64_range (sint (u_UsedUploadBytes u) + sint (td_Uplink t))"
      "int64_range (sint (u_UsedDownloadBytes u) + sint (td_Downlink t))"
      using ok find_user_in [OF assms(2)] True by (auto simp: bigint_add_def split: if_splits)
    then have "credited uid [t] u (u\<lparr>u_UsedUploadBytes := u_UsedUploadBytes u + td_Uplink t,
         u_UsedDownloadBytes := u_UsedDownloadBytes u + td_Downlink t, u_UpdatedAt := now\<rparr>)"
      unfolding credited_def using True
      by (intro exI conjI) (rule refl, simp_all add: up_of_def down_of_def sint_add_int64)
    with find assms(2) True show ?thesis by simp
  next
    case False
    with find assms(2) show ?thesis by (auto intro: credited_none)
  qed
qed

lemma credited_trans:
  assumes "credited uid ts u u1" and "credited uid ts' u1 u2"
  shows "credited uid (ts @ ts') u u2"
proof -
  obtain up1 down1 t1 where 1: "u1 = u\<lparr>u_UsedUploadBytes := up1, u_UsedDownloadBytes := down1, u_UpdatedAt := t1\<rparr>"
      "sint up1 = sint (u_UsedUploadBytes u) + up_of uid ts"
      "sint down1 = sint (u_UsedDownloadBytes u) + down_of uid ts"
    using assms(1) unfolding credited_def by blast
  obtain up2 down2 t2 where 2: "u2 = u1\<lparr>u_UsedUploadBytes := up2, u_UsedDownloadBytes := down2, u_UpdatedAt := t2\<rparr>"
      "sint up2 = sint (u_UsedUploadBytes u1) + up_of uid ts'"
      "sint down2 = sint (u_UsedDownloadBytes u1) + down_of uid ts'"
    using assms(2) unfolding credited_def by blast
  show ?thesis
    unfolding credited_def
    by (intro exI [of _ up2] exI [of _ down2] exI [of _ t2]) (use 1 2 in \<open>simp add: up_of_def down_of_def\<close>)
qed

lemma insert_snapshot_users: "insert_snapshot n t at now d = Inr (u, d') \<Longrightarrow> db_users d' = db_users d"
  by (auto simp: insert_snapshot_def split: if_splits)

lemma apply_delta_user:
  assumes "apply_delta nodeID at t now d = Inr (x, d')" and "find_user uid d = Some u"
  shows "\<exists>u'. find_user uid d' = Some u' \<and> credited uid [t] u u'"
proof (cases "td_Uplink t = 0 \<and> td_Downlink t = 0")
  case True
  with assms show ?thesis by (auto simp: apply_delta_def intro: credited_none)
next
  case False
  with assms(1) obtain d1 n where ins: "insert_snapshot nodeID t at now d = Inr ((), d1)"
    and add: "add_traffic t now d1 = Inr (n, d')"
    by (auto simp: apply_delta_def seq_stmt_Inr)
  have "find_user uid d1 = Some u"
    using assms(2) insert_snapshot_users [OF ins] by (simp add: find_user_def)
  with add show ?thesis by (rule add_traffic_user)
qed

lemma apply_for_user:
  assumes "for_stmt deltas (apply_delta nodeID at) now d = Inr (x, d')" and "find_user uid d = Some u"
  shows "\<exists>u'. find_user uid d' = Some u' \<and> credited uid deltas u u'"
proof (rule for_stmt_induct [OF assms(1), where P = "\<lambda>ts e. \<exists>u'. find_user uid e = Some u' \<and> credited uid ts u u'"])
  show "\<exists>u'. find_user uid d = Some u' \<and> credited uid [] u u'"
    using assms(2) by (auto intro: credited_none)
next
  fix ts t d1 d2
  assume "\<exists>u'. find_user uid d1 = Some u' \<and> credited uid ts u u'"
    and step: "apply_delta nodeID at t now d1 = Inr ((), d2)"
  then obtain u1 where "find_user uid d1 = Some u1" and ts: "credited uid ts u u1" by blast
  then obtain u2 where "find_user uid d2 = Some u2" "credited uid [t] u1 u2"
    using apply_delta_user [OF step] by blast
  with ts show "\<exists>u'. find_user uid d2 = Some u' \<and> credited uid (ts @ [t]) u u'"
    by (blast intro: credited_trans)
qed

section \<open>The effect of a batch\<close>

lemma apply_deltas_split:
  assumes "apply_deltas nodeID deltas at now d = Inr (ids, d')"
  obtains d1 where "for_stmt deltas (apply_delta nodeID at) now d = Inr ((), d1)"
    and "suspend_over_quota now d1 = Inr (ids, d')"
  using assms by (auto simp: apply_deltas_def seq_stmt_Inr)

lemma wf_apply_delta: "wf_db d \<Longrightarrow> apply_delta nodeID at t now d = Inr (u, d') \<Longrightarrow> wf_db d'"
  by (auto simp: apply_delta_def seq_stmt_Inr split: if_splits dest: wf_insert_snapshot wf_add_traffic)

lemma wf_for_deltas: "wf_db d \<Longrightarrow> for_stmt ts (apply_delta nodeID at) now d = Inr (u, d') \<Longrightarrow> wf_db d'"
  by (erule for_stmt_induct [where P = "\<lambda>_. wf_db"]) (auto intro: wf_apply_delta)

text \<open>The limit is reached once the traffic of the batch is added, in exact arithmetic.\<close>

definition reaches_limit :: "string \<Rightarrow> traffic_delta list \<Rightarrow> user \<Rightarrow> bool" where
  "reaches_limit uid ts u \<longleftrightarrow> (case u_DataLimitBytes u of None \<Rightarrow> False
     | Some lim \<Rightarrow> sint lim \<le> used_sum u + up_of uid ts + down_of uid ts)"

lemma credited_quota: "credited uid ts u u' \<Longrightarrow> sql_over_quota u' = reaches_limit uid ts u"
  by (auto simp: credited_def sql_over_quota_def reaches_limit_def used_sum_def algebra_simps split: option.split)

lemma apply_deltas_user:
  assumes wf: "wf_db d" and run: "apply_deltas nodeID deltas at now d = Inr (ids, d')"
    and u: "find_user uid d = Some u"
  shows "\<exists>u'. find_user uid d' = Some u' \<and>
      sint (u_UsedUploadBytes u') = sint (u_UsedUploadBytes u) + up_of uid deltas \<and>
      sint (u_UsedDownloadBytes u') = sint (u_UsedDownloadBytes u) + down_of uid deltas \<and>
      u_Status u' = (if u_Status u = UserStatusActive \<and> reaches_limit uid deltas u
                     then UserStatusSuspended else u_Status u)"
    and "uid \<in> set ids \<longleftrightarrow> u_Status u = UserStatusActive \<and> reaches_limit uid deltas u"
proof -
  obtain d1 where loop: "for_stmt deltas (apply_delta nodeID at) now d = Inr ((), d1)"
    and sweep: "suspend_over_quota now d1 = Inr (ids, d')"
    using run by (rule apply_deltas_split)
  obtain u1 where u1: "find_user uid d1 = Some u1" and cr: "credited uid deltas u u1"
    using apply_for_user [OF loop u] by blast
  have due: "active_due sql_over_quota u1 \<longleftrightarrow> u_Status u = UserStatusActive \<and> reaches_limit uid deltas u"
    using cr credited_quota [OF cr] by (auto simp: active_due_def credited_def)
  show "uid \<in> set ids \<longleftrightarrow> u_Status u = UserStatusActive \<and> reaches_limit uid deltas u"
    using quota.swept_mem [OF wf_for_deltas [OF wf loop] sweep u1] due by simp
  show "\<exists>u'. find_user uid d' = Some u' \<and>
      sint (u_UsedUploadBytes u') = sint (u_UsedUploadBytes u) + up_of uid deltas \<and>
      sint (u_UsedDownloadBytes u') = sint (u_UsedDownloadBytes u) + down_of uid deltas \<and>
      u_Status u' = (if u_Status u = UserStatusActive \<and> reaches_limit uid deltas u
                     then UserStatusSuspended else u_Status u)"
    using quota.swept_user [OF sweep, of uid] u1 cr due by (auto simp: credited_def)
qed

lemma used_sum_range_OverQuota: "int64_range (used_sum u) \<Longrightarrow> OverQuota u = sql_over_quota u"
  by (simp add: OverQuota_def sql_over_quota_def UsedTotalBytes_def used_sum_def sint_add_int64
      split: option.split)

lemma suspend_over_quota_leaves:
  assumes "suspend_over_quota now d = Inr (ids, d')" and "u \<in> set (db_users d')" "u_Status u = UserStatusActive"
  shows "\<not> OverQuota u"
proof (cases "u_DataLimitBytes u")
  case None
  then show ?thesis by (simp add: OverQuota_def)
next
  case (Some lim)
  have "db_users d' = update_rows (active_due sql_over_quota)
      (\<lambda>u. u\<lparr>u_Status := UserStatusSuspended, u_UpdatedAt := now\<rparr>) (db_users d)"
    and range: "\<forall>u \<in> set (db_users d). u_Status u = UserStatusActive \<longrightarrow> u_DataLimitBytes u \<noteq> None
      \<longrightarrow> int64_range (used_sum u)"
    using assms(1) by (auto simp: suspend_over_quota_def flip_status_def split: if_splits)
  then have "u \<in> set (db_users d)" using assms(2,3) by (auto simp: set_update_rows)
  with range assms(3) Some have "int64_range (used_sum u)" by auto
  moreover have "\<not> sql_over_quota u"
    using quota.none_active [OF assms(1)] assms(2,3) by (simp add: active_due_def)
  ultimately show ?thesis by (simp add: used_sum_range_OverQuota)
qed

text \<open>The ledger of a batch: one snapshot per delta that carries traffic, in order.\<close>

definition snapshot_of :: "string \<Rightarrow> time \<Rightarrow> nat \<times> traffic_delta \<Rightarrow> traffic_snapshot" where
  "snapshot_of nodeID at = (\<lambda>(k, t). \<lparr>ts_ID = k, ts_UserID = td_UserID t, ts_NodeID = nodeID,
     ts_UplinkBytes = td_Uplink t, ts_DownlinkBytes = td_Downlink t, ts_CollectedAt = at\<rparr>)"

definition carries :: "traffic_delta \<Rightarrow> bool" where
  "carries t \<longleftrightarrow> \<not> (td_Uplink t = 0 \<and> td_Downlink t = 0)"

lemma apply_delta_snapshots:
  "apply_delta nodeID at t now d = Inr (x, d') \<Longrightarrow>
     db_snapshots d' = db_snapshots d @ map (snapshot_of nodeID at)
       (if carries t then [(db_snapshot_seq d, t)] else [])
     \<and> db_snapshot_seq d' = db_snapshot_seq d + (if carries t then 1 else 0)"
  by (auto simp: apply_delta_def carries_def seq_stmt_Inr insert_snapshot_def add_traffic_def
      touch_user_def snapshot_of_def split: if_splits)

lemma for_deltas_snapshots:
  assumes "for_stmt ts (apply_delta nodeID at) now d = Inr (x, d')"
  shows "db_snapshots d' = db_snapshots d @ map (snapshot_of nodeID at)
      (zip [db_snapshot_seq d ..< db_snapshot_seq d + length (filter carries ts)] (filter carries ts))"
proof -
  let ?n = "\<lambda>ts. db_snapshot_seq d + length (filter carries ts)"
  have "db_snapshots d' = db_snapshots d @ map (snapshot_of nodeID at)
      (zip [db_snapshot_seq d ..< ?n ts] (filter carries ts)) \<and> db_snapshot_seq d' = ?n ts"
    by (rule for_stmt_induct [OF assms, where P = "\<lambda>ts e. db_snapshots e = db_snapshots d @
          map (snapshot_of nodeID at) (zip [db_snapshot_seq d ..< ?n ts] (filter carries ts))
          \<and> db_snapshot_seq e = ?n ts"])
      (auto dest!: apply_delta_snapshots)
  then show ?thesis by simp
qed

section \<open>The store's methods\<close>

lemma ApplyTrafficDeltas_done:
  fixes w :: "'x world"
  assumes "ApplyTrafficDeltas nodeID deltas at w = (Inr ids, w')"
  shows "apply_deltas nodeID deltas at (w_now w) (db_at_call w) = Inr (ids, w_db w')"
proof -
  obtain body :: "('x, string list) io" where "ApplyTrafficDeltas nodeID deltas at = WithTx body"
    and ref: "refines body (apply_deltas nodeID deltas at)"
    using ApplyTrafficDeltas_refines by blast
  with assms have "WithTx body w = (Inr ids, w')" by simp
  with ref show ?thesis by (rule WithTx_committed)
qed

lemma ApplyTrafficDeltas_failed:
  "ApplyTrafficDeltas nodeID deltas at w = (Inl e, w') \<Longrightarrow> w_db w' = db_at_call w"
  unfolding ApplyTrafficDeltas_def by (rule WithTx_failed)

text \<open>C1: When \<open>ApplyTrafficDeltas\<close> succeeds, under any interference by other goroutines,
  every user's counters have grown by exactly the batch's bytes for that user, the user is
  suspended exactly when it was active and has now reached its limit, and the returned
  list names exactly the users so suspended.\<close>

theorem ApplyTrafficDeltas_accounts:
  assumes "holdsW wf_db w" and "ApplyTrafficDeltas nodeID deltas at w = (Inr ids, w')"
    and "find_user uid (db_at_call w) = Some u"
  shows "(\<exists>u'. find_user uid (w_db w') = Some u' \<and>
      sint (u_UsedUploadBytes u') = sint (u_UsedUploadBytes u) + up_of uid deltas \<and>
      sint (u_UsedDownloadBytes u') = sint (u_UsedDownloadBytes u) + down_of uid deltas \<and>
      u_Status u' = (if u_Status u = UserStatusActive \<and> reaches_limit uid deltas u
                     then UserStatusSuspended else u_Status u)) \<and>
    (uid \<in> set ids \<longleftrightarrow> u_Status u = UserStatusActive \<and> reaches_limit uid deltas u)"
  by (intro conjI apply_deltas_user [OF db_at_call_holds [OF assms(1)] ApplyTrafficDeltas_done [OF assms(2)] assms(3)])

definition sample_deltas :: "traffic_delta list" where
  "sample_deltas = [\<lparr>td_UserID = ''u1'', td_Uplink = 400, td_Downlink = 300\<rparr>,
     \<lparr>td_UserID = ''u2'', td_Uplink = 7, td_Downlink = 0\<rparr>]"

theorem ApplyTrafficDeltas_accounts_witness:
  "\<exists>u'. find_user ''u1'' (w_db (snd (ApplyTrafficDeltas ''n1'' sample_deltas 90 (sample_world (\<lambda>_. ()))))) = Some u'
     \<and> sint (u_UsedUploadBytes u') = 500"
proof -
  have run: "fst (ApplyTrafficDeltas ''n1'' sample_deltas 90 (sample_world (\<lambda>_. ()))) = Inr [''u1'']"
    by code_simp
  have u: "find_user ''u1'' (db_at_call (sample_world (\<lambda>_. ()))) = Some sample_user"
    by code_simp
  have "sint (u_UsedUploadBytes sample_user) + up_of ''u1'' sample_deltas = 500"
    by code_simp
  with ApplyTrafficDeltas_accounts [OF holds_sample_world run_eqI [OF run] u] show ?thesis by auto
qed

text \<open>C2: After \<open>ApplyTrafficDeltas\<close> succeeds no active user is over quota, as the domain
  package's \<open>OverQuota\<close> decides it, even though its Go sum can wrap around.\<close>

theorem ApplyTrafficDeltas_no_active_over_quota:
  assumes "ApplyTrafficDeltas nodeID deltas at w = (Inr ids, w')"
    and "u \<in> set (db_users (w_db w'))" and "u_Status u = UserStatusActive"
  shows "\<not> OverQuota u"
  using ApplyTrafficDeltas_done [OF assms(1)] suspend_over_quota_leaves [OF _ assms(2,3)]
  by (auto elim: apply_deltas_split)

definition small_deltas :: "traffic_delta list" where
  "small_deltas = [\<lparr>td_UserID = ''u1'', td_Uplink = 1, td_Downlink = 2\<rparr>]"

theorem ApplyTrafficDeltas_no_active_over_quota_witness:
  "\<not> OverQuota (hd (db_users (w_db (snd (ApplyTrafficDeltas ''n1'' small_deltas 90 (sample_world (\<lambda>_. ())))))))"
proof -
  let ?w = "sample_world (\<lambda>_. ())"
  have run: "fst (ApplyTrafficDeltas ''n1'' small_deltas 90 ?w) = Inr []"
    by code_simp
  have "hd (db_users (w_db (snd (ApplyTrafficDeltas ''n1'' small_deltas 90 ?w))))
      \<in> set (db_users (w_db (snd (ApplyTrafficDeltas ''n1'' small_deltas 90 ?w))))"
    by code_simp
  moreover have "u_Status (hd (db_users (w_db (snd (ApplyTrafficDeltas ''n1'' small_deltas 90 ?w))))) = UserStatusActive"
    by code_simp
  ultimately show ?thesis
    by (rule ApplyTrafficDeltas_no_active_over_quota [OF run_eqI [OF run]])
qed


text \<open>C4: When \<open>ExpireDueUsers\<close> at time \<open>t\<close> succeeds, exactly the active users whose expiry is
  at or before \<open>t\<close> have become expired, the returned list names exactly those, and every
  other user's row is untouched.\<close>

theorem ExpireDueUsers_exact:
  assumes "holdsW wf_db w" and "ExpireDueUsers t w = (Inr ids, w')"
    and "find_user uid (db_at_call w) = Some u"
  shows "find_user uid (w_db w') = Some (if u_Status u = UserStatusActive \<and> expired_by t u
      then u\<lparr>u_Status := UserStatusExpired, u_UpdatedAt := w_now w\<rparr> else u) \<and>
    (uid \<in> set ids \<longleftrightarrow> u_Status u = UserStatusActive \<and> expired_by t u)"
proof -
  have "expire_due_users t (w_now w) (db_at_call w) = Inr (ids, w_db w')"
    using assms(2) by (auto simp: ExpireDueUsers_def onErr_done dest: db_exec_done)
  then show ?thesis
    using expiry.swept_user [of t "w_now w" "db_at_call w" ids "w_db w'" uid]
      expiry.swept_mem [OF db_at_call_holds [OF assms(1)], of t "w_now w" ids "w_db w'"] assms(3)
    by (simp add: active_due_def)
qed

theorem ExpireDueUsers_exact_witness:
  "find_user ''u1'' (w_db (snd (ExpireDueUsers 60 (sample_world (\<lambda>_. ())))))
     = Some (sample_user\<lparr>u_Status := UserStatusExpired, u_UpdatedAt := 100\<rparr>)"
proof -
  have run: "fst (ExpireDueUsers 60 (sample_world (\<lambda>_. ()))) = Inr [''u1'']"
    by code_simp
  have u: "find_user ''u1'' (db_at_call (sample_world (\<lambda>_. ()))) = Some sample_user"
    by code_simp
  have "u_Status sample_user = UserStatusActive \<and> expired_by 60 sample_user"
    by code_simp
  with ExpireDueUsers_exact [OF holds_sample_world run_eqI [OF run] u] show ?thesis by simp
qed

end
