(* ===== verification/Store_Assignments.thy ===== *)
theory Store_Assignments
  imports Accounting
begin

text \<open>
  \<open>internal/store/assignments.go\<close>: the desired state. A row of \<open>user_inbounds\<close> assigns a
  user to an inbound of a node; the reconciler reads, per node, the assignments that must
  be present (\<open>DesiredForNode\<close>) and those that must be absent (\<open>RemovalsForNode\<close>).
  The queries have no \<open>ORDER BY\<close>; the model lists their rows in table order.
\<close>

section \<open>The joins\<close>

record desired_assignment =
  da_UserID :: string
  da_InboundID :: string
  da_NodeID :: string
  da_InboundTag :: string
  da_Protocol :: string
  da_Flow :: string
  da_Method :: string
  da_Email :: string
  da_UUID :: string
  da_TrojanPass :: string
  da_SyncStatus :: SyncStatus

definition desired_row :: "user_inbound \<Rightarrow> inbound \<Rightarrow> user \<Rightarrow> desired_assignment" where
  "desired_row r i u = \<lparr>da_UserID = ui_UserID r, da_InboundID = ui_InboundID r, da_NodeID = ib_NodeID i,
     da_InboundTag = ib_Tag i, da_Protocol = ib_Protocol i, da_Flow = ib_Flow i, da_Method = ib_Method i,
     da_Email = u_Email u, da_UUID = u_UUID u, da_TrojanPass = u_TrojanPassword u,
     da_SyncStatus = ui_SyncStatus r\<rparr>"

definition join_assignments :: "(user_inbound \<Rightarrow> inbound \<Rightarrow> user \<Rightarrow> bool) \<Rightarrow> db \<Rightarrow> desired_assignment list" where
  "join_assignments P d = concat (map (\<lambda>r. concat (map (\<lambda>i. map (desired_row r i)
       (filter (\<lambda>u. u_ID u = ui_UserID r \<and> P r i u) (db_users d)))
     (filter (\<lambda>i. ib_ID i = ui_InboundID r) (db_inbounds d)))) (db_user_inbounds d))"

definition desired_for_node :: "string \<Rightarrow> db \<Rightarrow> desired_assignment list" where
  "desired_for_node nodeID = join_assignments (\<lambda>r i u. ib_NodeID i = nodeID
     \<and> u_Status u = UserStatusActive \<and> ui_SyncStatus r \<noteq> SyncRemoving)"

definition removals_for_node :: "string \<Rightarrow> db \<Rightarrow> desired_assignment list" where
  "removals_for_node nodeID = join_assignments (\<lambda>r i u. ib_NodeID i = nodeID
     \<and> (ui_SyncStatus r = SyncRemoving \<or> u_Status u \<noteq> UserStatusActive))"

definition targets_for_user :: "string \<Rightarrow> db \<Rightarrow> desired_assignment list" where
  "targets_for_user userID = join_assignments (\<lambda>r i u. ui_UserID r = userID)"

definition queryDesired :: "(db \<Rightarrow> desired_assignment list) \<Rightarrow> ('x, desired_assignment list) io" where
  "queryDesired q = onErr mapErr (db_query (\<lambda>d. Inr (q d)))"

definition DesiredForNode :: "string \<Rightarrow> ('x, desired_assignment list) io" where
  "DesiredForNode nodeID = queryDesired (desired_for_node nodeID)"

definition RemovalsForNode :: "string \<Rightarrow> ('x, desired_assignment list) io" where
  "RemovalsForNode nodeID = queryDesired (removals_for_node nodeID)"

definition AssignmentTargetsForUser :: "string \<Rightarrow> ('x, desired_assignment list) io" where
  "AssignmentTargetsForUser userID = queryDesired (targets_for_user userID)"

section \<open>Assignments\<close>

definition is_assignment :: "string \<Rightarrow> string \<Rightarrow> user_inbound \<Rightarrow> bool" where
  "is_assignment userID inboundID r \<longleftrightarrow> ui_UserID r = userID \<and> ui_InboundID r = inboundID"

definition find_assignment :: "string \<Rightarrow> string \<Rightarrow> db \<Rightarrow> user_inbound option" where
  "find_assignment userID inboundID d = find (is_assignment userID inboundID) (db_user_inbounds d)"

text \<open>\<open>INSERT ... 'pending' ON CONFLICT (user_id, inbound_id) DO NOTHING\<close>\<close>

definition new_assignment :: "string \<Rightarrow> string \<Rightarrow> user_inbound" where
  "new_assignment userID inboundID = \<lparr>ui_UserID = userID, ui_InboundID = inboundID,
     ui_SyncStatus = SyncPending, ui_LastSyncedAt = None, ui_LastError = ''''\<rparr>"

definition insert_assignment :: "string \<Rightarrow> string \<Rightarrow> unit stmt" where
  "insert_assignment userID inboundID now d =
     (if \<exists>r \<in> set (db_user_inbounds d). is_assignment userID inboundID r then Inr ((), d)
      else case fk_err
        [(userID \<notin> user_ids d, ''user_inbounds_user_id_fkey''),
         (inboundID \<notin> inbound_ids d, ''user_inbounds_inbound_id_fkey'')] of
        Some e \<Rightarrow> Inl e
      | None \<Rightarrow> Inr ((), d\<lparr>db_user_inbounds := db_user_inbounds d @ [new_assignment userID inboundID]\<rparr>))"

definition AddAssignmentTx :: "string \<Rightarrow> string \<Rightarrow> ('x, unit) io" where
  "AddAssignmentTx userID inboundID = onErr mapErr (tx_exec (insert_assignment userID inboundID))"

definition ListAssignmentsByUser :: "string \<Rightarrow> ('x, user_inbound list) io" where
  "ListAssignmentsByUser userID = onErr mapErr (db_query (\<lambda>d.
     Inr (filter (\<lambda>r. ui_UserID r = userID) (db_user_inbounds d))))"

definition touch_assignments :: "(user_inbound \<Rightarrow> bool) \<Rightarrow> (user_inbound \<Rightarrow> user_inbound) \<Rightarrow> unit stmt" where
  "touch_assignments P f now d = Inr ((), d\<lparr>db_user_inbounds := update_rows P f (db_user_inbounds d)\<rparr>)"

definition MarkAssignmentSynced :: "string \<Rightarrow> string \<Rightarrow> SyncStatus \<Rightarrow> string \<Rightarrow> ('x, unit) io" where
  "MarkAssignmentSynced userID inboundID status errMsg =
     bindE (if status = SyncApplied then bindE time_Now (\<lambda>now. ret (Some now)) else ret None) (\<lambda>seenAt.
     onErr mapErr (db_exec (touch_assignments (is_assignment userID inboundID)
       (\<lambda>r. r\<lparr>ui_SyncStatus := status, ui_LastError := errMsg,
          ui_LastSyncedAt := (case seenAt of None \<Rightarrow> ui_LastSyncedAt r | Some t \<Rightarrow> Some t)\<rparr>))))"

definition MarkAssignmentsRemovingForUser :: "string \<Rightarrow> ('x, unit) io" where
  "MarkAssignmentsRemovingForUser userID = onErr mapErr (db_exec (touch_assignments
     (\<lambda>r. ui_UserID r = userID) (\<lambda>r. r\<lparr>ui_SyncStatus := SyncRemoving\<rparr>)))"

definition delete_assignment :: "string \<Rightarrow> string \<Rightarrow> unit stmt" where
  "delete_assignment userID inboundID now d =
     Inr ((), d\<lparr>db_user_inbounds := delete_rows (is_assignment userID inboundID) (db_user_inbounds d)\<rparr>)"

definition DeleteAssignment :: "string \<Rightarrow> string \<Rightarrow> ('x, unit) io" where
  "DeleteAssignment userID inboundID = onErr mapErr (db_exec (delete_assignment userID inboundID))"

text \<open>
  \<open>UPDATE ... SET sync_status='removing' WHERE user_id=$1 AND inbound_id <> ALL($2)\<close>. A nil
  slice is the SQL value \<open>NULL\<close>, with which the comparison is never true; \<^term>\<open>None\<close> is the
  nil slice here.
\<close>

type_synonym slice = "string list option"

definition elems :: "slice \<Rightarrow> string list" where
  "elems s = (case s of None \<Rightarrow> [] | Some xs \<Rightarrow> xs)"

definition differs_from_all :: "string \<Rightarrow> slice \<Rightarrow> bool" where
  "differs_from_all x s \<longleftrightarrow> (case s of None \<Rightarrow> False | Some xs \<Rightarrow> x \<notin> set xs)"

definition tombstone_others :: "string \<Rightarrow> slice \<Rightarrow> unit stmt" where
  "tombstone_others userID inboundIDs = touch_assignments
     (\<lambda>r. ui_UserID r = userID \<and> differs_from_all (ui_InboundID r) inboundIDs) (\<lambda>r. r\<lparr>ui_SyncStatus := SyncRemoving\<rparr>)"

definition SetAssignmentsForUserTx :: "string \<Rightarrow> slice \<Rightarrow> ('x, unit) io" where
  "SetAssignmentsForUserTx userID inboundIDs =
     bindE (onErr mapErr (tx_exec (tombstone_others userID inboundIDs))) (\<lambda>_.
     forEach (elems inboundIDs) (\<lambda>ibID. onErr mapErr (tx_exec (insert_assignment userID ibID))))"

declare queryDesired_def [store_defs] DesiredForNode_def [store_defs] RemovalsForNode_def [store_defs]
  AssignmentTargetsForUser_def [store_defs] AddAssignmentTx_def [store_defs]
  ListAssignmentsByUser_def [store_defs] MarkAssignmentSynced_def [store_defs]
  MarkAssignmentsRemovingForUser_def [store_defs] DeleteAssignment_def [store_defs]
  SetAssignmentsForUserTx_def [store_defs]

section \<open>The schema's constraints are kept\<close>

lemma wf_insert_assignment:
  assumes "wf_db d" and "insert_assignment userID inboundID now d = Inr (u, d')"
  shows "wf_db d'"
proof (cases "\<exists>r \<in> set (db_user_inbounds d). is_assignment userID inboundID r")
  case True
  with assms show ?thesis by (simp add: insert_assignment_def)
next
  case False
  let ?rs = "db_user_inbounds d @ [new_assignment userID inboundID]"
  from False assms(2) have d': "d' = d\<lparr>db_user_inbounds := ?rs\<rparr>"
    and fk: "userID \<in> user_ids d" "inboundID \<in> inbound_ids d"
    by (auto simp: insert_assignment_def split: if_splits)
  have "wf_user_inbounds (d\<lparr>db_user_inbounds := ?rs\<rparr>)"
    using wf_dbD(5) [OF assms(1)] fk False
    by (auto simp: wf_user_inbounds_def new_assignment_def is_assignment_def user_ids_def inbound_ids_def)
  then show ?thesis unfolding d' by (rule wf_db_user_inbounds [OF assms(1)])
qed

lemma wf_touch_assignments:
  assumes "wf_db d" and "touch_assignments P f now d = Inr (u, d')"
    and "\<And>r. ui_UserID (f r) = ui_UserID r" "\<And>r. ui_InboundID (f r) = ui_InboundID r"
  shows "wf_db d'"
proof -
  let ?rs = "update_rows P f (db_user_inbounds d)"
  have "wf_user_inbounds (d\<lparr>db_user_inbounds := ?rs\<rparr>)"
    using wf_dbD(5) [OF assms(1)]
    by (auto simp: wf_user_inbounds_def map_update_rows assms(3,4) set_update_rows user_ids_def inbound_ids_def)
  then have "wf_db (d\<lparr>db_user_inbounds := ?rs\<rparr>)" by (rule wf_db_user_inbounds [OF assms(1)])
  with assms(2) show ?thesis by (simp add: touch_assignments_def)
qed

lemma wf_delete_assignment:
  assumes "wf_db d" and "delete_assignment userID inboundID now d = Inr (u, d')"
  shows "wf_db d'"
proof -
  let ?rs = "delete_rows (is_assignment userID inboundID) (db_user_inbounds d)"
  have "wf_user_inbounds (d\<lparr>db_user_inbounds := ?rs\<rparr>)"
    using wf_dbD(5) [OF assms(1)]
    by (auto simp: wf_user_inbounds_def user_ids_def inbound_ids_def intro: distinct_map_delete_rows)
  then have "wf_db (d\<lparr>db_user_inbounds := ?rs\<rparr>)" by (rule wf_db_user_inbounds [OF assms(1)])
  with assms(2) show ?thesis by (simp add: delete_assignment_def)
qed

lemma wf_tombstone_others: "wf_db d \<Longrightarrow> tombstone_others userID ids now d = Inr (u, d') \<Longrightarrow> wf_db d'"
  unfolding tombstone_others_def by (erule (1) wf_touch_assignments) simp_all

declare wf_insert_assignment [wf_stmt] wf_delete_assignment [wf_stmt] wf_tombstone_others [wf_stmt]

lemma preserves_assignment_reads [pres]:
  "preserves I (DesiredForNode n)" "preserves I (RemovalsForNode n)"
  "preserves I (AssignmentTargetsForUser u)" "preserves I (ListAssignmentsByUser u)"
  unfolding store_defs by (intro pres)+

lemma preserves_assignments [pres]:
  "preserves wf_db (AddAssignmentTx u i)" "preserves wf_db (DeleteAssignment u i)"
  "preserves wf_db (SetAssignmentsForUserTx u is)"
  unfolding store_defs by (intro pres; erule (1) wf_stmt)+

lemma preserves_assignment_status [pres]:
  "preserves wf_db (MarkAssignmentSynced u i st e)" "preserves wf_db (MarkAssignmentsRemovingForUser u)"
  unfolding store_defs by (intro pres; (erule (1) wf_touch_assignments, simp_all)?)+

section \<open>What must be present and what must be absent\<close>

lemma mem_join_assignments:
  "a \<in> set (join_assignments P d) \<longleftrightarrow> (\<exists>r \<in> set (db_user_inbounds d). \<exists>i \<in> set (db_inbounds d).
     \<exists>u \<in> set (db_users d). ib_ID i = ui_InboundID r \<and> u_ID u = ui_UserID r \<and> P r i u \<and> a = desired_row r i u)"
  unfolding join_assignments_def by (simp, blast)

definition assignment_key :: "desired_assignment \<Rightarrow> string \<times> string" where
  "assignment_key a = (da_UserID a, da_InboundID a)"

definition account_key :: "desired_assignment \<Rightarrow> string \<times> string" where
  "account_key a = (da_InboundTag a, da_Email a)"

lemma assignment_unique:
  "wf_db d \<Longrightarrow> r \<in> set (db_user_inbounds d) \<Longrightarrow> r' \<in> set (db_user_inbounds d)
    \<Longrightarrow> ui_UserID r = ui_UserID r' \<Longrightarrow> ui_InboundID r = ui_InboundID r' \<Longrightarrow> r = r'"
  by (rule inj_on_set_unique [of "\<lambda>r. (ui_UserID r, ui_InboundID r)" "db_user_inbounds d"])
    (auto dest: wf_dbD(5) simp: wf_user_inbounds_def)

lemma inbound_unique:
  "wf_db d \<Longrightarrow> i \<in> set (db_inbounds d) \<Longrightarrow> i' \<in> set (db_inbounds d) \<Longrightarrow> ib_ID i = ib_ID i' \<Longrightarrow> i = i'"
  by (rule inj_on_set_unique [of ib_ID "db_inbounds d"]) (auto dest: wf_db_distinct)

lemma tag_unique:
  "wf_db d \<Longrightarrow> i \<in> set (db_inbounds d) \<Longrightarrow> i' \<in> set (db_inbounds d) \<Longrightarrow> ib_NodeID i = ib_NodeID i'
    \<Longrightarrow> ib_Tag i = ib_Tag i' \<Longrightarrow> i = i'"
  by (rule inj_on_set_unique [of "\<lambda>i. (ib_NodeID i, ib_Tag i)" "db_inbounds d"])
    (auto dest: wf_dbD(2) simp: wf_inbounds_def)

lemma user_unique:
  "wf_db d \<Longrightarrow> u \<in> set (db_users d) \<Longrightarrow> u' \<in> set (db_users d) \<Longrightarrow> u_ID u = u_ID u' \<Longrightarrow> u = u'"
  by (rule inj_on_set_unique [of u_ID "db_users d"]) (auto dest: wf_db_distinct)

lemma email_unique:
  "wf_db d \<Longrightarrow> u \<in> set (db_users d) \<Longrightarrow> u' \<in> set (db_users d) \<Longrightarrow> u_Email u = u_Email u' \<Longrightarrow> u = u'"
  by (rule inj_on_set_unique [of u_Email "db_users d"]) (auto dest: wf_db_distinct)

text \<open>On one node, an account (inbound tag and e-mail) belongs to one assignment row.\<close>

lemma account_row_unique:
  assumes wf: "wf_db d"
    and a: "a = desired_row r i u" "r \<in> set (db_user_inbounds d)" "i \<in> set (db_inbounds d)"
      "u \<in> set (db_users d)" "ib_ID i = ui_InboundID r" "u_ID u = ui_UserID r"
    and b: "b = desired_row r' i' u'" "r' \<in> set (db_user_inbounds d)" "i' \<in> set (db_inbounds d)"
      "u' \<in> set (db_users d)" "ib_ID i' = ui_InboundID r'" "u_ID u' = ui_UserID r'"
    and same: "ib_NodeID i = ib_NodeID i'" "account_key a = account_key b"
  shows "r = r'" and "i = i'" and "u = u'"
proof -
  have "ib_Tag i = ib_Tag i'" "u_Email u = u_Email u'"
    using same(2) a(1) b(1) by (simp_all add: account_key_def desired_row_def)
  then show i: "i = i'" and u: "u = u'"
    using tag_unique [OF wf a(3) b(3) same(1)] email_unique [OF wf a(4) b(4)] by simp_all
  from i u a(5,6) b(5,6) show "r = r'"
    by (intro assignment_unique [OF wf a(2) b(2)]) simp_all
qed

lemma desired_removals_disjoint:
  assumes "wf_db d" and "a \<in> set (desired_for_node n d)" and "b \<in> set (removals_for_node n d)"
  shows "account_key a \<noteq> account_key b"
proof
  assume same: "account_key a = account_key b"
  obtain r i u where a: "r \<in> set (db_user_inbounds d)" "i \<in> set (db_inbounds d)" "u \<in> set (db_users d)"
      "ib_ID i = ui_InboundID r" "u_ID u = ui_UserID r" "a = desired_row r i u"
    and n: "ib_NodeID i = n" and act: "u_Status u = UserStatusActive" "ui_SyncStatus r \<noteq> SyncRemoving"
    using assms(2) unfolding desired_for_node_def mem_join_assignments by blast
  obtain r' i' u' where b: "r' \<in> set (db_user_inbounds d)" "i' \<in> set (db_inbounds d)" "u' \<in> set (db_users d)"
      "ib_ID i' = ui_InboundID r'" "u_ID u' = ui_UserID r'" "b = desired_row r' i' u'"
    and n': "ib_NodeID i' = n" and inact: "ui_SyncStatus r' = SyncRemoving \<or> u_Status u' \<noteq> UserStatusActive"
    using assms(3) unfolding removals_for_node_def mem_join_assignments by blast
  have "ib_NodeID i = ib_NodeID i'" using n n' by simp
  from account_row_unique [OF assms(1) a(6,1-5) b(6,1-5) this same] act inact show False by auto
qed

lemma desired_or_removed:
  assumes "wf_db d" and "r \<in> set (db_user_inbounds d)" and "i \<in> set (db_inbounds d)"
    and "ib_ID i = ui_InboundID r" and "ib_NodeID i = n"
  shows "\<exists>a \<in> set (desired_for_node n d) \<union> set (removals_for_node n d).
      assignment_key a = (ui_UserID r, ui_InboundID r)"
proof -
  have "ui_UserID r \<in> user_ids d" using wf_dbD(5) [OF assms(1)] assms(2) by (simp add: wf_user_inbounds_def)
  then obtain u where u: "u \<in> set (db_users d)" "u_ID u = ui_UserID r" by (auto simp: user_ids_def)
  let ?a = "desired_row r i u"
  have "?a \<in> set (desired_for_node n d) \<union> set (removals_for_node n d)"
    unfolding desired_for_node_def removals_for_node_def Un_iff mem_join_assignments
    using assms(2-5) u by blast
  moreover have "assignment_key ?a = (ui_UserID r, ui_InboundID r)"
    by (simp add: assignment_key_def desired_row_def)
  ultimately show ?thesis by blast
qed

text \<open>C11: On a well-formed database the reconciler's two queries split the assignments of a
  node: every assignment of an inbound of the node is in one of them, and no account
  (inbound tag and e-mail) that must be present must also be absent.\<close>

theorem desired_and_removals_partition:
  assumes "wf_db d"
  shows "(\<forall>r \<in> set (db_user_inbounds d). \<forall>i \<in> set (db_inbounds d).
        ib_ID i = ui_InboundID r \<and> ib_NodeID i = nodeID \<longrightarrow>
        (\<exists>a \<in> set (desired_for_node nodeID d) \<union> set (removals_for_node nodeID d).
           assignment_key a = (ui_UserID r, ui_InboundID r)))
    \<and> account_key ` set (desired_for_node nodeID d) \<inter> account_key ` set (removals_for_node nodeID d) = {}"
proof -
  have "\<exists>a \<in> set (desired_for_node nodeID d) \<union> set (removals_for_node nodeID d).
           assignment_key a = (ui_UserID r, ui_InboundID r)"
    if "r \<in> set (db_user_inbounds d)" "i \<in> set (db_inbounds d)" "ib_ID i = ui_InboundID r \<and> ib_NodeID i = nodeID"
    for r i
    using desired_or_removed [OF assms that(1,2)] that(3) by blast
  moreover have "account_key ` set (desired_for_node nodeID d) \<inter> account_key ` set (removals_for_node nodeID d) = {}"
    using desired_removals_disjoint [OF assms] by blast
  ultimately show ?thesis by blast
qed

theorem desired_and_removals_partition_witness:
  "account_key ` set (desired_for_node ''n1'' sample_db) = {(''vless-in'', ''a@x'')}
   \<and> account_key ` set (removals_for_node ''n1'' sample_db) = {(''trojan-in'', ''b@x'')}
   \<and> account_key ` set (desired_for_node ''n1'' sample_db) \<inter> account_key ` set (removals_for_node ''n1'' sample_db) = {}"
proof -
  have "account_key ` set (desired_for_node ''n1'' sample_db) = {(''vless-in'', ''a@x'')}"
    by code_simp
  moreover have "account_key ` set (removals_for_node ''n1'' sample_db) = {(''trojan-in'', ''b@x'')}"
    by code_simp
  ultimately show ?thesis
    using desired_and_removals_partition [OF wf_sample_db, of "''n1''"] by blast
qed

section \<open>Replacing a user's assignments\<close>

definition set_assignments :: "string \<Rightarrow> slice \<Rightarrow> unit stmt" where
  "set_assignments userID inboundIDs =
     seq_stmt (err_stmt mapErr (tombstone_others userID inboundIDs)) (\<lambda>_.
     for_stmt (elems inboundIDs) (\<lambda>ibID. err_stmt mapErr (insert_assignment userID ibID)))"

lemma SetAssignmentsForUserTx_refines [ref]:
  "refines (SetAssignmentsForUserTx userID ids) (set_assignments userID ids)"
  unfolding SetAssignmentsForUserTx_def set_assignments_def by (intro ref)

lemma exists_assignment:
  "(\<exists>r \<in> set (db_user_inbounds d). is_assignment uid iid r) \<longleftrightarrow> find_assignment uid iid d \<noteq> None"
  unfolding find_assignment_def find_None_iff by blast

lemma find_assignment_insert:
  assumes "insert_assignment userID inboundID now d = Inr (u, d')"
  shows "find_assignment uid iid d' = (if (uid, iid) = (userID, inboundID) \<and> find_assignment uid iid d = None
     then Some (new_assignment userID inboundID) else find_assignment uid iid d)"
proof (cases "find_assignment userID inboundID d = None")
  case False
  with assms show ?thesis by (auto simp: insert_assignment_def exists_assignment)
next
  case True
  with assms have "d' = d\<lparr>db_user_inbounds := db_user_inbounds d @ [new_assignment userID inboundID]\<rparr>"
    by (auto simp: insert_assignment_def exists_assignment split: if_splits)
  moreover have "is_assignment uid iid (new_assignment userID inboundID) \<longleftrightarrow> (uid, iid) = (userID, inboundID)"
    by (auto simp: is_assignment_def new_assignment_def)
  ultimately show ?thesis
    using True by (auto simp: find_assignment_def find_append_single split: option.splits)
qed

lemma find_update_where:
  "(\<And>r. Q (f r) = Q r) \<Longrightarrow> find Q (update_rows P f rs) = map_option (\<lambda>r. if P r then f r else r) (find Q rs)"
  by (induction rs) auto

lemma find_assignment_tombstone:
  assumes "tombstone_others userID ids now d = Inr (u, d')"
  shows "find_assignment uid iid d' = map_option (\<lambda>r. if uid = userID \<and> differs_from_all iid ids
     then r\<lparr>ui_SyncStatus := SyncRemoving\<rparr> else r) (find_assignment uid iid d)"
proof -
  have d': "d' = d\<lparr>db_user_inbounds := update_rows (\<lambda>r. ui_UserID r = userID \<and> differs_from_all (ui_InboundID r) ids)
      (\<lambda>r. r\<lparr>ui_SyncStatus := SyncRemoving\<rparr>) (db_user_inbounds d)\<rparr>"
    using assms by (simp add: tombstone_others_def touch_assignments_def)
  have "find_assignment uid iid d' = map_option (\<lambda>r. if ui_UserID r = userID \<and> differs_from_all (ui_InboundID r) ids
      then r\<lparr>ui_SyncStatus := SyncRemoving\<rparr> else r) (find_assignment uid iid d)"
    unfolding find_assignment_def d' by (simp add: find_update_where is_assignment_def)
  moreover have "ui_UserID r = uid \<and> ui_InboundID r = iid" if "find_assignment uid iid d = Some r" for r
    using that by (auto simp: find_assignment_def is_assignment_def dest: find_SomeD)
  ultimately show ?thesis by (cases "find_assignment uid iid d") auto
qed

text \<open>The assignment a row becomes when the user's inbounds are replaced by \<open>ids\<close>.\<close>

definition replaced :: "string \<Rightarrow> slice \<Rightarrow> string \<Rightarrow> string \<Rightarrow> user_inbound option \<Rightarrow> user_inbound option" where
  "replaced userID ids uid iid old = (if uid \<noteq> userID then old else case old of
      None \<Rightarrow> if iid \<in> set (elems ids) then Some (new_assignment userID iid) else None
    | Some r \<Rightarrow> Some (if differs_from_all iid ids then r\<lparr>ui_SyncStatus := SyncRemoving\<rparr> else r))"

lemma find_assignment_set:
  assumes "set_assignments userID ids now d = Inr (u, d')"
  shows "find_assignment uid iid d' = replaced userID ids uid iid (find_assignment uid iid d)"
proof -
  obtain d1 where tomb: "tombstone_others userID ids now d = Inr ((), d1)"
    and loop: "for_stmt (elems ids) (\<lambda>ibID. err_stmt mapErr (insert_assignment userID ibID)) now d1 = Inr (u, d')"
    using assms by (auto simp: set_assignments_def seq_stmt_Inr)
  have "find_assignment uid iid d' = (if uid = userID \<and> iid \<in> set (elems ids) \<and> find_assignment uid iid d1 = None
      then Some (new_assignment userID iid) else find_assignment uid iid d1)"
    by (rule for_stmt_induct [OF loop, where P = "\<lambda>bs e. find_assignment uid iid e =
        (if uid = userID \<and> iid \<in> set bs \<and> find_assignment uid iid d1 = None
         then Some (new_assignment userID iid) else find_assignment uid iid d1)"])
      (auto dest!: find_assignment_insert [where uid = uid and iid = iid])
  then show ?thesis
    unfolding find_assignment_tombstone [OF tomb] replaced_def
    by (cases "find_assignment uid iid d") auto
qed

end
