(* ===== verification/Xray.thy ===== *)
theory Xray
  imports World
begin

text \<open>
  \<open>internal/xray\<close>: the boundary to the nodes. Xray-core, the gRPC library and the X.509
  parser are not part of this repository; they are the fields of \<open>xray_api\<close>, an argument
  of every function that uses them. What the source relies on is stated as a predicate
  where a theorem needs it.

  Errors of this package only ever reach a log or a \<open>last_error\<close> column; \<open>xerr\<close> keeps
  their structure and \<open>xerr_Error\<close> is the text.
\<close>

section \<open>Accounts\<close>

record account =
  acc_Protocol :: string
  acc_Email :: string
  acc_UUID :: string
  acc_Password :: string
  acc_Flow :: string
  acc_Method :: string

datatype cipher_type =
  CipherAES128GCM | CipherAES256GCM | CipherCHACHA20 | CipherXCHACHA20 | CipherNONE

datatype proto_account =
    VlessAccount string string
  | VmessAccount string
  | TrojanAccount string
  | ShadowsocksAccount string cipher_type

record proto_user =
  pu_Email :: string
  pu_Level :: nat
  pu_Account :: proto_account

datatype xerr =
    UnsupportedProtocol string
  | UnsupportedMethod string
  | AlterInboundErr string
  | SysStatsErr string
  | QueryStatsErr string
  | DialErr string string
  | CACertErr
  | CertKeyMissing
  | CertKeyErr string

text \<open>\<open>%q\<close> for ASCII text; bytes above 127 are kept.\<close>

definition quote_char :: "char \<Rightarrow> string" where
  "quote_char c = (let n = (of_char c :: nat) in
     if n = 34 \<or> n = 92 then [CHR 0x5C, c]
     else if n = 7 then CHR 0x5C # ''a'' else if n = 8 then CHR 0x5C # ''b''
     else if n = 12 then CHR 0x5C # ''f'' else if n = 10 then CHR 0x5C # ''n''
     else if n = 13 then CHR 0x5C # ''r'' else if n = 9 then CHR 0x5C # ''t''
     else if n = 11 then CHR 0x5C # ''v''
     else if n < 32 \<or> n = 127 then [CHR 0x5C, CHR ''x'', hex_digit (n div 16), hex_digit n]
     else [c])"

definition quote :: "string \<Rightarrow> string" where
  "quote s = [CHR 0x22] @ concat (map quote_char s) @ [CHR 0x22]"

fun xerr_Error :: "xerr \<Rightarrow> string" where
  "xerr_Error (UnsupportedProtocol p) = ''unsupported protocol '' @ quote p"
| "xerr_Error (UnsupportedMethod m) = ''unsupported shadowsocks method '' @ quote m"
| "xerr_Error (AlterInboundErr e) = ''alter inbound: '' @ e"
| "xerr_Error (SysStatsErr e) = ''get sys stats: '' @ e"
| "xerr_Error (QueryStatsErr e) = ''query stats: '' @ e"
| "xerr_Error (DialErr target e) = ''dial '' @ target @ '': '' @ e"
| "xerr_Error CACertErr = ''ca_cert: no valid certificate found in PEM''"
| "xerr_Error CertKeyMissing = ''client cert and key must be provided together''"
| "xerr_Error (CertKeyErr e) = ''client cert/key: '' @ e"

definition shadowsocksCipher :: "string \<Rightarrow> xerr + cipher_type" where
  "shadowsocksCipher method =
     (if method \<in> {''aes-128-gcm'', ''aead_aes_128_gcm''} then Inr CipherAES128GCM
      else if method \<in> {''aes-256-gcm'', ''aead_aes_256_gcm''} then Inr CipherAES256GCM
      else if method \<in> {''chacha20-ietf-poly1305'', ''chacha20-poly1305'', ''aead_chacha20_poly1305''}
        then Inr CipherCHACHA20
      else if method \<in> {''xchacha20-ietf-poly1305'', ''xchacha20-poly1305'', ''aead_xchacha20_poly1305''}
        then Inr CipherXCHACHA20
      else if method \<in> {''none'', ''plain''} then Inr CipherNONE
      else Inl (UnsupportedMethod method))"

definition buildUser :: "account \<Rightarrow> xerr + proto_user" where
  "buildUser acc = (let user = (\<lambda>a. Inr \<lparr>pu_Email = acc_Email acc, pu_Level = 0, pu_Account = a\<rparr>) in
     if acc_Protocol acc = ''vless'' then user (VlessAccount (acc_UUID acc) (acc_Flow acc))
     else if acc_Protocol acc = ''vmess'' then user (VmessAccount (acc_UUID acc))
     else if acc_Protocol acc = ''trojan'' then user (TrojanAccount (acc_Password acc))
     else if acc_Protocol acc = ''shadowsocks'' then (case shadowsocksCipher (acc_Method acc) of
         Inl e \<Rightarrow> Inl e | Inr c \<Rightarrow> user (ShadowsocksAccount (acc_Password acc) c))
     else Inl (UnsupportedProtocol (acc_Protocol acc)))"

section \<open>The remote API\<close>

record 'x xray_api =
  x_NewClient :: "string \<Rightarrow> string option"
  x_AppendCertsFromPEM :: "string \<Rightarrow> bool"
  x_X509KeyPair :: "string \<Rightarrow> string \<Rightarrow> string option"
  x_AlterAdd :: "dial_options \<Rightarrow> string \<Rightarrow> proto_user \<Rightarrow> 'x \<Rightarrow> string option \<times> 'x"
  x_AlterRemove :: "dial_options \<Rightarrow> string \<Rightarrow> string \<Rightarrow> 'x \<Rightarrow> string option \<times> 'x"
  x_GetSysStats :: "dial_options \<Rightarrow> 'x \<Rightarrow> (string + uint32) \<times> 'x"
  x_QueryStats :: "dial_options \<Rightarrow> string \<Rightarrow> bool \<Rightarrow> 'x \<Rightarrow> (string + (string \<times> int64) list) \<times> 'x"

text \<open>\<open>%d\<close> and \<open>strconv.Itoa\<close>\<close>

function digits :: "int \<Rightarrow> string" where
  "digits n = (if n < 10 then [char_of (48 + n)] else digits (n div 10) @ [char_of (48 + n mod 10)])"
  by pat_completeness auto
termination
  by (relation "measure nat") auto

declare digits.simps [simp del]

definition Itoa :: "int \<Rightarrow> string" where
  "Itoa n = (if n < 0 then ''-'' @ digits (- n) else digits n)"

definition target :: "dial_options \<Rightarrow> string" where
  "target opts = do_Address opts @ '':'' @ Itoa (do_Port opts)"

definition buildTLSConfig :: "'x xray_api \<Rightarrow> dial_options \<Rightarrow> xerr + unit" where
  "buildTLSConfig X opts =
     (if do_CACertPEM opts \<noteq> '''' \<and> \<not> x_AppendCertsFromPEM X (do_CACertPEM opts) then Inl CACertErr
      else if do_ClientCertPEM opts \<noteq> '''' \<or> do_ClientKeyPEM opts \<noteq> '''' then
        if do_ClientCertPEM opts = '''' \<or> do_ClientKeyPEM opts = '''' then Inl CertKeyMissing
        else (case x_X509KeyPair X (do_ClientCertPEM opts) (do_ClientKeyPEM opts) of
            Some e \<Rightarrow> Inl (CertKeyErr e) | None \<Rightarrow> Inr ())
      else Inr ())"

definition ValidateTLSMaterial :: "'x xray_api \<Rightarrow> string \<Rightarrow> string \<Rightarrow> string \<Rightarrow> xerr + unit" where
  "ValidateTLSMaterial X caPEM clientCertPEM clientKeyPEM =
     buildTLSConfig X \<lparr>do_Address = '''', do_Port = 0, do_TLS = True, do_TLSServerName = '''',
       do_TLSInsecure = False, do_CACertPEM = caPEM, do_ClientCertPEM = clientCertPEM,
       do_ClientKeyPEM = clientKeyPEM\<rparr>"

definition Dial :: "'x xray_api \<Rightarrow> dial_options \<Rightarrow> xerr + dial_options" where
  "Dial X opts = (case (if do_TLS opts then buildTLSConfig X opts else Inr ()) of
      Inl e \<Rightarrow> Inl e
    | Inr _ \<Rightarrow> (case x_NewClient X (target opts) of
          Some e \<Rightarrow> Inl (DialErr (target opts) e) | None \<Rightarrow> Inr opts))"

text \<open>A call on the remote state behind a connection.\<close>

definition remote_call :: "dial_options \<Rightarrow> ('x \<Rightarrow> 'r \<times> 'x) \<Rightarrow> 'x world \<Rightarrow> 'r \<times> 'x world" where
  "remote_call c f w = (case f (w_remote w (target c)) of
     (r, x) \<Rightarrow> (r, w\<lparr>w_remote := (w_remote w)(target c := x)\<rparr>))"

datatype alter_op = OpAdd | OpRemove

definition mapAlterErr :: "string option \<Rightarrow> alter_op \<Rightarrow> xerr option" where
  "mapAlterErr err op = (case err of None \<Rightarrow> None
    | Some e \<Rightarrow> (let msg = ToLower e in
        case op of
          OpAdd \<Rightarrow> if Contains msg ''already exists'' then None else Some (AlterInboundErr e)
        | OpRemove \<Rightarrow> if Contains msg ''not found'' \<or> Contains msg ''not exist'' then None
            else Some (AlterInboundErr e)))"

definition AddUser :: "'x xray_api \<Rightarrow> dial_options \<Rightarrow> string \<Rightarrow> account \<Rightarrow> 'x world \<Rightarrow> xerr option \<times> 'x world" where
  "AddUser X c inboundTag acc w = (case buildUser acc of
      Inl e \<Rightarrow> (Some e, w)
    | Inr user \<Rightarrow> (case remote_call c (x_AlterAdd X c inboundTag user) w of
          (err, w') \<Rightarrow> (mapAlterErr err OpAdd, w')))"

definition RemoveUser :: "'x xray_api \<Rightarrow> dial_options \<Rightarrow> string \<Rightarrow> string \<Rightarrow> 'x world \<Rightarrow> xerr option \<times> 'x world" where
  "RemoveUser X c inboundTag email w =
     (case remote_call c (x_AlterRemove X c inboundTag email) w of
        (err, w') \<Rightarrow> (mapAlterErr err OpRemove, w'))"

definition Ping :: "'x xray_api \<Rightarrow> dial_options \<Rightarrow> 'x world \<Rightarrow> (xerr + uint32) \<times> 'x world" where
  "Ping X c w = (case remote_call c (x_GetSysStats X c) w of
      (Inl e, w') \<Rightarrow> (Inl (SysStatsErr e), w') | (Inr up, w') \<Rightarrow> (Inr up, w'))"

section \<open>Traffic counters\<close>

text \<open>\<open>strings.LastIndex\<close>\<close>

definition LastIndex :: "string \<Rightarrow> string \<Rightarrow> nat option" where
  "LastIndex s sub = find (\<lambda>i. HasPrefix (drop i s) sub) (rev [0 ..< Suc (length s)])"

definition stat_prefix :: string where "stat_prefix = ''user>>>''"
definition stat_mid :: string where "stat_mid = ''>>>traffic>>>''"

definition parseUserStatName :: "string \<Rightarrow> (string \<times> string) option" where
  "parseUserStatName name =
     (if \<not> HasPrefix name stat_prefix then None
      else let rest = drop (length stat_prefix) name in
        case LastIndex rest stat_mid of None \<Rightarrow> None
        | Some i \<Rightarrow> (let email = take i rest; dir = drop (i + length stat_mid) rest in
            if email = '''' \<or> (dir \<noteq> ''uplink'' \<and> dir \<noteq> ''downlink'') then None
            else Some (email, dir)))"

text \<open>The loop over the counters; the map \<open>byEmail\<close> keeps its entries in insertion order.\<close>

definition add_stat :: "string \<Rightarrow> string \<Rightarrow> int64 \<Rightarrow> user_traffic list \<Rightarrow> user_traffic list" where
  "add_stat email dir v uts =
     (let bump = (\<lambda>ut. if dir = ''uplink'' then ut\<lparr>ut_Uplink := ut_Uplink ut + v\<rparr>
            else ut\<lparr>ut_Downlink := ut_Downlink ut + v\<rparr>) in
      if email \<in> ut_Email ` set uts then map (\<lambda>ut. if ut_Email ut = email then bump ut else ut) uts
      else uts @ [bump \<lparr>ut_Email = email, ut_Uplink = 0, ut_Downlink = 0\<rparr>])"

fun group_stats :: "(string \<times> int64) list \<Rightarrow> user_traffic list \<Rightarrow> user_traffic list" where
  "group_stats [] uts = uts"
| "group_stats ((name, v) # sts) uts = group_stats sts (case parseUserStatName name of
      None \<Rightarrow> uts | Some (email, dir) \<Rightarrow> add_stat email dir v uts)"

definition QueryUserTraffic :: "'x xray_api \<Rightarrow> dial_options \<Rightarrow> bool \<Rightarrow> 'x world
    \<Rightarrow> (xerr + user_traffic list) \<times> 'x world" where
  "QueryUserTraffic X c reset w = (case remote_call c (x_QueryStats X c ''user>>>'' reset) w of
      (Inl e, w') \<Rightarrow> (Inl (QueryStatsErr e), w')
    | (Inr stats, w') \<Rightarrow> (Inr (group_stats stats []), w'))"

section \<open>Counter names\<close>

lemma LastIndex_Some:
  "LastIndex s sub = Some i \<longleftrightarrow> i \<le> length s \<and> HasPrefix (drop i s) sub
     \<and> (\<forall>j. i < j \<and> j \<le> length s \<longrightarrow> \<not> HasPrefix (drop j s) sub)"
proof -
  have "find P (rev [0 ..< Suc n]) = Some i \<longleftrightarrow> i \<le> n \<and> P i \<and> (\<forall>j. i < j \<and> j \<le> n \<longrightarrow> \<not> P j)" for P n
    by (induction n) (auto simp: le_Suc_eq)
  then show ?thesis unfolding LastIndex_def .
qed

lemma HasPrefix_nth: "HasPrefix s p \<Longrightarrow> k < length p \<Longrightarrow> k < length s \<and> s ! k = p ! k"
  by (auto simp: HasPrefix_iff nth_append)

lemma stat_mid_last: "length stat_mid = 13" "stat_mid ! 12 = CHR ''>''"
  by (simp_all add: stat_mid_def)

text \<open>A direction holds no \<open>'>'\<close>, so the last separator is the one in front of it.\<close>

lemma LastIndex_stat:
  assumes "CHR ''>'' \<notin> set dir"
  shows "LastIndex (email @ stat_mid @ dir) stat_mid = Some (length email)"
  unfolding LastIndex_Some
proof (intro conjI allI impI)
  fix j assume j: "length email < j \<and> j \<le> length (email @ stat_mid @ dir)"
  show "\<not> HasPrefix (drop j (email @ stat_mid @ dir)) stat_mid"
  proof
    assume pre: "HasPrefix (drop j (email @ stat_mid @ dir)) stat_mid"
    define s where "s = email @ stat_mid @ dir"
    have "12 < length (drop j s)" "drop j s ! 12 = CHR ''>''"
      using HasPrefix_nth [OF pre [folded s_def], of 12] by (simp_all add: stat_mid_last)
    then have "j + 12 < length s" "s ! (j + 12) = CHR ''>''" by simp_all
    with j have "dir ! (j + 12 - length email - 13) = CHR ''>''" "j + 12 - length email - 13 < length dir"
      by (auto simp: s_def nth_append stat_mid_last split: if_splits)
    with assms show False by (metis nth_mem)
  qed
qed simp_all

lemma parseUserStatName_Some:
  "parseUserStatName name = Some (email, dir) \<longleftrightarrow>
     name = stat_prefix @ email @ stat_mid @ dir \<and> email \<noteq> '''' \<and> dir \<in> {''uplink'', ''downlink''}"
proof
  assume "parseUserStatName name = Some (email, dir)"
  then obtain i where pre: "HasPrefix name stat_prefix"
    and i: "LastIndex (drop (length stat_prefix) name) stat_mid = Some i"
    and email: "email = take i (drop (length stat_prefix) name)"
    and dir: "dir = drop (i + length stat_mid) (drop (length stat_prefix) name)"
    and ok: "email \<noteq> ''''" "dir \<in> {''uplink'', ''downlink''}"
    unfolding parseUserStatName_def Let_def by (auto split: if_splits option.splits)
  obtain rest where name: "name = stat_prefix @ rest" using pre by (auto simp: HasPrefix_iff)
  then have rest: "drop (length stat_prefix) name = rest" by simp
  obtain t where t: "drop i rest = stat_mid @ t" using i rest by (auto simp: LastIndex_Some HasPrefix_iff)
  then have "t = drop (i + length stat_mid) rest" by (metis add.commute append_eq_conv_conj drop_drop)
  with t dir email rest have "rest = email @ stat_mid @ dir" by (metis append_take_drop_id)
  with name ok show "name = stat_prefix @ email @ stat_mid @ dir \<and> email \<noteq> '''' \<and> dir \<in> {''uplink'', ''downlink''}"
    by simp
next
  assume rhs: "name = stat_prefix @ email @ stat_mid @ dir \<and> email \<noteq> '''' \<and> dir \<in> {''uplink'', ''downlink''}"
  then have "CHR ''>'' \<notin> set dir" by auto
  then have "LastIndex (email @ stat_mid @ dir) stat_mid = Some (length email)" by (rule LastIndex_stat)
  with rhs show "parseUserStatName name = Some (email, dir)"
    by (auto simp: parseUserStatName_def Let_def)
qed

section \<open>Grouping by e-mail\<close>

definition stat_sum :: "string \<Rightarrow> string \<Rightarrow> (string \<times> int64) list \<Rightarrow> int64" where
  "stat_sum email dir stats = sum_list (map snd (filter (\<lambda>st. parseUserStatName (fst st) = Some (email, dir)) stats))"

definition traffic_entry :: "string \<Rightarrow> user_traffic list \<Rightarrow> user_traffic option" where
  "traffic_entry email uts = find (\<lambda>ut. ut_Email ut = email) uts"

lemma add_stat_distinct: "distinct (map ut_Email uts) \<Longrightarrow> distinct (map ut_Email (add_stat email dir v uts))"
proof -
  assume d: "distinct (map ut_Email uts)"
  have "map ut_Email (map (\<lambda>ut. if ut_Email ut = email then if dir = ''uplink'' then ut\<lparr>ut_Uplink := ut_Uplink ut + v\<rparr>
            else ut\<lparr>ut_Downlink := ut_Downlink ut + v\<rparr> else ut) uts) = map ut_Email uts"
    by simp
  with d show ?thesis by (simp add: add_stat_def Let_def del: map_map)
qed

definition up_at :: "string \<Rightarrow> user_traffic list \<Rightarrow> int64" where
  "up_at email uts = (case traffic_entry email uts of None \<Rightarrow> 0 | Some ut \<Rightarrow> ut_Uplink ut)"

definition down_at :: "string \<Rightarrow> user_traffic list \<Rightarrow> int64" where
  "down_at email uts = (case traffic_entry email uts of None \<Rightarrow> 0 | Some ut \<Rightarrow> ut_Downlink ut)"

lemma find_map_other:
  "(\<And>r. key (f r) = key r) \<Longrightarrow> find (\<lambda>r. key r = k) (map f rs) = map_option f (find (\<lambda>r. key r = k) rs)"
  by (induction rs) auto

lemma traffic_entry_None: "traffic_entry email uts = None \<longleftrightarrow> email \<notin> ut_Email ` set uts"
  by (auto simp: traffic_entry_def find_None_iff)

lemma traffic_entry_email: "traffic_entry email uts = Some ut \<Longrightarrow> ut_Email ut = email"
  by (auto simp: traffic_entry_def find_Some_iff)

lemma traffic_entry_append: "traffic_entry e (uts @ [ut]) = (case traffic_entry e uts of
    None \<Rightarrow> if ut_Email ut = e then Some ut else None | Some x \<Rightarrow> Some x)"
  unfolding traffic_entry_def by (induction uts) auto

lemma add_stat_entry:
  "traffic_entry e (add_stat email dir v uts) = (if e = email
     then Some (let ut = (case traffic_entry e uts of None \<Rightarrow> \<lparr>ut_Email = e, ut_Uplink = 0, ut_Downlink = 0\<rparr> | Some ut \<Rightarrow> ut)
       in if dir = ''uplink'' then ut\<lparr>ut_Uplink := ut_Uplink ut + v\<rparr> else ut\<lparr>ut_Downlink := ut_Downlink ut + v\<rparr>)
     else traffic_entry e uts)"
proof (cases "email \<in> ut_Email ` set uts")
  case True
  let ?f = "\<lambda>ut. if ut_Email ut = email then if dir = ''uplink'' then ut\<lparr>ut_Uplink := ut_Uplink ut + v\<rparr>
            else ut\<lparr>ut_Downlink := ut_Downlink ut + v\<rparr> else ut"
  have "traffic_entry e (map ?f uts) = map_option ?f (traffic_entry e uts)"
    unfolding traffic_entry_def by (rule find_map_other) simp
  moreover have "traffic_entry email uts \<noteq> None" using True by (simp add: traffic_entry_None)
  ultimately show ?thesis
    using True traffic_entry_email [of e uts]
    by (cases "traffic_entry e uts") (auto simp: add_stat_def Let_def)
next
  case False
  then have "traffic_entry email uts = None" by (simp add: traffic_entry_None)
  with False show ?thesis
    by (auto simp: add_stat_def Let_def traffic_entry_append split: option.splits)
qed

lemma add_stat_at:
  "up_at e (add_stat email dir v uts) = up_at e uts + (if e = email \<and> dir = ''uplink'' then v else 0)"
  "down_at e (add_stat email dir v uts) = down_at e uts + (if e = email \<and> dir \<noteq> ''uplink'' then v else 0)"
  by (simp_all add: up_at_def down_at_def add_stat_entry Let_def split: option.splits)

lemma group_stats_up: "up_at e (group_stats stats uts) = up_at e uts + stat_sum e ''uplink'' stats"
  by (induction stats uts rule: group_stats.induct)
    (auto simp: stat_sum_def add_stat_at split: option.splits prod.splits)

lemma parsed_direction: "parseUserStatName name = Some (em, dir) \<Longrightarrow> dir \<noteq> ''uplink'' \<longleftrightarrow> dir = ''downlink''"
  by (auto simp: parseUserStatName_Some)

lemma group_stats_down: "down_at e (group_stats stats uts) = down_at e uts + stat_sum e ''downlink'' stats"
  by (induction stats uts rule: group_stats.induct)
    (auto simp: stat_sum_def add_stat_at parsed_direction split: option.splits prod.splits)

lemma group_stats_distinct:
  "distinct (map ut_Email uts) \<Longrightarrow> distinct (map ut_Email (group_stats stats uts))"
  by (induction stats uts rule: group_stats.induct)
    (auto simp: add_stat_distinct split: option.splits prod.splits)

section \<open>Properties\<close>

text \<open>C17: Counter names round-trip: \<open>parseUserStatName\<close> recovers e-mail and direction from
  exactly the names \<open>user>>>email>>>traffic>>>direction\<close> with a non-empty e-mail and one of
  the two directions, also when the e-mail itself contains the separators.\<close>

theorem parseUserStatName_roundtrip:
  "parseUserStatName name = Some (email, dir) \<longleftrightarrow>
     name = stat_prefix @ email @ stat_mid @ dir \<and> email \<noteq> '''' \<and> dir \<in> {''uplink'', ''downlink''}"
  by (rule parseUserStatName_Some)

text \<open>C18: \<open>QueryUserTraffic\<close> groups the node's answer by e-mail: at most one entry per e-mail,
  whose counters are the sums of the values of the counters of that user and direction,
  wrapping at 64 bits; counters with other names count for nobody.\<close>

theorem QueryUserTraffic_groups:
  assumes "x_QueryStats X c ''user>>>'' reset (w_remote w (target c)) = (Inr stats, x)"
  shows "\<exists>uts. fst (QueryUserTraffic X c reset w) = Inr uts \<and> distinct (map ut_Email uts)
    \<and> up_at email uts = stat_sum email ''uplink'' stats \<and> down_at email uts = stat_sum email ''downlink'' stats"
proof -
  have "up_at email [] = 0" "down_at email [] = 0" by (simp_all add: up_at_def down_at_def traffic_entry_def)
  with assms group_stats_up [of email stats "[]"] group_stats_down [of email stats "[]"] group_stats_distinct [of "[]" stats]
  show ?thesis by (simp add: QueryUserTraffic_def remote_call_def)
qed

end
