(* ===== verification/Worker.thy ===== *)
theory Worker
  imports Store_Assignments Xray
begin

text \<open>
  \<open>internal/worker\<close>: the manager and its node actors. An actor's methods run in its own
  goroutine; they are functions on worlds that read and write the actor object at their
  address. They return nothing: errors are logged, and kept where the source keeps them.
  Logging and metrics have no effect on the state and are left out.
\<close>

section \<open>Actor objects\<close>

definition getA :: "nat \<Rightarrow> ('x, actor) io" where
  "getA k = getW (\<lambda>w. w_heap w k)"

definition updA :: "nat \<Rightarrow> (actor \<Rightarrow> actor) \<Rightarrow> ('x, unit) io" where
  "updA k f = modifyW (\<lambda>w. w\<lparr>w_heap := (w_heap w)(k := f (w_heap w k))\<rparr>)"

text \<open>A call of the Xray client, whose error is a result.\<close>

definition callX :: "('x world \<Rightarrow> 'r \<times> 'x world) \<Rightarrow> ('x, 'r) io" where
  "callX f = (\<lambda>w. case f w of (r, w') \<Rightarrow> (Inr r, w'))"

definition newNodeActor :: "node \<Rightarrow> actor" where
  "newNodeActor n = \<lparr>a_node = n, a_reconcileCh = False, a_stopCh = False, a_client = None,
     a_failCount = 0, a_online = False, a_lastUptime = 0, a_pendingDeltas = [], a_running = True\<rparr>"

definition triggerReconcile :: "nat \<Rightarrow> ('x, unit) io" where
  "triggerReconcile k = updA k (\<lambda>a. a\<lparr>a_reconcileCh := True\<rparr>)"

definition actor_stop :: "nat \<Rightarrow> ('x, unit) io" where
  "actor_stop k = updA k (\<lambda>a. a\<lparr>a_stopCh := True\<rparr>)"

definition actor_close :: "nat \<Rightarrow> ('x, unit) io" where
  "actor_close k = updA k (\<lambda>a. a\<lparr>a_client := None\<rparr>)"

definition dropClient :: "nat \<Rightarrow> ('x, unit) io" where
  "dropClient k = updA k (\<lambda>a. a\<lparr>a_client := None\<rparr>)"

section \<open>The manager\<close>

definition DefaultDial :: "'x xray_api \<Rightarrow> node \<Rightarrow> xerr + dial_options" where
  "DefaultDial X n = Dial X \<lparr>do_Address = n_APIAddress n, do_Port = n_APIPort n, do_TLS = n_APITLS n,
     do_TLSServerName = n_APITLSServerName n, do_TLSInsecure = n_APITLSInsecure n,
     do_CACertPEM = n_APICACert n, do_ClientCertPEM = n_APIClientCert n, do_ClientKeyPEM = n_APIClientKey n\<rparr>"

definition Reconcile :: "string \<Rightarrow> ('x, unit) io" where
  "Reconcile nodeID = bindE (getW (\<lambda>w. w_actors w nodeID)) (\<lambda>a. case a of
     None \<Rightarrow> ret () | Some k \<Rightarrow> triggerReconcile k)"

text \<open>The loop over the targets triggers each node once, at its first target.\<close>

fun reconcile_targets :: "string list \<Rightarrow> string set \<Rightarrow> ('x, unit) io" where
  "reconcile_targets [] seen = ret ()"
| "reconcile_targets (n # ns) seen = (if n \<in> seen then reconcile_targets ns seen
     else bindE (Reconcile n) (\<lambda>_. reconcile_targets ns (insert n seen)))"

definition ReconcileForUser :: "string \<Rightarrow> ('x, unit) io" where
  "ReconcileForUser userID = bindE (attempt (AssignmentTargetsForUser userID)) (\<lambda>r. case r of
      Inl e \<Rightarrow> ret ()
    | Inr targets \<Rightarrow> reconcile_targets (map da_NodeID targets) {})"

text \<open>The new actor is an object at a fresh address; its goroutine starts with \<open>run\<close>.\<close>

definition new_actor :: "node \<Rightarrow> ('x, nat) io" where
  "new_actor n = (\<lambda>w. (Inr (w_next w), w\<lparr>w_heap := (w_heap w)(w_next w := newNodeActor n),
     w_actors := (w_actors w)(n_ID n \<mapsto> w_next w), w_next := Suc (w_next w)\<rparr>))"

definition StopNode :: "string \<Rightarrow> ('x, unit) io" where
  "StopNode nodeID = bindE (getW (\<lambda>w. w_actors w nodeID)) (\<lambda>a. case a of
      None \<Rightarrow> ret ()
    | Some k \<Rightarrow> bindE (actor_stop k) (\<lambda>_.
        modifyW (\<lambda>w. w\<lparr>w_actors := (w_actors w)(nodeID := None)\<rparr>)))"

definition StartNode :: "node \<Rightarrow> ('x, unit) io" where
  "StartNode n = bindE (getW (\<lambda>w. w_actors w (n_ID n))) (\<lambda>a.
     bindE (case a of
        None \<Rightarrow> ret ()
      | Some k \<Rightarrow> bindE (actor_stop k) (\<lambda>_.
          modifyW (\<lambda>w. w\<lparr>w_actors := (w_actors w)(n_ID n := None)\<rparr>))) (\<lambda>_.
     bindE (new_actor n) (\<lambda>_. ret ())))"

text \<open>\<open>Start\<close> without the two sweeper goroutines, whose passes are below.\<close>

definition Start :: "('x, unit) io" where
  "Start = bindE ListNodes (\<lambda>nodes. forEach nodes (\<lambda>n.
     if n_Status n \<noteq> NodeStatusDisabled then StartNode n else ret ()))"

section \<open>Reconciling\<close>

text \<open>\<open>ensureClient\<close> dials lazily and reuses the connection.\<close>

definition ensureClient :: "'x xray_api \<Rightarrow> nat \<Rightarrow> ('x, xerr + dial_options) io" where
  "ensureClient X k = bindE (getA k) (\<lambda>a. case a_client a of
      Some c \<Rightarrow> ret (Inr c)
    | None \<Rightarrow> (case DefaultDial X (a_node a) of
          Inl e \<Rightarrow> ret (Inl e)
        | Inr c \<Rightarrow> bindE (updA k (\<lambda>a. a\<lparr>a_client := Some c\<rparr>)) (\<lambda>_. ret (Inr c))))"

definition accountFor :: "desired_assignment \<Rightarrow> account" where
  "accountFor d = \<lparr>acc_Protocol = da_Protocol d, acc_Email = da_Email d, acc_UUID = da_UUID d,
     acc_Password = da_TrojanPass d, acc_Flow = da_Flow d, acc_Method = da_Method d\<rparr>"

text \<open>The two loops of \<open>reconcile\<close>; the result tells whether the loop ran to its end.\<close>

fun remove_all :: "'x xray_api \<Rightarrow> nat \<Rightarrow> dial_options \<Rightarrow> desired_assignment list \<Rightarrow> ('x, bool) io" where
  "remove_all X k c [] = ret True"
| "remove_all X k c (d # ds) =
     bindE (callX (RemoveUser X c (da_InboundTag d) (da_Email d))) (\<lambda>err. case err of
        Some e \<Rightarrow> bindE (dropClient k) (\<lambda>_. ret False)
      | None \<Rightarrow> bindE (if da_SyncStatus d = SyncRemoving
            then bindE (attempt (DeleteAssignment (da_UserID d) (da_InboundID d))) (\<lambda>_. ret ())
            else ret ()) (\<lambda>_. remove_all X k c ds))"

fun add_all :: "'x xray_api \<Rightarrow> nat \<Rightarrow> dial_options \<Rightarrow> desired_assignment list \<Rightarrow> ('x, bool) io" where
  "add_all X k c [] = ret True"
| "add_all X k c (d # ds) =
     bindE (callX (AddUser X c (da_InboundTag d) (accountFor d))) (\<lambda>err. case err of
        Some e \<Rightarrow> bindE (attempt (MarkAssignmentSynced (da_UserID d) (da_InboundID d) SyncFailed (xerr_Error e))) (\<lambda>_.
          bindE (dropClient k) (\<lambda>_. ret False))
      | None \<Rightarrow> bindE (if da_SyncStatus d \<noteq> SyncApplied
            then bindE (attempt (MarkAssignmentSynced (da_UserID d) (da_InboundID d) SyncApplied '''')) (\<lambda>_. ret ())
            else ret ()) (\<lambda>_. add_all X k c ds))"

definition reconcile :: "'x xray_api \<Rightarrow> nat \<Rightarrow> ('x, unit) io" where
  "reconcile X k = bindE (ensureClient X k) (\<lambda>r. case r of
      Inl e \<Rightarrow> ret ()
    | Inr c \<Rightarrow> bindE (getA k) (\<lambda>a.
        bindE (attempt (RemovalsForNode (n_ID (a_node a)))) (\<lambda>r. case r of
          Inl e \<Rightarrow> ret ()
        | Inr removals \<Rightarrow> bindE (remove_all X k c removals) (\<lambda>done.
            if \<not> done then ret ()
            else bindE (attempt (DesiredForNode (n_ID (a_node a)))) (\<lambda>r. case r of
                Inl e \<Rightarrow> ret ()
              | Inr desired \<Rightarrow> bindE (add_all X k c desired) (\<lambda>_. ret ()))))))"

section \<open>Health\<close>

definition healthFailThreshold :: nat where
  "healthFailThreshold = 3"

definition setHealth :: "nat \<Rightarrow> NodeStatus \<Rightarrow> string \<Rightarrow> time option \<Rightarrow> ('x, unit) io" where
  "setHealth k status errMsg seen =
     bindE (updA k (\<lambda>a. a\<lparr>a_node := (a_node a)\<lparr>n_Status := status\<rparr>\<rparr>)) (\<lambda>_.
     bindE (getA k) (\<lambda>a.
     bindE (attempt (SetNodeHealth (n_ID (a_node a)) status errMsg seen)) (\<lambda>_. ret ())))"

text \<open>The two halves of \<open>checkHealth\<close>: after a failed and after an answered probe.\<close>

definition health_failed :: "nat \<Rightarrow> xerr \<Rightarrow> ('x, unit) io" where
  "health_failed k err =
     bindE (updA k (\<lambda>a. a\<lparr>a_failCount := a_failCount a + 1\<rparr>)) (\<lambda>_.
     bindE (dropClient k) (\<lambda>_.
     bindE (getA k) (\<lambda>a.
     if healthFailThreshold \<le> a_failCount a \<and> a_online a
     then bindE (updA k (\<lambda>a. a\<lparr>a_online := False\<rparr>)) (\<lambda>_.
            setHealth k NodeStatusOffline (xerr_Error err) None)
     else if a_failCount a < healthFailThreshold
     then setHealth k (n_Status (a_node a)) (xerr_Error err) None
     else ret ())))"

definition health_passed :: "'x xray_api \<Rightarrow> nat \<Rightarrow> uint32 \<Rightarrow> ('x, unit) io" where
  "health_passed X k uptime =
     bindE (updA k (\<lambda>a. a\<lparr>a_failCount := 0\<rparr>)) (\<lambda>_.
     bindE time_Now (\<lambda>now.
     bindE (getA k) (\<lambda>a.
     let wasOffline = \<not> a_online a;
         restarted = 0 < a_lastUptime a \<and> uptime < a_lastUptime a in
     bindE (updA k (\<lambda>a. a\<lparr>a_lastUptime := uptime, a_online := True\<rparr>)) (\<lambda>_.
     bindE (setHealth k NodeStatusOnline '''' (Some now)) (\<lambda>_.
     if wasOffline \<or> restarted then reconcile X k else ret ())))))"

definition checkHealth :: "'x xray_api \<Rightarrow> nat \<Rightarrow> ('x, unit) io" where
  "checkHealth X k = bindE (ensureClient X k) (\<lambda>r.
     bindE (case r of Inl e \<Rightarrow> ret (Inl e) | Inr c \<Rightarrow> callX (Ping X c)) (\<lambda>p. case p of
        Inl err \<Rightarrow> health_failed k err
      | Inr uptime \<Rightarrow> health_passed X k uptime))"

section \<open>Collecting traffic\<close>

text \<open>
  The merge of freshly read counters into \<open>pendingDeltas\<close>, and the resolution of e-mails.
\<close>

definition merge_one :: "user_traffic list \<Rightarrow> user_traffic \<Rightarrow> user_traffic list" where
  "merge_one pending t = (if ut_Email t \<in> ut_Email ` set pending
     then map (\<lambda>p. if ut_Email p = ut_Email t
        then p\<lparr>ut_Uplink := ut_Uplink p + ut_Uplink t, ut_Downlink := ut_Downlink p + ut_Downlink t\<rparr> else p) pending
     else pending @ [t])"

definition merge_traffic :: "user_traffic list \<Rightarrow> user_traffic list \<Rightarrow> user_traffic list" where
  "merge_traffic pending traffic = foldl merge_one pending traffic"

fun resolve_deltas :: "(string \<Rightarrow> string option) \<Rightarrow> user_traffic list \<Rightarrow> traffic_delta list" where
  "resolve_deltas idByEmail [] = []"
| "resolve_deltas idByEmail (t # ts) = (case idByEmail (ut_Email t) of
      None \<Rightarrow> resolve_deltas idByEmail ts
    | Some uid \<Rightarrow> \<lparr>td_UserID = uid, td_Uplink = ut_Uplink t, td_Downlink = ut_Downlink t\<rparr>
        # resolve_deltas idByEmail ts)"

definition collect :: "'x xray_api \<Rightarrow> nat \<Rightarrow> ('x, unit) io" where
  "collect X k = bindE (ensureClient X k) (\<lambda>r. case r of
      Inl e \<Rightarrow> ret ()
    | Inr c \<Rightarrow> bindE (callX (QueryUserTraffic X c True)) (\<lambda>q. case q of
        Inl e \<Rightarrow> dropClient k
      | Inr traffic \<Rightarrow>
          bindE (updA k (\<lambda>a. a\<lparr>a_pendingDeltas := merge_traffic (a_pendingDeltas a) traffic\<rparr>)) (\<lambda>_.
          bindE (getA k) (\<lambda>a.
          if a_pendingDeltas a = [] then ret ()
          else bindE (attempt (UserIDsByEmail (map ut_Email (a_pendingDeltas a)))) (\<lambda>r. case r of
              Inl e \<Rightarrow> ret ()
            | Inr idByEmail \<Rightarrow> bindE time_Now (\<lambda>now.
                bindE (attempt (ApplyTrafficDeltas (n_ID (a_node a))
                    (resolve_deltas idByEmail (a_pendingDeltas a)) now)) (\<lambda>r. case r of
                  Inl e \<Rightarrow> ret ()
                | Inr overQuota \<Rightarrow> bindE (updA k (\<lambda>a. a\<lparr>a_pendingDeltas := []\<rparr>)) (\<lambda>_.
                    forEach overQuota ReconcileForUser)))))))) "

section \<open>The run loop and the sweepers\<close>

datatype actor_event = HealthTick | StatsTick | ReconcileTick | ReconcileTrigger

text \<open>One turn of the \<open>select\<close> in \<open>run\<close>.\<close>

definition run_turn :: "'x xray_api \<Rightarrow> nat \<Rightarrow> actor_event \<Rightarrow> ('x, unit) io" where
  "run_turn X k ev = (case ev of
      HealthTick \<Rightarrow> checkHealth X k
    | StatsTick \<Rightarrow> collect X k
    | ReconcileTick \<Rightarrow> reconcile X k
    | ReconcileTrigger \<Rightarrow> bindE (updA k (\<lambda>a. a\<lparr>a_reconcileCh := False\<rparr>)) (\<lambda>_. reconcile X k))"

definition expiry_pass :: "('x, unit) io" where
  "expiry_pass = bindE time_Now (\<lambda>now. bindE (attempt (ExpireDueUsers now)) (\<lambda>r. case r of
      Inl e \<Rightarrow> ret () | Inr ids \<Rightarrow> forEach ids ReconcileForUser))"

definition prune_pass :: "int \<Rightarrow> ('x, unit) io" where
  "prune_pass retentionDays = (if retentionDays \<le> 0 then ret ()
     else bindE time_Now (\<lambda>now. bindE (attempt (PruneSnapshots (AddDays now (- retentionDays)))) (\<lambda>_. ret ())))"

section \<open>The schema's constraints are kept\<close>

lemma keeps_getA [pres]: "keeps P (getA k)"
  unfolding getA_def by (rule pres)

lemma remote_call_keeps:
  "remote_call c f w = (r, w') \<Longrightarrow> w_db w' = w_db w \<and> w_sched w' = w_sched w \<and> w_heap w' = w_heap w
     \<and> w_actors w' = w_actors w \<and> w_now w' = w_now w \<and> w_ticks w' = w_ticks w \<and> w_next w' = w_next w"
  by (auto simp: remote_call_def split: prod.splits)

lemma db_free_callX:
  "(\<And>w r w'. f w = (r, w') \<Longrightarrow> w_db w' = w_db w \<and> w_sched w' = w_sched w) \<Longrightarrow> db_free (callX f)"
  unfolding db_free_def callX_def by (fastforce split: prod.splits)

lemma db_free_client:
  "db_free (callX (RemoveUser X c tag email))" "db_free (callX (AddUser X c tag acc))"
  "db_free (callX (Ping X c))" "db_free (callX (QueryUserTraffic X c reset))"
  by (rule db_free_callX, auto simp: RemoveUser_def AddUser_def Ping_def QueryUserTraffic_def
      dest!: remote_call_keeps split: prod.splits sum.splits)+

lemma db_free_actors:
  "db_free (updA k f)" "db_free (new_actor n)" "db_free (triggerReconcile k)" "db_free (actor_stop k)"
  "db_free (actor_close k)" "db_free (dropClient k)"
  "db_free (modifyW (\<lambda>w. w\<lparr>w_actors := g (w_actors w)\<rparr>))"
  by (simp_all add: db_free_def updA_def modifyW_def new_actor_def triggerReconcile_def actor_stop_def
      actor_close_def dropClient_def)

lemmas keeps_actors [pres] =
  db_free_client [THEN keeps_db_free(1)] db_free_client [THEN keeps_db_free(2)]
  db_free_actors [THEN keeps_db_free(1)] db_free_actors [THEN keeps_db_free(2)]

lemma preserves_Reconcile [pres]: "preserves I (Reconcile n)"
  unfolding Reconcile_def by (intro pres)

lemma preserves_reconcile_targets [pres]: "preserves I (reconcile_targets ns seen)"
  by (induction ns arbitrary: seen) (auto intro!: pres)

lemma preserves_ReconcileForUser [pres]: "preserves I (ReconcileForUser u)"
  unfolding ReconcileForUser_def by (intro pres)

lemma preserves_manager [pres]:
  "preserves I (StopNode i)" "preserves I (StartNode n)" "preserves I Start"
  unfolding StopNode_def StartNode_def Start_def by (intro pres)+

lemma preserves_ensureClient [pres]: "preserves I (ensureClient X k)"
  unfolding ensureClient_def by (intro pres)

lemma preserves_remove_all [pres]: "preserves wf_db (remove_all X k c ds)"
  by (induction ds) (auto intro!: pres)

lemma preserves_add_all [pres]: "preserves wf_db (add_all X k c ds)"
  by (induction ds) (auto intro!: pres)

lemma preserves_reconcile [pres]: "preserves wf_db (reconcile X k)"
  unfolding reconcile_def by (intro pres)

lemma preserves_setHealth [pres]: "preserves wf_db (setHealth k st e seen)"
  unfolding setHealth_def by (intro pres)

lemma preserves_checkHealth [pres]: "preserves wf_db (checkHealth X k)"
  unfolding checkHealth_def health_failed_def health_passed_def by (intro pres)

lemma preserves_collect [pres]: "preserves wf_db (collect X k)"
  unfolding collect_def by (intro pres)

lemma preserves_run_turn [pres]: "preserves wf_db (run_turn X k ev)"
  unfolding run_turn_def by (cases ev) (simp_all, (intro pres)+)

lemma preserves_sweepers [pres]: "preserves wf_db expiry_pass" "preserves wf_db (prune_pass n)"
  unfolding expiry_pass_def prune_pass_def by (intro pres)+

end
