(* ===== verification/Convergence.thy ===== *)
theory Convergence
  imports Worker
begin

text \<open>
  \<open>reconcile\<close> brings a node to the desired state of the database. What Xray-core promises
  is \<open>node_contract\<close>: it relates the answers of \<open>AlterInbound\<close> to the accounts a node
  serves. The two loops are specified by their effect on those accounts and on the
  skeleton of the assignment table (user, inbound, sync status).
\<close>

section \<open>What a node promises\<close>

definition node_contract :: "'x xray_api \<Rightarrow> ('x \<Rightarrow> (string \<times> string) set) \<Rightarrow> bool" where
  "node_contract X accounts \<longleftrightarrow>
     (\<forall>c tag user x err x'. x_AlterAdd X c tag user x = (err, x') \<longrightarrow> (case err of
         None \<Rightarrow> accounts x' = insert (tag, pu_Email user) (accounts x)
       | Some e \<Rightarrow> Contains (ToLower e) ''already exists'' \<longrightarrow>
           accounts x' = accounts x \<and> (tag, pu_Email user) \<in> accounts x)) \<and>
     (\<forall>c tag email x err x'. x_AlterRemove X c tag email x = (err, x') \<longrightarrow> (case err of
         None \<Rightarrow> accounts x' = accounts x - {(tag, email)}
       | Some e \<Rightarrow> Contains (ToLower e) ''not found'' \<or> Contains (ToLower e) ''not exist'' \<longrightarrow>
           accounts x' = accounts x \<and> (tag, email) \<notin> accounts x))"

text \<open>Every call is answered, with success or with one of the two idempotent errors.\<close>

definition node_reliable :: "'x xray_api \<Rightarrow> bool" where
  "node_reliable X \<longleftrightarrow>
     (\<forall>c tag user x. mapAlterErr (fst (x_AlterAdd X c tag user x)) OpAdd = None) \<and>
     (\<forall>c tag email x. mapAlterErr (fst (x_AlterRemove X c tag email x)) OpRemove = None)"

abbreviation remote_accounts :: "('x \<Rightarrow> (string \<times> string) set) \<Rightarrow> dial_options \<Rightarrow> 'x world \<Rightarrow> (string \<times> string) set" where
  "remote_accounts accounts c w \<equiv> accounts (w_remote w (target c))"

lemma buildUser_email: "buildUser acc = Inr user \<Longrightarrow> pu_Email user = acc_Email acc"
  by (auto simp: buildUser_def Let_def split: if_splits sum.splits)

lemma mapAlterErr_None:
  "mapAlterErr err OpAdd = None \<longleftrightarrow> (case err of None \<Rightarrow> True | Some e \<Rightarrow> Contains (ToLower e) ''already exists'')"
  "mapAlterErr err OpRemove = None \<longleftrightarrow> (case err of None \<Rightarrow> True
     | Some e \<Rightarrow> Contains (ToLower e) ''not found'' \<or> Contains (ToLower e) ''not exist'')"
  by (auto simp: mapAlterErr_def Let_def split: option.splits)

lemma node_contract_add:
  assumes "node_contract X accounts" and "x_AlterAdd X c tag user x = (err, x')" and "mapAlterErr err OpAdd = None"
  shows "accounts x' = insert (tag, pu_Email user) (accounts x)"
proof -
  have "case err of None \<Rightarrow> accounts x' = insert (tag, pu_Email user) (accounts x)
       | Some e \<Rightarrow> Contains (ToLower e) ''already exists'' \<longrightarrow>
           accounts x' = accounts x \<and> (tag, pu_Email user) \<in> accounts x"
    using assms(1,2) unfolding node_contract_def by blast
  with assms(3) show ?thesis by (cases err) (auto simp: mapAlterErr_None)
qed

lemma node_contract_remove:
  assumes "node_contract X accounts" and "x_AlterRemove X c tag email x = (err, x')" and "mapAlterErr err OpRemove = None"
  shows "accounts x' = accounts x - {(tag, email)}"
proof -
  have "case err of None \<Rightarrow> accounts x' = accounts x - {(tag, email)}
       | Some e \<Rightarrow> Contains (ToLower e) ''not found'' \<or> Contains (ToLower e) ''not exist'' \<longrightarrow>
           accounts x' = accounts x \<and> (tag, email) \<notin> accounts x"
    using assms(1,2) unfolding node_contract_def by blast
  with assms(3) show ?thesis by (cases err) (auto simp: mapAlterErr_None)
qed

lemma AddUser_accounts:
  assumes "node_contract X accounts" and "AddUser X c tag acc w = (None, w')"
  shows "remote_accounts accounts c w' = insert (tag, acc_Email acc) (remote_accounts accounts c w)"
proof -
  obtain user err x' where u: "buildUser acc = Inr user"
    and x: "x_AlterAdd X c tag user (w_remote w (target c)) = (err, x')" "mapAlterErr err OpAdd = None"
    and w': "w' = w\<lparr>w_remote := (w_remote w)(target c := x')\<rparr>"
    using assms(2) by (auto simp: AddUser_def remote_call_def split: sum.splits prod.splits)
  from node_contract_add [OF assms(1) x] buildUser_email [OF u] w' show ?thesis by simp
qed

lemma RemoveUser_accounts:
  assumes "node_contract X accounts" and "RemoveUser X c tag email w = (None, w')"
  shows "remote_accounts accounts c w' = remote_accounts accounts c w - {(tag, email)}"
proof -
  obtain err x' where x: "x_AlterRemove X c tag email (w_remote w (target c)) = (err, x')" "mapAlterErr err OpRemove = None"
    and w': "w' = w\<lparr>w_remote := (w_remote w)(target c := x')\<rparr>"
    using assms(2) by (auto simp: RemoveUser_def remote_call_def split: prod.splits)
  from node_contract_remove [OF assms(1) x] w' show ?thesis by simp
qed

lemma client_keeps:
  "AddUser X c tag acc w = (r, w') \<Longrightarrow> w_db w' = w_db w \<and> w_sched w' = w_sched w \<and> w_heap w' = w_heap w"
  "RemoveUser X c tag email w = (r, w') \<Longrightarrow> w_db w' = w_db w \<and> w_sched w' = w_sched w \<and> w_heap w' = w_heap w"
  by (auto simp: AddUser_def RemoveUser_def dest!: remote_call_keeps split: sum.splits prod.splits)

section \<open>The skeleton of the assignment table\<close>

definition skeleton :: "db \<Rightarrow> (string \<times> string \<times> SyncStatus) list" where
  "skeleton d = map (\<lambda>r. (ui_UserID r, ui_InboundID r, ui_SyncStatus r)) (db_user_inbounds d)"

definition same_catalog :: "db \<Rightarrow> db \<Rightarrow> bool" where
  "same_catalog d d' \<longleftrightarrow> db_users d' = db_users d \<and> db_inbounds d' = db_inbounds d \<and> db_nodes d' = db_nodes d"

definition desired_of :: "string \<times> string \<times> SyncStatus \<Rightarrow> inbound \<Rightarrow> user \<Rightarrow> desired_assignment" where
  "desired_of t i u = desired_row \<lparr>ui_UserID = fst t, ui_InboundID = fst (snd t), ui_SyncStatus = snd (snd t),
     ui_LastSyncedAt = None, ui_LastError = ''''\<rparr> i u"

lemma desired_of_fields [simp]:
  "da_UserID (desired_of (uid, iid, st) i u) = uid" "da_InboundID (desired_of (uid, iid, st) i u) = iid"
  "da_SyncStatus (desired_of (uid, iid, st) i u) = st"
  "account_key (desired_of (uid, iid, st) i u) = (ib_Tag i, u_Email u)"
  by (simp_all add: desired_of_def desired_row_def account_key_def)

lemma desired_row_of: "desired_row r i u = desired_of (ui_UserID r, ui_InboundID r, ui_SyncStatus r) i u"
  by (simp add: desired_of_def desired_row_def)

lemma mem_join_skeleton:
  assumes PQ: "\<And>r i u. P r i u = Q (ui_SyncStatus r) i u"
  shows "a \<in> set (join_assignments P d) \<longleftrightarrow> (\<exists>uid iid st i u. (uid, iid, st) \<in> set (skeleton d)
     \<and> i \<in> set (db_inbounds d) \<and> u \<in> set (db_users d) \<and> ib_ID i = iid \<and> u_ID u = uid
     \<and> Q st i u \<and> a = desired_of (uid, iid, st) i u)" (is "?L \<longleftrightarrow> ?R")
proof
  assume ?L
  then obtain r i u where r: "r \<in> set (db_user_inbounds d)" and rest: "i \<in> set (db_inbounds d)" "u \<in> set (db_users d)"
      "ib_ID i = ui_InboundID r" "u_ID u = ui_UserID r" "Q (ui_SyncStatus r) i u" "a = desired_row r i u"
    unfolding mem_join_assignments PQ by blast
  have "(ui_UserID r, ui_InboundID r, ui_SyncStatus r) \<in> set (skeleton d)"
    using r by (auto simp: skeleton_def)
  with rest show ?R unfolding desired_row_of by blast
next
  assume ?R
  then obtain uid iid st i u where t: "(uid, iid, st) \<in> set (skeleton d)" and rest: "i \<in> set (db_inbounds d)"
      "u \<in> set (db_users d)" "ib_ID i = iid" "u_ID u = uid" "Q st i u" "a = desired_of (uid, iid, st) i u"
    by blast
  from t obtain r where "r \<in> set (db_user_inbounds d)" "uid = ui_UserID r" "iid = ui_InboundID r" "st = ui_SyncStatus r"
    by (auto simp: skeleton_def)
  with rest show ?L unfolding mem_join_assignments PQ desired_row_of
    by (intro bexI [of _ r] bexI [of _ i] bexI [of _ u]) simp_all
qed

lemma mem_desired:
  "a \<in> set (desired_for_node n d) \<longleftrightarrow> (\<exists>uid iid st i u. (uid, iid, st) \<in> set (skeleton d)
     \<and> i \<in> set (db_inbounds d) \<and> u \<in> set (db_users d) \<and> ib_ID i = iid \<and> u_ID u = uid
     \<and> (ib_NodeID i = n \<and> u_Status u = UserStatusActive \<and> st \<noteq> SyncRemoving) \<and> a = desired_of (uid, iid, st) i u)"
  unfolding desired_for_node_def
  by (rule mem_join_skeleton [of _ "\<lambda>st i u. ib_NodeID i = n \<and> u_Status u = UserStatusActive \<and> st \<noteq> SyncRemoving"]) simp

lemma mem_removals:
  "a \<in> set (removals_for_node n d) \<longleftrightarrow> (\<exists>uid iid st i u. (uid, iid, st) \<in> set (skeleton d)
     \<and> i \<in> set (db_inbounds d) \<and> u \<in> set (db_users d) \<and> ib_ID i = iid \<and> u_ID u = uid
     \<and> (ib_NodeID i = n \<and> (st = SyncRemoving \<or> u_Status u \<noteq> UserStatusActive)) \<and> a = desired_of (uid, iid, st) i u)"
  unfolding removals_for_node_def
  by (rule mem_join_skeleton [of _ "\<lambda>st i u. ib_NodeID i = n \<and> (st = SyncRemoving \<or> u_Status u \<noteq> UserStatusActive)"]) simp

lemma skeleton_unique:
  "wf_db d \<Longrightarrow> (uid, iid, st) \<in> set (skeleton d) \<Longrightarrow> (uid, iid, st') \<in> set (skeleton d) \<Longrightarrow> st = st'"
  by (auto simp: skeleton_def dest: assignment_unique)

section \<open>The loops\<close>

text \<open>The assignments a pass deletes, and the status a pass leaves.\<close>

definition deletes :: "desired_assignment list \<Rightarrow> string \<times> string \<times> SyncStatus \<Rightarrow> bool" where
  "deletes ds = (\<lambda>(uid, iid, st). \<exists>a \<in> set ds. da_UserID a = uid \<and> da_InboundID a = iid \<and> da_SyncStatus a = SyncRemoving)"

definition marks :: "desired_assignment list \<Rightarrow> string \<times> string \<times> SyncStatus \<Rightarrow> string \<times> string \<times> SyncStatus" where
  "marks ds = (\<lambda>(uid, iid, st). (uid, iid, if \<exists>a \<in> set ds. da_UserID a = uid \<and> da_InboundID a = iid
     \<and> da_SyncStatus a \<noteq> SyncApplied then SyncApplied else st))"

lemma quiet_delete:
  assumes "w_sched w = []"
  shows "attempt (DeleteAssignment uid iid) w = (Inr (Inr ()), w\<lparr>w_db := (w_db w)\<lparr>db_user_inbounds :=
     delete_rows (is_assignment uid iid) (db_user_inbounds (w_db w))\<rparr>\<rparr>)"
  using assms by (simp add: attempt_def DeleteAssignment_def onErr_def db_exec_quiet delete_assignment_def)

lemma skeleton_delete:
  "skeleton (d\<lparr>db_user_inbounds := delete_rows (is_assignment uid iid) (db_user_inbounds d)\<rparr>)
     = filter (\<lambda>(u, i, st). \<not> (u = uid \<and> i = iid)) (skeleton d)"
  by (simp add: skeleton_def delete_rows_def filter_map o_def is_assignment_def)

lemma time_Now_keeps:
  "time_Now w = (r, w') \<Longrightarrow> w_db w' = w_db w \<and> w_sched w' = w_sched w \<and> w_heap w' = w_heap w \<and> w_remote w' = w_remote w"
  by (auto simp: time_Now_def split: list.splits)

lemma quiet_mark:
  assumes "w_sched w = []" and "attempt (MarkAssignmentSynced uid iid st msg) w = (r, w')"
  shows "\<exists>z. r = Inr z" "w_sched w' = []" "w_heap w' = w_heap w" "w_remote w' = w_remote w"
    "same_catalog (w_db w) (w_db w')"
    "skeleton (w_db w') = map (\<lambda>(u, i, s). (u, i, if u = uid \<and> i = iid then st else s)) (skeleton (w_db w))"
  using assms
  by (auto simp: attempt_def MarkAssignmentSynced_def bindE_def onErr_def db_exec_def next_call_def run_stmt_def
      touch_assignments_def ret_def time_Now_def same_catalog_def skeleton_def update_rows_def is_assignment_def
      split: if_splits list.splits prod.splits)

lemma same_catalog_trans: "same_catalog a b \<Longrightarrow> same_catalog b c \<Longrightarrow> same_catalog a c"
  by (simp add: same_catalog_def)

lemma same_catalog_refl [simp]: "same_catalog a a"
  by (simp add: same_catalog_def)

lemma filter_deletes_Cons:
  "filter (\<lambda>t. \<not> deletes ds t) (if da_SyncStatus d = SyncRemoving
      then filter (\<lambda>(u, i, st). \<not> (u = da_UserID d \<and> i = da_InboundID d)) ts else ts)
    = filter (\<lambda>t. \<not> deletes (d # ds) t) ts"
  by (auto simp: deletes_def intro: filter_cong)

lemma remove_all_spec:
  assumes "node_contract X accounts" and "w_sched w = []" and "remove_all X k c ds w = (r, w')"
  shows "w_sched w' = [] \<and> same_catalog (w_db w) (w_db w') \<and> (
      (r = Inr True \<and> w_heap w' = w_heap w
        \<and> remote_accounts accounts c w' = remote_accounts accounts c w - account_key ` set ds
        \<and> skeleton (w_db w') = filter (\<lambda>t. \<not> deletes ds t) (skeleton (w_db w)))
      \<or> (r = Inr False \<and> a_client (w_heap w' k) = None))"
  using assms(2,3)
proof (induction ds arbitrary: w)
  case Nil
  then show ?case by (auto simp: ret_def deletes_def)
next
  case (Cons d ds)
  obtain err w1 where rm: "RemoveUser X c (da_InboundTag d) (da_Email d) w = (err, w1)" by fastforce
  note keep = client_keeps(2) [OF rm]
  show ?case
  proof (cases err)
    case (Some e)
    with Cons.prems rm keep show ?thesis
      by (auto simp: bindE_def callX_def dropClient_def updA_def modifyW_def ret_def)
  next
    case None
    let ?gone = "da_SyncStatus d = SyncRemoving"
    define w2 where "w2 = (if ?gone then w1\<lparr>w_db := (w_db w1)\<lparr>db_user_inbounds :=
       delete_rows (is_assignment (da_UserID d) (da_InboundID d)) (db_user_inbounds (w_db w1))\<rparr>\<rparr> else w1)"
    have quiet: "w_sched w1 = []" using keep Cons.prems(1) by simp
    have rest: "remove_all X k c ds w2 = (r, w')"
      using Cons.prems(2) None rm quiet_delete [OF quiet]
      by (auto simp: bindE_def callX_def ret_def w2_def split: if_splits)
    have w2: "w_sched w2 = []" "w_heap w2 = w_heap w" "same_catalog (w_db w) (w_db w2)"
      "remote_accounts accounts c w2 = remote_accounts accounts c w - {account_key d}"
      "skeleton (w_db w2) = (if ?gone then filter (\<lambda>(u, i, st). \<not> (u = da_UserID d \<and> i = da_InboundID d)) (skeleton (w_db w))
          else skeleton (w_db w))"
      using keep quiet RemoveUser_accounts [OF assms(1) rm [unfolded None]]
      by (simp_all add: w2_def same_catalog_def account_key_def skeleton_delete)
    note IH = Cons.IH [OF w2(1) rest]
    have cat: "same_catalog (w_db w) (w_db w')" using IH w2(3) same_catalog_trans by blast
    have acc: "remote_accounts accounts c w2 - account_key ` set ds = remote_accounts accounts c w - account_key ` set (d # ds)"
      unfolding w2(4) by auto
    have sk: "filter (\<lambda>t. \<not> deletes ds t) (skeleton (w_db w2)) = filter (\<lambda>t. \<not> deletes (d # ds) t) (skeleton (w_db w))"
      unfolding w2(5) by (rule filter_deletes_Cons)
    show ?thesis using IH cat w2(2) unfolding acc sk by auto
  qed
qed

lemma map_marks_Cons:
  "map (marks ds) (if da_SyncStatus d \<noteq> SyncApplied
      then map (\<lambda>(u, i, s). (u, i, if u = da_UserID d \<and> i = da_InboundID d then SyncApplied else s)) ts else ts)
    = map (marks (d # ds)) ts"
  by (auto simp: marks_def)

lemma add_all_spec:
  assumes "node_contract X accounts" and "w_sched w = []" and "add_all X k c ds w = (r, w')"
  shows "w_sched w' = [] \<and> same_catalog (w_db w) (w_db w') \<and> (
      (r = Inr True \<and> w_heap w' = w_heap w
        \<and> remote_accounts accounts c w' = remote_accounts accounts c w \<union> account_key ` set ds
        \<and> skeleton (w_db w') = map (marks ds) (skeleton (w_db w)))
      \<or> (r = Inr False \<and> a_client (w_heap w' k) = None))"
  using assms(2,3)
proof (induction ds arbitrary: w)
  case Nil
  then show ?case by (auto simp: ret_def marks_def)
next
  case (Cons d ds)
  obtain err w1 where add: "AddUser X c (da_InboundTag d) (accountFor d) w = (err, w1)" by fastforce
  note keep = client_keeps(1) [OF add]
  have quiet: "w_sched w1 = []" using keep Cons.prems(1) by simp
  show ?case
  proof (cases err)
    case (Some e)
    obtain z w2 where mark: "attempt (MarkAssignmentSynced (da_UserID d) (da_InboundID d) SyncFailed (xerr_Error e)) w1 = (z, w2)"
      by fastforce
    note m = quiet_mark [OF quiet mark]
    obtain y where "z = Inr y" using m(1) by blast
    with Cons.prems(2) Some add mark have "(r, w') = (Inr False, w2\<lparr>w_heap := (w_heap w2)(k := (w_heap w2 k)\<lparr>a_client := None\<rparr>)\<rparr>)"
      by (simp add: bindE_def callX_def dropClient_def updA_def modifyW_def ret_def)
    with m(2,5) keep show ?thesis by (auto simp: same_catalog_def)
  next
    case None
    let ?new = "da_SyncStatus d \<noteq> SyncApplied"
    obtain w2 where rest: "add_all X k c ds w2 = (r, w')"
      and w2: "w_sched w2 = []" "w_heap w2 = w_heap w" "same_catalog (w_db w1) (w_db w2)" "w_remote w2 = w_remote w1"
      "skeleton (w_db w2) = (if ?new then map (\<lambda>(u, i, s). (u, i, if u = da_UserID d \<and> i = da_InboundID d then SyncApplied else s)) (skeleton (w_db w))
          else skeleton (w_db w))"
    proof (cases ?new)
      case False
      with Cons.prems(2) None add have "add_all X k c ds w1 = (r, w')" by (simp add: bindE_def callX_def ret_def)
      with that [of w1] False quiet keep show ?thesis by simp
    next
      case True
      obtain z w2 where mark: "attempt (MarkAssignmentSynced (da_UserID d) (da_InboundID d) SyncApplied '''') w1 = (z, w2)"
        by fastforce
      note m = quiet_mark [OF quiet mark]
      obtain y where "z = Inr y" using m(1) by blast
      with Cons.prems(2) None True add mark have "add_all X k c ds w2 = (r, w')"
        by (simp add: bindE_def callX_def ret_def)
      with that [of w2] True m keep show ?thesis by simp
    qed
    note IH = Cons.IH [OF w2(1) rest]
    have cat: "same_catalog (w_db w) (w_db w')" using IH w2(3) keep same_catalog_trans by (metis same_catalog_def)
    have "remote_accounts accounts c w1 = insert (account_key d) (remote_accounts accounts c w)"
      using AddUser_accounts [OF assms(1) add [unfolded None]] by (simp add: accountFor_def account_key_def)
    then have acc: "remote_accounts accounts c w2 \<union> account_key ` set ds = remote_accounts accounts c w \<union> account_key ` set (d # ds)"
      unfolding w2(4) by auto
    have sk: "map (marks ds) (skeleton (w_db w2)) = map (marks (d # ds)) (skeleton (w_db w))"
      unfolding w2(5) by (rule map_marks_Cons)
    show ?thesis using IH cat w2(2) unfolding acc sk by auto
  qed
qed

section \<open>A whole pass\<close>

lemma ensureClient_open:
  assumes "ensureClient X k w = (Inr (Inr c), w0)"
  shows "a_client (w_heap w0 k) = Some c" "a_node (w_heap w0 k) = a_node (w_heap w k)"
    "w_db w0 = w_db w" "w_sched w0 = w_sched w" "w_remote w0 = w_remote w"
  using assms
  by (auto simp: ensureClient_def bindE_def getA_def getW_def updA_def modifyW_def ret_def split: option.splits sum.splits)

lemma quiet_queries:
  assumes "w_sched w = []"
  shows "attempt (RemovalsForNode n) w = (Inr (Inr (removals_for_node n (w_db w))), w)"
    and "attempt (DesiredForNode n) w = (Inr (Inr (desired_for_node n (w_db w))), w)"
  using assms by (simp_all add: attempt_def RemovalsForNode_def DesiredForNode_def queryDesired_def onErr_def db_query_quiet)

lemma reconcile_phases:
  assumes con: "node_contract X accounts" and quiet: "w_sched w = []"
    and cl: "ensureClient X k w = (Inr (Inr c), w0)" and run: "reconcile X k w = (r, w')"
    and kept: "a_client (w_heap w' k) \<noteq> None" and n: "n = n_ID (a_node (w_heap w k))"
  obtains d1 where "same_catalog (w_db w) d1"
    and "skeleton d1 = filter (\<lambda>t. \<not> deletes (removals_for_node n (w_db w)) t) (skeleton (w_db w))"
    and "same_catalog d1 (w_db w')"
    and "skeleton (w_db w') = map (marks (desired_for_node n d1)) (skeleton d1)"
    and "remote_accounts accounts c w' = (remote_accounts accounts c w
       - account_key ` set (removals_for_node n (w_db w))) \<union> account_key ` set (desired_for_node n d1)"
proof -
  note w0 = ensureClient_open [OF cl]
  have q0: "w_sched w0 = []" using quiet w0 by simp
  obtain r1 w1 where rm: "remove_all X k c (removals_for_node n (w_db w)) w0 = (r1, w1)" by fastforce
  note R = remove_all_spec [OF con q0 rm]
  then have q1: "w_sched w1 = []" by simp
  obtain r2 w2 where ad: "add_all X k c (desired_for_node n (w_db w1)) w1 = (r2, w2)" by fastforce
  note A = add_all_spec [OF con q1 ad]
  have tail: "reconcile X k w = (if r1 = Inr False then (Inr (), w1)
      else case r2 of Inl e \<Rightarrow> (Inl e, w2) | Inr _ \<Rightarrow> (Inr (), w2))"
    if "r1 = Inr True \<or> r1 = Inr False"
    using that cl w0 quiet_queries(1) [OF q0] quiet_queries(2) [OF q1] rm ad
    by (auto simp: reconcile_def bindE_def getA_def getW_def ret_def n split: sum.splits)
  have "r1 = Inr True" using R tail run kept by auto
  moreover have "r2 = Inr True" using A tail run kept \<open>r1 = Inr True\<close> by (auto split: sum.splits)
  ultimately have w': "w' = w2" using tail run by simp
  show ?thesis
  proof (rule that [of "w_db w1"])
    show "same_catalog (w_db w) (w_db w1)" using R w0 by simp
    show "skeleton (w_db w1) = filter (\<lambda>t. \<not> deletes (removals_for_node n (w_db w)) t) (skeleton (w_db w))"
      using R w0 \<open>r1 = Inr True\<close> by simp
    show "same_catalog (w_db w1) (w_db w')" using A w' by simp
    show "skeleton (w_db w') = map (marks (desired_for_node n (w_db w1))) (skeleton (w_db w1))"
      using A w' \<open>r2 = Inr True\<close> by simp
    show "remote_accounts accounts c w' = (remote_accounts accounts c w
       - account_key ` set (removals_for_node n (w_db w))) \<union> account_key ` set (desired_for_node n (w_db w1))"
      using A R w' w0 \<open>r1 = Inr True\<close> \<open>r2 = Inr True\<close> by simp
  qed
qed

text \<open>The first phase deletes exactly the tombstones of the node.\<close>

lemma deletes_removals:
  assumes "wf_db d" and "(uid, iid, st) \<in> set (skeleton d)"
  shows "deletes (removals_for_node n d) (uid, iid, st) \<longleftrightarrow> st = SyncRemoving \<and>
    (\<exists>i \<in> set (db_inbounds d). ib_ID i = iid \<and> ib_NodeID i = n) \<and> uid \<in> u_ID ` set (db_users d)"
proof
  assume "deletes (removals_for_node n d) (uid, iid, st)"
  then obtain a where a: "a \<in> set (removals_for_node n d)" "da_UserID a = uid" "da_InboundID a = iid"
      "da_SyncStatus a = SyncRemoving"
    by (auto simp: deletes_def)
  then obtain st' i u where "(uid, iid, st') \<in> set (skeleton d)" "i \<in> set (db_inbounds d)" "u \<in> set (db_users d)"
      "ib_ID i = iid" "u_ID u = uid" "ib_NodeID i = n" "st' = SyncRemoving"
    by (auto simp: mem_removals)
  with skeleton_unique [OF assms] show "st = SyncRemoving \<and>
    (\<exists>i \<in> set (db_inbounds d). ib_ID i = iid \<and> ib_NodeID i = n) \<and> uid \<in> u_ID ` set (db_users d)" by blast
next
  assume *: "st = SyncRemoving \<and>
    (\<exists>i \<in> set (db_inbounds d). ib_ID i = iid \<and> ib_NodeID i = n) \<and> uid \<in> u_ID ` set (db_users d)"
  then obtain i u where iu: "i \<in> set (db_inbounds d)" "ib_ID i = iid" "ib_NodeID i = n" "u \<in> set (db_users d)" "u_ID u = uid"
    by blast
  with * assms(2) have "desired_of (uid, iid, st) i u \<in> set (removals_for_node n d)"
    unfolding mem_removals by blast
  with * show "deletes (removals_for_node n d) (uid, iid, st)"
    by (auto simp: deletes_def intro!: bexI [of _ "desired_of (uid, iid, st) i u"])
qed

lemma desired_after_deletes:
  assumes "wf_db d" and "same_catalog d d1"
    and "skeleton d1 = filter (\<lambda>t. \<not> deletes (removals_for_node n d) t) (skeleton d)"
  shows "set (desired_for_node n d1) = set (desired_for_node n d)"
proof -
  have "(uid, iid, st) \<in> set (skeleton d1) \<longleftrightarrow> (uid, iid, st) \<in> set (skeleton d)" if "st \<noteq> SyncRemoving" for uid iid st
    using that deletes_removals [OF assms(1)] unfolding assms(3) by auto
  moreover have "db_users d1 = db_users d" "db_inbounds d1 = db_inbounds d"
    using assms(2) by (simp_all add: same_catalog_def)
  ultimately show ?thesis unfolding set_eq_iff mem_desired by (simp, blast)
qed

lemma marks_skeleton:
  assumes uniq: "\<And>uid iid st st'. (uid, iid, st) \<in> set (skeleton d1) \<Longrightarrow> (uid, iid, st') \<in> set (skeleton d1) \<Longrightarrow> st = st'"
    and t: "(uid, iid, st) \<in> set (skeleton d1)"
  shows "marks (desired_for_node n d1) (uid, iid, st) = (uid, iid,
    if st \<noteq> SyncRemoving \<and> (\<exists>i \<in> set (db_inbounds d1). ib_ID i = iid \<and> ib_NodeID i = n)
       \<and> (\<exists>u \<in> set (db_users d1). u_ID u = uid \<and> u_Status u = UserStatusActive) then SyncApplied else st)"
proof -
  have "(\<exists>a \<in> set (desired_for_node n d1). da_UserID a = uid \<and> da_InboundID a = iid \<and> da_SyncStatus a \<noteq> SyncApplied) \<longleftrightarrow>
     st \<noteq> SyncApplied \<and> st \<noteq> SyncRemoving \<and> (\<exists>i \<in> set (db_inbounds d1). ib_ID i = iid \<and> ib_NodeID i = n)
       \<and> (\<exists>u \<in> set (db_users d1). u_ID u = uid \<and> u_Status u = UserStatusActive)" (is "?L \<longleftrightarrow> ?R")
  proof
    assume ?L
    then obtain st' i u where "(uid, iid, st') \<in> set (skeleton d1)" "i \<in> set (db_inbounds d1)" "u \<in> set (db_users d1)"
      "ib_ID i = iid" "u_ID u = uid" "ib_NodeID i = n" "u_Status u = UserStatusActive" "st' \<noteq> SyncRemoving" "st' \<noteq> SyncApplied"
      by (auto simp: mem_desired)
    with uniq [OF t] show ?R by blast
  next
    assume ?R
    then obtain i u where iu: "i \<in> set (db_inbounds d1)" "u \<in> set (db_users d1)" "ib_ID i = iid" "u_ID u = uid"
      "ib_NodeID i = n" "u_Status u = UserStatusActive" and st: "st \<noteq> SyncRemoving" "st \<noteq> SyncApplied" by blast
    with t have "desired_of (uid, iid, st) i u \<in> set (desired_for_node n d1)" unfolding mem_desired by blast
    with st show ?L by (auto intro!: bexI [of _ "desired_of (uid, iid, st) i u"])
  qed
  then show ?thesis by (auto simp: marks_def)
qed

lemma skeleton_after:
  assumes wf: "wf_db d" and cat: "same_catalog d d1" "same_catalog d1 d2"
    and del: "skeleton d1 = filter (\<lambda>t. \<not> deletes (removals_for_node n d) t) (skeleton d)"
    and mark: "skeleton d2 = map (marks (desired_for_node n d1)) (skeleton d1)"
    and mem: "(uid, iid, st2) \<in> set (skeleton d2)"
    and i: "i \<in> set (db_inbounds d)" "ib_ID i = iid" "ib_NodeID i = n" and u: "u \<in> set (db_users d)" "u_ID u = uid"
  shows "\<exists>st. (uid, iid, st) \<in> set (skeleton d) \<and> st \<noteq> SyncRemoving \<and>
    st2 = (if u_Status u = UserStatusActive then SyncApplied else st)"
proof -
  have tabs: "db_users d1 = db_users d" "db_inbounds d1 = db_inbounds d"
    using cat by (simp_all add: same_catalog_def)
  have uniq: "st = st'" if "(a, b, st) \<in> set (skeleton d1)" "(a, b, st') \<in> set (skeleton d1)" for a b st st'
    using that skeleton_unique [OF wf] unfolding del set_filter by blast
  obtain st where st: "(uid, iid, st) \<in> set (skeleton d1)" and st2: "(uid, iid, st2) = marks (desired_for_node n d1) (uid, iid, st)"
    using mem unfolding mark by (auto simp: marks_def)
  have old: "(uid, iid, st) \<in> set (skeleton d)" "\<not> deletes (removals_for_node n d) (uid, iid, st)"
    using st by (simp_all add: del)
  then have "st \<noteq> SyncRemoving" using deletes_removals [OF wf old(1), of n] i u by blast
  moreover have "(\<exists>v \<in> set (db_users d1). u_ID v = uid \<and> u_Status v = UserStatusActive) \<longleftrightarrow> u_Status u = UserStatusActive"
    using u user_unique [OF wf] unfolding tabs by blast
  moreover have "st2 = (if st \<noteq> SyncRemoving \<and> (\<exists>i \<in> set (db_inbounds d1). ib_ID i = iid \<and> ib_NodeID i = n)
       \<and> (\<exists>u \<in> set (db_users d1). u_ID u = uid \<and> u_Status u = UserStatusActive) then SyncApplied else st)"
    using st2 marks_skeleton [where n = n, OF uniq st] by simp
  moreover have "\<exists>i \<in> set (db_inbounds d1). ib_ID i = iid \<and> ib_NodeID i = n"
    using i tabs by auto
  ultimately show ?thesis using old(1) by (intro exI [of _ st]) simp
qed

text \<open>What the two phases leave of the desired state.\<close>

lemma phases_result:
  assumes wf: "wf_db d" and cat: "same_catalog d d1" "same_catalog d1 d2"
    and del: "skeleton d1 = filter (\<lambda>t. \<not> deletes (removals_for_node n d) t) (skeleton d)"
    and mark: "skeleton d2 = map (marks (desired_for_node n d1)) (skeleton d1)"
  shows phases_applied: "a \<in> set (desired_for_node n d2) \<Longrightarrow>
      da_SyncStatus a = SyncApplied \<and> account_key a \<in> account_key ` set (desired_for_node n d)"
    and phases_no_tombstone: "a \<in> set (removals_for_node n d2) \<Longrightarrow> da_SyncStatus a \<noteq> SyncRemoving"
proof -
  have tabs: "db_users d2 = db_users d" "db_inbounds d2 = db_inbounds d"
    using cat by (simp_all add: same_catalog_def)
  note after = skeleton_after [OF wf cat del mark]
  {
    assume "a \<in> set (desired_for_node n d2)"
    then obtain uid iid st2 i u where t: "(uid, iid, st2) \<in> set (skeleton d2)" and iu: "i \<in> set (db_inbounds d)" "ib_ID i = iid"
        "ib_NodeID i = n" "u \<in> set (db_users d)" "u_ID u = uid" and act: "u_Status u = UserStatusActive"
        and eq: "a = desired_of (uid, iid, st2) i u"
      unfolding mem_desired tabs by blast
    from after [OF t iu] obtain st where st: "(uid, iid, st) \<in> set (skeleton d)" "st \<noteq> SyncRemoving" "st2 = SyncApplied"
      using act by auto
    then have "desired_of (uid, iid, st) i u \<in> set (desired_for_node n d)" using iu act unfolding mem_desired by blast
    then have "account_key (desired_of (uid, iid, st) i u) \<in> account_key ` set (desired_for_node n d)" by (rule imageI)
    with eq st(3) show "da_SyncStatus a = SyncApplied \<and> account_key a \<in> account_key ` set (desired_for_node n d)" by simp
  }
  {
    assume "a \<in> set (removals_for_node n d2)"
    then obtain uid iid st2 i u where t: "(uid, iid, st2) \<in> set (skeleton d2)" and iu: "i \<in> set (db_inbounds d)" "ib_ID i = iid"
        "ib_NodeID i = n" "u \<in> set (db_users d)" "u_ID u = uid" and eq: "a = desired_of (uid, iid, st2) i u"
      unfolding mem_removals tabs by blast
    from after [OF t iu] eq show "da_SyncStatus a \<noteq> SyncRemoving" by (auto split: if_splits)
  }
qed

lemma phases_desired_kept:
  assumes cat: "same_catalog d1 d2" and mark: "skeleton d2 = map (marks (desired_for_node n d1)) (skeleton d1)"
    and a: "a \<in> set (desired_for_node n d1)"
  shows "account_key a \<in> account_key ` set (desired_for_node n d2)"
proof -
  have tabs: "db_users d2 = db_users d1" "db_inbounds d2 = db_inbounds d1"
    using cat by (simp_all add: same_catalog_def)
  obtain uid iid st i u where t: "(uid, iid, st) \<in> set (skeleton d1)" and iu: "i \<in> set (db_inbounds d1)" "ib_ID i = iid"
      "ib_NodeID i = n" "u \<in> set (db_users d1)" "u_ID u = uid" and act: "u_Status u = UserStatusActive" "st \<noteq> SyncRemoving"
      and eq: "a = desired_of (uid, iid, st) i u"
    using a unfolding mem_desired by blast
  obtain st2 where st2: "marks (desired_for_node n d1) (uid, iid, st) = (uid, iid, st2)" "st2 \<noteq> SyncRemoving"
    using act by (auto simp: marks_def)
  have "marks (desired_for_node n d1) (uid, iid, st) \<in> set (skeleton d2)" using t unfolding mark by simp
  with st2 have "(uid, iid, st2) \<in> set (skeleton d2)" by simp
  with st2(2) iu act(1) have "desired_of (uid, iid, st2) i u \<in> set (desired_for_node n d2)"
    unfolding mem_desired tabs by blast
  then have "account_key (desired_of (uid, iid, st2) i u) \<in> account_key ` set (desired_for_node n d2)" by (rule imageI)
  with eq show ?thesis by simp
qed

lemma reconcile_converges_accounts:
  assumes "node_contract X accounts" and "wf_db (w_db w)" and "w_sched w = []"
    and "ensureClient X k w = (Inr (Inr c), w0)" and "reconcile X k w = (r, w')"
    and "a_client (w_heap w' k) \<noteq> None" and "nodeID = n_ID (a_node (w_heap w k))"
  shows "remote_accounts accounts c w' = (remote_accounts accounts c w
        - account_key ` set (removals_for_node nodeID (w_db w)))
        \<union> account_key ` set (desired_for_node nodeID (w_db w))"
proof (rule reconcile_phases [OF assms(1,3-7)])
  fix d1 assume "same_catalog (w_db w) d1"
    and "skeleton d1 = filter (\<lambda>t. \<not> deletes (removals_for_node nodeID (w_db w)) t) (skeleton (w_db w))"
    and acc: "remote_accounts accounts c w' = (remote_accounts accounts c w
       - account_key ` set (removals_for_node nodeID (w_db w))) \<union> account_key ` set (desired_for_node nodeID d1)"
  then show ?thesis using desired_after_deletes [OF assms(2)] by simp
qed

text \<open>C5: \<open>reconcile\<close> converges. A pass that does not lose its connection leaves the node with
  exactly its accounts minus those that must be absent plus those that must be present, by
  the database at its start; the same accounts are desired afterwards, every desired
  assignment is marked applied and no tombstone of the node is left.\<close>

theorem reconcile_converges:
  assumes "node_contract X accounts" and "wf_db (w_db w)" and "w_sched w = []"
    and "ensureClient X k w = (Inr (Inr c), w0)" and "reconcile X k w = (r, w')"
    and "a_client (w_heap w' k) \<noteq> None" and "nodeID = n_ID (a_node (w_heap w k))"
  shows "remote_accounts accounts c w' = (remote_accounts accounts c w
        - account_key ` set (removals_for_node nodeID (w_db w)))
        \<union> account_key ` set (desired_for_node nodeID (w_db w))
    \<and> account_key ` set (desired_for_node nodeID (w_db w')) = account_key ` set (desired_for_node nodeID (w_db w))
    \<and> (\<forall>a \<in> set (desired_for_node nodeID (w_db w')). da_SyncStatus a = SyncApplied)
    \<and> (\<forall>a \<in> set (removals_for_node nodeID (w_db w')). da_SyncStatus a \<noteq> SyncRemoving)"
proof -
  let ?d = "w_db w" and ?d2 = "w_db w'" and ?n = nodeID
  obtain d1 where cat1: "same_catalog ?d d1"
    and del: "skeleton d1 = filter (\<lambda>t. \<not> deletes (removals_for_node ?n ?d) t) (skeleton ?d)"
    and cat2: "same_catalog d1 ?d2"
    and mark: "skeleton ?d2 = map (marks (desired_for_node ?n d1)) (skeleton d1)"
    and acc: "remote_accounts accounts c w' = (remote_accounts accounts c w
       - account_key ` set (removals_for_node ?n ?d)) \<union> account_key ` set (desired_for_node ?n d1)"
    by (rule reconcile_phases [OF assms(1,3-7)])
  note same = desired_after_deletes [OF assms(2) cat1 del]
  note applied = phases_applied [OF assms(2) cat1 cat2 del mark]
  note clean = phases_no_tombstone [OF assms(2) cat1 cat2 del mark]
  note kept = phases_desired_kept [OF cat2 mark, unfolded same]
  have "account_key ` set (desired_for_node ?n ?d2) = account_key ` set (desired_for_node ?n ?d)"
    using applied kept by blast
  with acc same applied clean show ?thesis by simp
qed

text \<open>A concrete node for the witnesses: it keeps the list of its accounts.\<close>

definition toy_api :: "(string \<times> string) list xray_api" where
  "toy_api = \<lparr>x_NewClient = (\<lambda>_. None), x_AppendCertsFromPEM = (\<lambda>_. True), x_X509KeyPair = (\<lambda>_ _. None),
     x_AlterAdd = (\<lambda>c tag u x. if (tag, pu_Email u) \<in> set x then (Some ''User a already exists.'', x)
        else (None, x @ [(tag, pu_Email u)])),
     x_AlterRemove = (\<lambda>c tag e x. if (tag, e) \<in> set x then (None, filter (\<lambda>a. a \<noteq> (tag, e)) x)
        else (Some ''User a not found.'', x)),
     x_GetSysStats = (\<lambda>c x. (Inr 5, x)),
     x_QueryStats = (\<lambda>c p r x. (Inr [(''user>>>a@x>>>traffic>>>uplink'', 40), (''user>>>a@x>>>traffic>>>downlink'', 2)], x))\<rparr>"

abbreviation toy_world :: "(string \<times> string) list world" where
  "toy_world \<equiv> sample_world (\<lambda>_. [(''trojan-in'', ''b@x''), (''vless-in'', ''z@x'')])"

definition toy_client :: dial_options where
  "toy_client = \<lparr>do_Address = ''10.0.0.1'', do_Port = 10085, do_TLS = False, do_TLSServerName = '''',
     do_TLSInsecure = False, do_CACertPEM = '''', do_ClientCertPEM = '''', do_ClientKeyPEM = ''''\<rparr>"

lemma toy_contract: "node_contract toy_api set"
proof -
  have exists: "Contains (ToLower ''User a already exists.'') ''already exists''" by code_simp
  have missing: "Contains (ToLower ''User a not found.'') ''not found''" by code_simp
  show ?thesis unfolding node_contract_def toy_api_def using exists missing by (auto split: if_splits)
qed

lemma toy_reliable: "node_reliable toy_api"
proof -
  have exists: "Contains (ToLower ''User a already exists.'') ''already exists''" by code_simp
  have missing: "Contains (ToLower ''User a not found.'') ''not found''" by code_simp
  show ?thesis unfolding node_reliable_def mapAlterErr_None toy_api_def using exists missing by simp
qed

lemma toy_connects: "ensureClient toy_api 0 toy_world = (Inr (Inr toy_client), snd (ensureClient toy_api 0 toy_world))"
  by (rule run_eqI) code_simp

theorem reconcile_converges_witness:
  "set (w_remote (snd (reconcile toy_api 0 toy_world)) (target toy_client)) = {(''vless-in'', ''a@x''), (''vless-in'', ''z@x'')}"
proof -
  have "a_client (w_heap (snd (reconcile toy_api 0 toy_world)) 0) \<noteq> None" by code_simp
  note conv = reconcile_converges [OF toy_contract _ _ toy_connects run_eqI [OF refl] this refl]
  have "account_key ` set (desired_for_node (n_ID (a_node (w_heap toy_world 0))) (w_db toy_world)) = {(''vless-in'', ''a@x'')}"
    by code_simp
  moreover have "account_key ` set (removals_for_node (n_ID (a_node (w_heap toy_world 0))) (w_db toy_world)) = {(''trojan-in'', ''b@x'')}"
    by code_simp
  moreover have "set (w_remote toy_world (target toy_client)) = {(''trojan-in'', ''b@x''), (''vless-in'', ''z@x'')}"
    by code_simp
  ultimately show ?thesis using conv by (auto simp: wf_sample_db)
qed

section \<open>A reachable node is brought to the desired state\<close>

lemma remove_all_reliable:
  assumes "node_reliable X" shows "fst (remove_all X k c ds w) \<noteq> Inr False"
proof (induction ds arbitrary: w)
  case (Cons d ds)
  have "fst (RemoveUser X c (da_InboundTag d) (da_Email d) w) = None"
    using assms by (auto simp: RemoveUser_def remote_call_def node_reliable_def split: prod.splits) (metis fst_conv)
  then show ?case
    using Cons.IH by (auto simp: bindE_def callX_def ret_def attempt_def split: prod.splits sum.splits)
qed (simp add: ret_def)

lemma add_all_reliable:
  assumes "node_reliable X" and "\<forall>d \<in> set ds. \<exists>u. buildUser (accountFor d) = Inr u"
  shows "fst (add_all X k c ds w) \<noteq> Inr False"
  using assms(2)
proof (induction ds arbitrary: w)
  case (Cons d ds)
  then obtain u where "buildUser (accountFor d) = Inr u" by auto
  then have "fst (AddUser X c (da_InboundTag d) (accountFor d) w) = None"
    using assms(1) by (auto simp: AddUser_def remote_call_def node_reliable_def split: prod.splits) (metis fst_conv)
  then show ?case
    using Cons by (auto simp: bindE_def callX_def ret_def attempt_def split: prod.splits sum.splits)
qed (simp add: ret_def)

lemma reconcile_open:
  assumes "node_reliable X" and "node_contract X accounts" and "wf_db (w_db w)" and "w_sched w = []"
    and "ensureClient X k w = (Inr (Inr c), w0)" and "nodeID = n_ID (a_node (w_heap w k))"
    and "\<forall>a \<in> set (desired_for_node nodeID (w_db w)). \<exists>u. buildUser (accountFor a) = Inr u"
  shows "\<exists>w'. reconcile X k w = (Inr (), w') \<and> a_client (w_heap w' k) = Some c"
proof -
  note w0 = ensureClient_open [OF assms(5)]
  have q0: "w_sched w0 = []" using assms(4) w0 by simp
  obtain r1 w1 where rm: "remove_all X k c (removals_for_node nodeID (w_db w)) w0 = (r1, w1)" by fastforce
  have R: "w_sched w1 = []" "same_catalog (w_db w) (w_db w1)" "r1 = Inr True" "w_heap w1 = w_heap w0"
    "skeleton (w_db w1) = filter (\<lambda>t. \<not> deletes (removals_for_node nodeID (w_db w)) t) (skeleton (w_db w))"
    using remove_all_spec [OF assms(2) q0 rm] remove_all_reliable [OF assms(1), of k c "removals_for_node nodeID (w_db w)" w0] rm w0
    by auto
  obtain r2 w2 where ad: "add_all X k c (desired_for_node nodeID (w_db w1)) w1 = (r2, w2)" by fastforce
  have "\<forall>a \<in> set (desired_for_node nodeID (w_db w1)). \<exists>u. buildUser (accountFor a) = Inr u"
    using assms(7) desired_after_deletes [OF assms(3) R(2,5)] by simp
  then have A: "r2 = Inr True" "w_heap w2 = w_heap w1"
    using add_all_spec [OF assms(2) R(1) ad] add_all_reliable [OF assms(1), of "desired_for_node nodeID (w_db w1)" k c w1] ad
    by auto
  have "reconcile X k w = (Inr (), w2)"
    using assms(5) w0 quiet_queries(1) [OF q0] quiet_queries(2) [OF R(1)] rm ad R(3) A(1)
    by (simp add: reconcile_def bindE_def getA_def getW_def ret_def assms(6))
  with A(2) R(4) w0(1) show ?thesis by simp
qed


lemma toy_builds:
  "\<forall>a \<in> set (desired_for_node (n_ID (a_node (w_heap toy_world 0))) (w_db toy_world)). \<exists>u. buildUser (accountFor a) = Inr u"
proof -
  have "list_all (\<lambda>a. case buildUser (accountFor a) of Inl e \<Rightarrow> False | Inr u \<Rightarrow> True)
      (desired_for_node (n_ID (a_node (w_heap toy_world 0))) (w_db toy_world))"
    by code_simp
  then show ?thesis unfolding list_all_iff by (metis (mono_tags, lifting) old.sum.exhaust sum.case(1))
qed


lemma toy_sets:
  "account_key ` set (desired_for_node (n_ID (a_node (w_heap toy_world 0))) (w_db toy_world)) = {(''vless-in'', ''a@x'')}"
  "account_key ` set (removals_for_node (n_ID (a_node (w_heap toy_world 0))) (w_db toy_world)) = {(''trojan-in'', ''b@x'')}"
  "set (w_remote toy_world (target toy_client)) = {(''trojan-in'', ''b@x''), (''vless-in'', ''z@x'')}"
  by code_simp+

end
