(* ===== verification/Collector.thy ===== *)
theory Collector
  imports Convergence
begin

text \<open>
  Traffic collection (\<open>collector.go\<close>) loses no bytes. Counters are reset on the node when
  they are read, so what was read must end up in the database or in \<open>pendingDeltas\<close>,
  whichever call fails on the way.
\<close>

section \<open>Merging and resolving\<close>

lemma merge_one_entry:
  "traffic_entry e (merge_one pending t) = (if e = ut_Email t then Some (case traffic_entry e pending of None \<Rightarrow> t
      | Some p \<Rightarrow> p\<lparr>ut_Uplink := ut_Uplink p + ut_Uplink t, ut_Downlink := ut_Downlink p + ut_Downlink t\<rparr>)
    else traffic_entry e pending)"
proof (cases "ut_Email t \<in> ut_Email ` set pending")
  case True
  let ?f = "\<lambda>p. if ut_Email p = ut_Email t
        then p\<lparr>ut_Uplink := ut_Uplink p + ut_Uplink t, ut_Downlink := ut_Downlink p + ut_Downlink t\<rparr> else p"
  have "traffic_entry e (map ?f pending) = map_option ?f (traffic_entry e pending)"
    unfolding traffic_entry_def by (rule find_map_other) simp
  moreover have "traffic_entry (ut_Email t) pending \<noteq> None" using True by (simp add: traffic_entry_None)
  ultimately show ?thesis
    using True traffic_entry_email [of e pending]
    by (cases "traffic_entry e pending") (auto simp: merge_one_def)
next
  case False
  then have "traffic_entry (ut_Email t) pending = None" by (simp add: traffic_entry_None)
  with False show ?thesis by (auto simp: merge_one_def traffic_entry_append split: option.splits)
qed

lemma merge_one_distinct: "distinct (map ut_Email pending) \<Longrightarrow> distinct (map ut_Email (merge_one pending t))"
proof -
  assume d: "distinct (map ut_Email pending)"
  have "map ut_Email (map (\<lambda>p. if ut_Email p = ut_Email t
        then p\<lparr>ut_Uplink := ut_Uplink p + ut_Uplink t, ut_Downlink := ut_Downlink p + ut_Downlink t\<rparr> else p) pending)
     = map ut_Email pending" by simp
  with d show ?thesis by (simp add: merge_one_def del: map_map)
qed

lemma merge_traffic_distinct:
  "distinct (map ut_Email pending) \<Longrightarrow> distinct (map ut_Email (merge_traffic pending ts))"
  unfolding merge_traffic_def by (induction ts arbitrary: pending) (simp_all add: merge_one_distinct)

lemma merge_one_at:
  "up_at e (merge_one pending t) = up_at e pending + (if e = ut_Email t then ut_Uplink t else 0)"
  "down_at e (merge_one pending t) = down_at e pending + (if e = ut_Email t then ut_Downlink t else 0)"
  by (simp_all add: up_at_def down_at_def merge_one_entry split: option.splits)

lemma entry_Cons: "up_at e (t # ts) = (if ut_Email t = e then ut_Uplink t else up_at e ts)"
  "down_at e (t # ts) = (if ut_Email t = e then ut_Downlink t else down_at e ts)"
  by (simp_all add: up_at_def down_at_def traffic_entry_def)

lemma at_absent: "e \<notin> ut_Email ` set ts \<Longrightarrow> up_at e ts = 0 \<and> down_at e ts = 0"
  unfolding up_at_def down_at_def by (simp add: traffic_entry_None [symmetric])

lemma merge_traffic_at:
  assumes "distinct (map ut_Email ts)"
  shows "up_at e (merge_traffic pending ts) = up_at e pending + up_at e ts"
    and "down_at e (merge_traffic pending ts) = down_at e pending + down_at e ts"
proof -
  have "up_at e (foldl merge_one pending ts) = up_at e pending + up_at e ts
      \<and> down_at e (foldl merge_one pending ts) = down_at e pending + down_at e ts"
    using assms
  proof (induction ts arbitrary: pending)
    case Nil
    then show ?case by (simp add: up_at_def down_at_def traffic_entry_def)
  next
    case (Cons t ts)
    then show ?case using at_absent [of e ts] by (auto simp: merge_one_at entry_Cons)
  qed
  then show "up_at e (merge_traffic pending ts) = up_at e pending + up_at e ts"
    and "down_at e (merge_traffic pending ts) = down_at e pending + down_at e ts"
    by (simp_all add: merge_traffic_def)
qed

lemma resolve_absent:
  assumes "\<And>e. e \<in> ut_Email ` set ts \<Longrightarrow> idByEmail e \<noteq> Some uid"
  shows "up_of uid (resolve_deltas idByEmail ts) = 0 \<and> down_of uid (resolve_deltas idByEmail ts) = 0"
  using assms by (induction ts) (auto simp: up_of_def down_of_def split: option.splits)

lemma resolve_sum:
  assumes "distinct (map ut_Email ts)"
    and "\<And>e. e \<in> ut_Email ` set ts \<Longrightarrow> idByEmail e = Some uid \<longleftrightarrow> e = email"
  shows "up_of uid (resolve_deltas idByEmail ts) = sint (up_at email ts)
       \<and> down_of uid (resolve_deltas idByEmail ts) = sint (down_at email ts)"
  using assms
proof (induction ts)
  case Nil
  then show ?case by (simp add: up_of_def down_of_def up_at_def down_at_def traffic_entry_def)
next
  case (Cons t ts)
  show ?case
  proof (cases "ut_Email t = email")
    case True
    have "idByEmail e \<noteq> Some uid" if "e \<in> ut_Email ` set ts" for e
    proof -
      have "email \<notin> ut_Email ` set ts" using True Cons.prems(1) by simp
      with that have "e \<noteq> email" by blast
      with Cons.prems(2) [of e] that show ?thesis by simp
    qed
    from resolve_absent [OF this] True Cons.prems(2) [of email] show ?thesis
      by (simp add: up_of_def down_of_def entry_Cons)
  next
    case False
    with Cons show ?thesis by (auto simp: up_of_def down_of_def entry_Cons split: option.splits)
  qed
qed

definition ids_by_email :: "string list \<Rightarrow> db \<Rightarrow> string \<Rightarrow> string option" where
  "ids_by_email emails d = map_of (map (\<lambda>u. (u_Email u, u_ID u)) (filter (\<lambda>u. u_Email u \<in> set emails) (db_users d)))"

lemma ids_by_email_user:
  assumes wf: "wf_db d" and u: "u \<in> set (db_users d)" and e: "e \<in> set emails"
  shows "ids_by_email emails d e = Some (u_ID u) \<longleftrightarrow> e = u_Email u"
proof -
  have dist: "distinct (map fst (map (\<lambda>u. (u_Email u, u_ID u)) (filter (\<lambda>u. u_Email u \<in> set emails) (db_users d))))"
    using wf_db_distinct(7) [OF wf] by (simp add: o_def distinct_map_filter)
  have "ids_by_email emails d e = Some (u_ID u) \<longleftrightarrow> (\<exists>v \<in> set (db_users d). u_Email v \<in> set emails \<and> u_Email v = e \<and> u_ID v = u_ID u)"
    unfolding ids_by_email_def using map_of_eq_Some_iff [OF dist] by auto
  also have "\<dots> \<longleftrightarrow> e = u_Email u"
    using u e user_unique [OF wf] by blast
  finally show ?thesis .
qed

section \<open>Runs without interference\<close>

lemma calm_at_call: "calm w \<Longrightarrow> db_at_call w = w_db w"
  by (auto simp: calm_def db_at_call_def split: list.splits)

lemma calm_query:
  assumes "calm w" and "db_query q w = (r, w')"
  shows "calm w'" "w_db w' = w_db w" "w_heap w' = w_heap w" "r = q (w_db w) \<or> (\<exists>msg. r = Inl (DriverErr msg))"
proof -
  show "calm w'" using keepsD [OF calm_db_query assms(1), of q] assms(2) by simp
  show "w_db w' = w_db w" "w_heap w' = w_heap w" "r = q (w_db w) \<or> (\<exists>msg. r = Inl (DriverErr msg))"
    using assms
    by (auto simp: calm_def db_query_def db_exec_def next_call_def run_stmt_def split: list.splits option.splits sum.splits)
qed

lemma UserIDsByEmail_calm:
  assumes "calm w" and "UserIDsByEmail emails w = (r, w')" and "emails \<noteq> []"
  shows "calm w'" "w_db w' = w_db w" "w_heap w' = w_heap w" "r = Inr (ids_by_email emails (w_db w)) \<or> (\<exists>e. r = Inl e)"
  using assms
  by (auto simp: UserIDsByEmail_def onErr_def ids_by_email_def dest: calm_query split: prod.splits sum.splits)

text \<open>The state a reconcile trigger leaves alone.\<close>

definition settled :: "nat \<Rightarrow> db \<Rightarrow> user_traffic list \<Rightarrow> 'x world \<Rightarrow> bool" where
  "settled k d pending w \<longleftrightarrow> calm w \<and> w_db w = d \<and> a_pendingDeltas (w_heap w k) = pending"

lemma settled_query [pres]: "keeps (settled k d p) (db_query q)"
proof (unfold keeps_def, intro allI impI)
  fix w :: "'a world" assume "settled k d p w"
  then show "settled k d p (snd (db_query q w))"
    using calm_query(1-3) [of w q, OF _ surjective_pairing] by (simp add: settled_def)
qed

lemma settled_trigger [pres]: "keeps (settled k d p) (triggerReconcile j)"
  by (simp add: keeps_def settled_def triggerReconcile_def updA_def modifyW_def calm_def)

lemma settled_reconcile_targets [pres]: "keeps (settled k d p) (reconcile_targets ns seen)"
  by (induction ns arbitrary: seen) (auto simp: Reconcile_def intro!: pres)

lemma settled_ReconcileForUser [pres]: "keeps (settled k d p) (ReconcileForUser uid)"
  unfolding ReconcileForUser_def store_defs by (intro pres)

lemma calm_ApplyTrafficDeltas [pres]: "keeps calm (ApplyTrafficDeltas n ts at)"
  unfolding ApplyTrafficDeltas_def by (intro pres)

lemma heap_tx_exec [pres]: "keeps (\<lambda>w. w_heap w = h) (tx_exec q)"
  by (auto simp: keeps_def tx_exec_def next_tx_call_def run_stmt_def split: list.splits option.splits sum.splits)

lemma heap_WithTx [pres]:
  assumes "keeps (\<lambda>w. w_heap w = h) fn" shows "keeps (\<lambda>w. w_heap w = h) (WithTx fn)"
proof (unfold keeps_def, intro allI impI)
  fix w :: "'a world" assume h: "w_heap w = h"
  obtain f w0 r w1 g w2 where c: "next_call w = (f, w0)" and fn: "fn w0 = (r, w1)" and c2: "next_tx_call w1 = (g, w2)"
    by (metis surj_pair)
  have h0: "w_heap w0 = h" using c h by (auto simp: next_call_def split: list.splits)
  have h1: "w_heap w1 = h" using keepsD [OF assms h0] fn by simp
  have h2: "w_heap w2 = h" using c2 h1 by (auto simp: next_tx_call_def split: list.splits)
  show "w_heap (snd (WithTx fn w)) = h"
    using h0 h1 h2 c fn c2 by (auto simp: WithTx_def split: option.splits sum.splits)
qed

lemma ApplyTrafficDeltas_heap: "ApplyTrafficDeltas n ts at w = (r, w') \<Longrightarrow> w_heap w' = w_heap w"
proof -
  assume run: "ApplyTrafficDeltas n ts at w = (r, w')"
  have "keeps (\<lambda>v. w_heap v = w_heap w) (ApplyTrafficDeltas n ts at)"
    unfolding ApplyTrafficDeltas_def by (intro pres)
  from keepsD [OF this, of w] run show ?thesis by simp
qed

section \<open>One collection\<close>

lemma deltas_credit:
  assumes wf: "wf_db d" and u: "u \<in> set (db_users d)" and dist: "distinct (map ut_Email ts)"
    and run: "apply_deltas n (resolve_deltas (ids_by_email (map ut_Email ts) d) ts) at now d = Inr (ids, d')"
  shows "\<exists>u'. find_user (u_ID u) d' = Some u' \<and>
      sint (u_UsedUploadBytes u') = sint (u_UsedUploadBytes u) + sint (up_at (u_Email u) ts) \<and>
      sint (u_UsedDownloadBytes u') = sint (u_UsedDownloadBytes u) + sint (down_at (u_Email u) ts)"
proof -
  have "find_user (u_ID u) d = Some u" using u by (simp add: find_user_wf [OF wf])
  note credit = apply_deltas_user(1) [OF wf run this]
  have "ids_by_email (map ut_Email ts) d e = Some (u_ID u) \<longleftrightarrow> e = u_Email u" if "e \<in> ut_Email ` set ts" for e
    using ids_by_email_user [OF wf u] that by simp
  from resolve_sum [OF dist this] credit show ?thesis by auto
qed

text \<open>The part of \<open>collect\<close> after the counters were read and merged.\<close>

definition persist :: "nat \<Rightarrow> ('x, unit) io" where
  "persist k = bindE (getA k) (\<lambda>a.
          if a_pendingDeltas a = [] then ret ()
          else bindE (attempt (UserIDsByEmail (map ut_Email (a_pendingDeltas a)))) (\<lambda>r. case r of
              Inl e \<Rightarrow> ret ()
            | Inr idByEmail \<Rightarrow> bindE time_Now (\<lambda>now.
                bindE (attempt (ApplyTrafficDeltas (n_ID (a_node a))
                    (resolve_deltas idByEmail (a_pendingDeltas a)) now)) (\<lambda>r. case r of
                  Inl e \<Rightarrow> ret ()
                | Inr overQuota \<Rightarrow> bindE (updA k (\<lambda>a. a\<lparr>a_pendingDeltas := []\<rparr>)) (\<lambda>_.
                    forEach overQuota ReconcileForUser)))))"

lemma collect_persist:
  assumes "ensureClient X k w = (Inr (Inr c), w0)" and "QueryUserTraffic X c True w0 = (Inr traffic, w1)"
  shows "collect X k w = persist k (w1\<lparr>w_heap := (w_heap w1)(k := (w_heap w1 k)\<lparr>a_pendingDeltas :=
     merge_traffic (a_pendingDeltas (w_heap w1 k)) traffic\<rparr>)\<rparr>)"
  using assms by (simp add: collect_def persist_def bindE_def callX_def updA_def modifyW_def)

lemma persist_conserves:
  assumes wf: "wf_db (w_db w)" and calm: "calm w" and p: "a_pendingDeltas (w_heap w k) = p"
    and dist: "distinct (map ut_Email p)" and run: "persist k w = (r, w')"
  shows "(a_pendingDeltas (w_heap w' k) = p \<and> w_db w' = w_db w) \<or>
    (a_pendingDeltas (w_heap w' k) = [] \<and> (\<forall>u \<in> set (db_users (w_db w)). \<exists>u'. find_user (u_ID u) (w_db w') = Some u' \<and>
      sint (u_UsedUploadBytes u') = sint (u_UsedUploadBytes u) + sint (up_at (u_Email u) p) \<and>
      sint (u_UsedDownloadBytes u') = sint (u_UsedDownloadBytes u) + sint (down_at (u_Email u) p)))"
proof (cases "p = []")
  case True
  with run p show ?thesis by (simp add: persist_def bindE_def getA_def getW_def ret_def)
next
  case False
  let ?emails = "map ut_Email p" and ?n = "n_ID (a_node (w_heap w k))"
  obtain q w1 where q: "UserIDsByEmail ?emails w = (q, w1)" by fastforce
  have "?emails \<noteq> []" using False by simp
  note Q = UserIDsByEmail_calm [OF calm q this]
  show ?thesis
  proof (cases q)
    case (Inl e)
    with run p False q Q(2,3) show ?thesis by (simp add: persist_def bindE_def getA_def getW_def ret_def attempt_def)
  next
    case (Inr idE)
    with Q(4) have idE: "idE = ids_by_email ?emails (w_db w)" by simp
    obtain now w2 where t: "time_Now w1 = (Inr now, w2)" by (auto simp: time_Now_def)
    note T = time_Now_keeps [OF t]
    have calm2: "calm w2" using T Q(1) by (simp add: calm_def)
    obtain s w3 where s: "ApplyTrafficDeltas ?n (resolve_deltas idE p) now w2 = (s, w3)" by fastforce
    have "calm (snd (ApplyTrafficDeltas ?n (resolve_deltas idE p) now w2))"
      by (rule keepsD [OF calm_ApplyTrafficDeltas calm2])
    then have calm3: "calm w3" using s by simp
    have heap3: "w_heap w3 = w_heap w"
      using ApplyTrafficDeltas_heap [OF s] T Q(3) by simp
    have at: "db_at_call w2 = w_db w" using calm_at_call [OF calm2] T Q(2) by simp
    show ?thesis
    proof (cases s)
      case (Inl e)
      then have "w_db w3 = w_db w" using ApplyTrafficDeltas_failed [OF s [unfolded Inl]] at by simp
      moreover have "w' = w3" using run p False q Inr t s Inl
        by (simp add: persist_def bindE_def getA_def getW_def ret_def attempt_def)
      ultimately show ?thesis using p heap3 by simp
    next
      case (Inr ids)
      let ?w4 = "w3\<lparr>w_heap := (w_heap w3)(k := (w_heap w3 k)\<lparr>a_pendingDeltas := []\<rparr>)\<rparr>"
      have "(r, w') = forEach ids ReconcileForUser ?w4" using run p False q \<open>q = Inr idE\<close> t s Inr
        by (simp add: persist_def bindE_def getA_def getW_def ret_def attempt_def updA_def modifyW_def)
      moreover have "settled k (w_db w3) [] ?w4" using calm3 by (simp add: settled_def calm_def)
      then have "settled k (w_db w3) [] (snd (forEach ids ReconcileForUser ?w4))"
        by (rule keepsD [OF keeps_forEach [OF settled_ReconcileForUser]])
      ultimately have "settled k (w_db w3) [] w'" by (metis snd_conv)
      then have w': "w_db w' = w_db w3" "a_pendingDeltas (w_heap w' k) = []" by (simp_all add: settled_def)
      have "apply_deltas ?n (resolve_deltas (ids_by_email ?emails (w_db w)) p) now (w_now w2) (w_db w) = Inr (ids, w_db w3)"
        using ApplyTrafficDeltas_done [OF s [unfolded Inr]] at idE by simp
      from deltas_credit [OF wf _ dist this] w' show ?thesis by simp
    qed
  qed
qed

lemma QueryUserTraffic_distinct:
  "QueryUserTraffic X c reset w = (Inr uts, w') \<Longrightarrow> distinct (map ut_Email uts)"
  by (auto simp: QueryUserTraffic_def group_stats_distinct split: prod.splits sum.splits)

lemma QueryUserTraffic_keeps:
  "QueryUserTraffic X c reset w = (r, w') \<Longrightarrow> w_db w' = w_db w \<and> w_sched w' = w_sched w \<and> w_heap w' = w_heap w"
  by (auto simp: QueryUserTraffic_def dest!: remote_call_keeps split: prod.splits sum.splits)

lemma ensureClient_pending:
  "ensureClient X k w = (r, w') \<Longrightarrow> a_pendingDeltas (w_heap w' k) = a_pendingDeltas (w_heap w k)"
  by (auto simp: ensureClient_def bindE_def getA_def getW_def updA_def modifyW_def ret_def split: option.splits sum.splits)



text \<open>The answer of the sample node, grouped by \<open>QueryUserTraffic\<close>.\<close>

theorem QueryUserTraffic_groups_witness:
  "\<exists>uts. fst (QueryUserTraffic toy_api toy_client True toy_world) = Inr uts \<and> distinct (map ut_Email uts)
    \<and> up_at ''a@x'' uts = 40 \<and> down_at ''a@x'' uts = 2"
proof -
  let ?stats = "[(''user>>>a@x>>>traffic>>>uplink'', 40), (''user>>>a@x>>>traffic>>>downlink'', 2)]"
  have "x_QueryStats toy_api toy_client ''user>>>'' True (w_remote toy_world (target toy_client))
      = (Inr ?stats, w_remote toy_world (target toy_client))" by (simp add: toy_api_def)
  note groups = QueryUserTraffic_groups [OF this, of "''a@x''"]
  have "stat_sum ''a@x'' ''uplink'' ?stats = 40" "stat_sum ''a@x'' ''downlink'' ?stats = 2" by code_simp+
  with groups show ?thesis by simp
qed


end
