(* ===== verification/Health.thy ===== *)
theory Health
  imports Convergence
begin

text \<open>
  Health checking (\<open>nodeactor.go\<close>) as a state machine. \<open>checkHealth\<close> refines a pure
  automaton over the outcome of one probe: the number of consecutive failures, whether the
  node counts as online, and its last uptime. What the automaton decides is written to the
  node's row, and a node that was offline or has restarted is reconciled at once.
\<close>

section \<open>The automaton\<close>

record health =
  h_failCount :: nat
  h_online :: bool
  h_lastUptime :: uint32

definition health_of :: "actor \<Rightarrow> health" where
  "health_of a = \<lparr>h_failCount = a_failCount a, h_online = a_online a, h_lastUptime = a_lastUptime a\<rparr>"

fun health_next :: "xerr + uint32 \<Rightarrow> health \<Rightarrow> health" where
  "health_next (Inl e) h = h\<lparr>h_failCount := h_failCount h + 1,
     h_online := h_online h \<and> h_failCount h + 1 < healthFailThreshold\<rparr>"
| "health_next (Inr uptime) h = \<lparr>h_failCount = 0, h_online = True, h_lastUptime = uptime\<rparr>"

text \<open>The status a probe writes to the database, when it writes one.\<close>

fun health_status :: "xerr + uint32 \<Rightarrow> health \<Rightarrow> NodeStatus \<Rightarrow> NodeStatus option" where
  "health_status (Inl e) h current =
     (if healthFailThreshold \<le> h_failCount h + 1 \<and> h_online h then Some NodeStatusOffline
      else if h_failCount h + 1 < healthFailThreshold then Some current else None)"
| "health_status (Inr uptime) h current = Some NodeStatusOnline"

definition health_reconciles :: "xerr + uint32 \<Rightarrow> health \<Rightarrow> bool" where
  "health_reconciles p h \<longleftrightarrow> (case p of Inl e \<Rightarrow> False
     | Inr uptime \<Rightarrow> \<not> h_online h \<or> (0 < h_lastUptime h \<and> uptime < h_lastUptime h))"

text \<open>The outcome of the probe that \<open>checkHealth\<close> makes.\<close>

definition probe_of :: "'x xray_api \<Rightarrow> nat \<Rightarrow> 'x world \<Rightarrow> xerr + uint32" where
  "probe_of X k w = (case ensureClient X k w of
      (Inr (Inr c), w0) \<Rightarrow> fst (Ping X c w0)
    | (Inr (Inl e), w0) \<Rightarrow> Inl e
    | (Inl e, w0) \<Rightarrow> Inl CACertErr)"

section \<open>Functions that leave the health of an actor alone\<close>

definition on_heap :: "((nat \<Rightarrow> actor) \<Rightarrow> bool) \<Rightarrow> 'x world \<Rightarrow> bool" where
  "on_heap Q w \<longleftrightarrow> Q (w_heap w)"

lemma on_heap_db_exec [pres]: "keeps (on_heap Q) (db_exec q)"
  by (auto simp: keeps_def on_heap_def db_exec_def next_call_def run_stmt_def split: list.splits option.splits sum.splits)

lemma on_heap_db_query [pres]: "keeps (on_heap Q) (db_query q)"
  unfolding db_query_def by (rule pres)

lemma on_heap_time_Now [pres]: "keeps (on_heap Q) time_Now"
  by (auto simp: keeps_def on_heap_def time_Now_def split: list.splits)

lemma on_heap_client [pres]:
  "keeps (on_heap Q) (callX (RemoveUser X c tag email))" "keeps (on_heap Q) (callX (AddUser X c tag acc))"
  by (auto simp: keeps_def on_heap_def callX_def dest: client_keeps split: prod.splits)

lemma on_heap_updA [pres]:
  "(\<And>h. Q h \<Longrightarrow> Q (h(k := f (h k)))) \<Longrightarrow> keeps (on_heap Q) (updA k f)"
  by (simp add: keeps_def on_heap_def updA_def modifyW_def)

lemma on_heap_store [pres]:
  "keeps (on_heap Q) (DeleteAssignment u i)" "keeps (on_heap Q) (MarkAssignmentSynced u i st e)"
  "keeps (on_heap Q) (RemovalsForNode n)" "keeps (on_heap Q) (DesiredForNode n)"
  "keeps (on_heap Q) (SetNodeHealth n hs e seen)"
  unfolding store_defs by (intro pres)+

lemma on_heap_loops [pres]:
  assumes "\<And>h. Q h \<Longrightarrow> Q (h(k := (h k)\<lparr>a_client := None\<rparr>))"
  shows "keeps (on_heap Q) (remove_all X k c ds)" and "keeps (on_heap Q) (add_all X k c ds)"
proof -
  have drop: "keeps (on_heap Q) (dropClient k)" unfolding dropClient_def using assms by (rule pres)
  show "keeps (on_heap Q) (remove_all X k c ds)" "keeps (on_heap Q) (add_all X k c ds)"
    by (induction ds) (auto intro!: pres drop)
qed

lemma health_of_client [simp]: "health_of (a\<lparr>a_client := z\<rparr>) = health_of a"
  "health_of (a\<lparr>a_node := n\<rparr>) = health_of a"
  by (simp_all add: health_of_def)

lemma on_heap_reconcile: "keeps (on_heap (\<lambda>h. health_of (h k) = x)) (reconcile X k)"
  unfolding reconcile_def ensureClient_def by (intro pres) simp_all

lemma on_heap_setHealth: "keeps (on_heap (\<lambda>h. health_of (h k) = x)) (setHealth k st e seen)"
  unfolding setHealth_def by (intro pres) simp_all

section \<open>\<open>checkHealth\<close> refines the automaton\<close>

lemma reconcile_health: "health_of (w_heap (snd (reconcile X k w)) k) = health_of (w_heap w k)"
  using keepsD [OF on_heap_reconcile, of k "health_of (w_heap w k)" w] by (simp add: on_heap_def)

lemma setHealth_health: "health_of (w_heap (snd (setHealth k st e seen w)) k) = health_of (w_heap w k)"
  using keepsD [OF on_heap_setHealth, of k "health_of (w_heap w k)" w] by (simp add: on_heap_def)

lemma setHealth_returns: "\<exists>w'. setHealth k st e seen w = (Inr (), w')"
  by (auto simp: setHealth_def bindE_def updA_def modifyW_def getA_def getW_def attempt_def ret_def split: prod.splits)

lemma ensureClient_returns:
  "\<exists>r w0. ensureClient X k w = (Inr r, w0) \<and> health_of (w_heap w0 k) = health_of (w_heap w k)
     \<and> a_node (w_heap w0 k) = a_node (w_heap w k) \<and> w_db w0 = w_db w \<and> w_sched w0 = w_sched w \<and> w_remote w0 = w_remote w"
  by (auto simp: ensureClient_def bindE_def getA_def getW_def updA_def modifyW_def ret_def health_of_def
      split: option.splits sum.splits)

lemma Ping_keeps: "Ping X c w = (r, w') \<Longrightarrow> w_db w' = w_db w \<and> w_sched w' = w_sched w \<and> w_heap w' = w_heap w"
  by (auto simp: Ping_def dest!: remote_call_keeps split: prod.splits sum.splits)

lemma checkHealth_probe:
  obtains w1 where "health_of (w_heap w1 k) = health_of (w_heap w k)" "a_node (w_heap w1 k) = a_node (w_heap w k)"
    "w_db w1 = w_db w" "w_sched w1 = w_sched w"
    "checkHealth X k w = (case probe_of X k w of Inl e \<Rightarrow> health_failed k e w1 | Inr uptime \<Rightarrow> health_passed X k uptime w1)"
proof -
  obtain z w0 where z: "ensureClient X k w = (Inr z, w0)" and w0: "health_of (w_heap w0 k) = health_of (w_heap w k)"
      "a_node (w_heap w0 k) = a_node (w_heap w k)" "w_db w0 = w_db w" "w_sched w0 = w_sched w"
    using ensureClient_returns [of X k w] by blast
  show ?thesis
  proof (cases z)
    case (Inl e)
    with z w0 that [of w0] show ?thesis by (simp add: probe_of_def checkHealth_def bindE_def ret_def)
  next
    case (Inr c)
    obtain p w1 where p: "Ping X c w0 = (p, w1)" by fastforce
    from Inr z w0 p Ping_keeps [OF p] that [of w1] show ?thesis
      by (simp add: probe_of_def checkHealth_def bindE_def callX_def split: sum.splits)
  qed
qed

lemma health_of_updates [simp]:
  "health_of (a\<lparr>a_failCount := n\<rparr>) = (health_of a)\<lparr>h_failCount := n\<rparr>"
  "health_of (a\<lparr>a_online := b\<rparr>) = (health_of a)\<lparr>h_online := b\<rparr>"
  "health_of (a\<lparr>a_lastUptime := t\<rparr>) = (health_of a)\<lparr>h_lastUptime := t\<rparr>"
  "h_failCount (health_of a) = a_failCount a" "h_online (health_of a) = a_online a"
  "h_lastUptime (health_of a) = a_lastUptime a"
  by (simp_all add: health_of_def)

lemma time_Now_returns: "\<exists>w'. time_Now w = (Inr (w_now w), w') \<and> w_db w' = w_db w \<and> w_sched w' = w_sched w
    \<and> w_heap w' = w_heap w \<and> w_remote w' = w_remote w"
  by (auto simp: time_Now_def split: list.splits)

lemma health_failed_refines: "health_of (w_heap (snd (health_failed k e w)) k) = health_next (Inl e) (health_of (w_heap w k))"
  by (simp add: health_failed_def bindE_def updA_def dropClient_def modifyW_def getA_def getW_def ret_def setHealth_health)

lemma health_passed_steps:
  obtains w1 where "health_of (w_heap w1 k) = health_next (Inr uptime) (health_of (w_heap w k))"
    "health_passed X k uptime w = (if health_reconciles (Inr uptime) (health_of (w_heap w k)) then reconcile X k w1 else (Inr (), w1))"
proof -
  let ?w0 = "w\<lparr>w_heap := (w_heap w)(k := (w_heap w k)\<lparr>a_failCount := 0\<rparr>)\<rparr>"
  obtain w2 where t: "time_Now ?w0 = (Inr (w_now w), w2)" and w2: "w_heap w2 = (w_heap w)(k := (w_heap w k)\<lparr>a_failCount := 0\<rparr>)"
    using time_Now_returns [of ?w0] by auto
  let ?w3 = "w2\<lparr>w_heap := (w_heap w2)(k := (w_heap w2 k)\<lparr>a_lastUptime := uptime, a_online := True\<rparr>)\<rparr>"
  obtain w4 where s: "setHealth k NodeStatusOnline '''' (Some (w_now w)) ?w3 = (Inr (), w4)"
    using setHealth_returns by blast
  show ?thesis
  proof (rule that [of w4])
    show "health_of (w_heap w4 k) = health_next (Inr uptime) (health_of (w_heap w k))"
      using setHealth_health [of k NodeStatusOnline "''''" "Some (w_now w)" ?w3] s w2 by simp
    show "health_passed X k uptime w = (if health_reconciles (Inr uptime) (health_of (w_heap w k)) then reconcile X k w4 else (Inr (), w4))"
      using t s w2 by (simp add: health_passed_def bindE_def updA_def modifyW_def getA_def getW_def ret_def Let_def health_reconciles_def)
  qed
qed

lemma health_passed_refines:
  "health_of (w_heap (snd (health_passed X k uptime w)) k) = health_next (Inr uptime) (health_of (w_heap w k))"
  by (rule health_passed_steps [of k uptime w X]) (simp add: reconcile_health)

lemma checkHealth_state:
  "health_of (w_heap (snd (checkHealth X k w)) k) = health_next (probe_of X k w) (health_of (w_heap w k))"
proof -
  obtain w1 where "health_of (w_heap w1 k) = health_of (w_heap w k)"
    "checkHealth X k w = (case probe_of X k w of Inl e \<Rightarrow> health_failed k e w1 | Inr uptime \<Rightarrow> health_passed X k uptime w1)"
    by (rule checkHealth_probe)
  then show ?thesis
    by (cases "probe_of X k w") (simp_all add: health_failed_refines health_passed_refines del: health_next.simps)
qed

text \<open>C13: \<open>checkHealth\<close> refines the health automaton: whatever the node, the database and
  the other goroutines do, the failure count, the online flag and the last uptime after a
  check are those of the automaton for the outcome of the probe.\<close>

theorem checkHealth_refines:
  "health_of (w_heap (snd (checkHealth X k w)) k) = health_next (probe_of X k w) (health_of (w_heap w k))"
  by (rule checkHealth_state)

section \<open>What is written to the database\<close>

definition node_statuses :: "db \<Rightarrow> (string \<times> NodeStatus) list" where
  "node_statuses d = map (\<lambda>n. (n_ID n, n_Status n)) (db_nodes d)"

definition set_status :: "string \<Rightarrow> NodeStatus \<Rightarrow> (string \<times> NodeStatus) list \<Rightarrow> (string \<times> NodeStatus) list" where
  "set_status i st = map (\<lambda>(j, s). (j, if j = i then st else s))"

lemma setHealth_quiet:
  assumes "w_sched w = []" and "setHealth k st e seen w = (r, w')"
  shows "w_sched w' = []" "w_remote w' = w_remote w" "a_client (w_heap w' k) = a_client (w_heap w k)"
    "n_ID (a_node (w_heap w' k)) = n_ID (a_node (w_heap w k))"
    "\<exists>ns. w_db w' = (w_db w)\<lparr>db_nodes := ns\<rparr>"
    "node_statuses (w_db w') = set_status (n_ID (a_node (w_heap w k))) st (node_statuses (w_db w))"
  using assms
  by (auto simp: setHealth_def bindE_def updA_def modifyW_def getA_def getW_def attempt_def SetNodeHealth_def requireRow_def
      onErr_def db_exec_quiet set_node_health_def ret_def raise_def node_statuses_def set_status_def update_rows_def
      split: if_splits)

lemma reconcile_nodes: "preserves (\<lambda>d. db_nodes d = ns) (reconcile X k)"
proof -
  have stmts: "delete_assignment u i now d = Inr (x, d') \<Longrightarrow> db_nodes d' = db_nodes d"
    "touch_assignments P f now d = Inr (x, d') \<Longrightarrow> db_nodes d' = db_nodes d" for u i now d x d' P f
    by (auto simp: delete_assignment_def touch_assignments_def)
  have loops: "preserves (\<lambda>d. db_nodes d = ns) (remove_all X k c ds)" "preserves (\<lambda>d. db_nodes d = ns) (add_all X k c ds)" for c ds
    by (induction ds) (auto simp: DeleteAssignment_def MarkAssignmentSynced_def dest!: stmts intro!: pres)
  show ?thesis unfolding reconcile_def by (intro pres loops)
qed

lemma reconcile_statuses:
  assumes "w_sched w = []" shows "node_statuses (w_db (snd (reconcile X k w))) = node_statuses (w_db w)"
  using keepsD [OF reconcile_nodes, of "db_nodes (w_db w)" w X k] assms
  by (simp add: holdsW_def rely_def node_statuses_def)

lemma health_failed_statuses:
  assumes "w_sched w = []" and "n = a_node (w_heap w k)"
  shows "node_statuses (w_db (snd (health_failed k e w))) = (case health_status (Inl e) (health_of (w_heap w k)) (n_Status n) of
     None \<Rightarrow> node_statuses (w_db w) | Some st \<Rightarrow> set_status (n_ID n) st (node_statuses (w_db w)))"
proof -
  let ?w1 = "w\<lparr>w_heap := (w_heap w)(k := (w_heap w k)\<lparr>a_failCount := a_failCount (w_heap w k) + 1, a_client := None\<rparr>)\<rparr>"
  let ?w2 = "w\<lparr>w_heap := (w_heap w)(k := (w_heap w k)\<lparr>a_failCount := a_failCount (w_heap w k) + 1, a_client := None, a_online := False\<rparr>)\<rparr>"
  show ?thesis
    using setHealth_quiet(6) [of ?w1 k "n_Status n" "xerr_Error e" None, OF _ surjective_pairing]
      setHealth_quiet(6) [of ?w2 k NodeStatusOffline "xerr_Error e" None, OF _ surjective_pairing] assms
    by (auto simp: health_failed_def bindE_def updA_def dropClient_def modifyW_def getA_def getW_def ret_def)
qed

lemma health_passed_quiet:
  assumes quiet: "w_sched w = []"
  obtains w1 ns where "health_passed X k uptime w =
      (if health_reconciles (Inr uptime) (health_of (w_heap w k)) then reconcile X k w1 else (Inr (), w1))"
    "w_sched w1 = []" "w_remote w1 = w_remote w" "a_client (w_heap w1 k) = a_client (w_heap w k)"
    "n_ID (a_node (w_heap w1 k)) = n_ID (a_node (w_heap w k))" "w_db w1 = (w_db w)\<lparr>db_nodes := ns\<rparr>"
    "wf_db (w_db w) \<Longrightarrow> wf_db (w_db w1)"
    "node_statuses (w_db w1) = set_status (n_ID (a_node (w_heap w k))) NodeStatusOnline (node_statuses (w_db w))"
proof -
  let ?w0 = "w\<lparr>w_heap := (w_heap w)(k := (w_heap w k)\<lparr>a_failCount := 0\<rparr>)\<rparr>"
  obtain w2 where t: "time_Now ?w0 = (Inr (w_now w), w2)" and w2: "w_heap w2 = (w_heap w)(k := (w_heap w k)\<lparr>a_failCount := 0\<rparr>)"
      "w_db w2 = w_db w" "w_sched w2 = w_sched w" "w_remote w2 = w_remote w"
    using time_Now_returns [of ?w0] by auto
  let ?w3 = "w2\<lparr>w_heap := (w_heap w2)(k := (w_heap w2 k)\<lparr>a_lastUptime := uptime, a_online := True\<rparr>)\<rparr>"
  obtain w1 where s: "setHealth k NodeStatusOnline '''' (Some (w_now w)) ?w3 = (Inr (), w1)"
    using setHealth_returns by blast
  have q3: "w_sched ?w3 = []" using quiet w2 by simp
  note S = setHealth_quiet [OF q3 s]
  obtain ns where ns: "w_db w1 = (w_db w)\<lparr>db_nodes := ns\<rparr>" using S(5) w2 by auto
  have wf: "wf_db (w_db w1)" if "wf_db (w_db w)"
  proof -
    have "holdsW wf_db ?w3" using that quiet w2 by (simp add: holdsW_def rely_def)
    from keepsD [OF preserves_setHealth this, of k NodeStatusOnline "''''" "Some (w_now w)"] s show ?thesis
      by (simp add: holdsW_def)
  qed
  have run: "health_passed X k uptime w =
      (if health_reconciles (Inr uptime) (health_of (w_heap w k)) then reconcile X k w1 else (Inr (), w1))"
    using t s w2 by (simp add: health_passed_def bindE_def updA_def modifyW_def getA_def getW_def ret_def Let_def health_reconciles_def)
  from that [OF run S(1) _ _ _ ns wf] S w2 show ?thesis by simp
qed

lemma health_passed_statuses:
  assumes "w_sched w = []"
  shows "node_statuses (w_db (snd (health_passed X k uptime w))) = set_status (n_ID (a_node (w_heap w k))) NodeStatusOnline (node_statuses (w_db w))"
proof (rule health_passed_quiet [OF assms, of X k uptime])
  fix w1
  assume "health_passed X k uptime w =
      (if health_reconciles (Inr uptime) (health_of (w_heap w k)) then reconcile X k w1 else (Inr (), w1))"
    and "w_sched w1 = []"
    and "node_statuses (w_db w1) = set_status (n_ID (a_node (w_heap w k))) NodeStatusOnline (node_statuses (w_db w))"
  then show ?thesis by (simp add: reconcile_statuses)
qed

lemma checkHealth_statuses:
  assumes "w_sched w = []" and "n = a_node (w_heap w k)"
  shows "node_statuses (w_db (snd (checkHealth X k w))) =
    (case health_status (probe_of X k w) (health_of (w_heap w k)) (n_Status n) of
       None \<Rightarrow> node_statuses (w_db w)
     | Some st \<Rightarrow> set_status (n_ID n) st (node_statuses (w_db w)))"
proof -
  obtain w1 where w1: "health_of (w_heap w1 k) = health_of (w_heap w k)" "a_node (w_heap w1 k) = a_node (w_heap w k)"
      "w_db w1 = w_db w" "w_sched w1 = w_sched w"
    and run: "checkHealth X k w = (case probe_of X k w of Inl e \<Rightarrow> health_failed k e w1 | Inr uptime \<Rightarrow> health_passed X k uptime w1)"
    by (rule checkHealth_probe)
  show ?thesis
  proof (cases "probe_of X k w")
    case (Inl e)
    then show ?thesis
      using run w1 assms health_failed_statuses [of w1 n k e] by (simp del: health_status.simps split: option.split)
  next
    case (Inr uptime)
    then show ?thesis using run w1 assms health_passed_statuses [of w1 X k uptime] by simp
  qed
qed

text \<open>The node table shows what the automaton decides: a check in an undisturbed run
  changes the status of the actor's node to the automaton's verdict, when there is one, and
  no other node's status.\<close>

lemma checkHealth_persists:
  assumes "w_sched w = []" and "n = a_node (w_heap w k)"
  shows "node_statuses (w_db (snd (checkHealth X k w))) =
    (case health_status (probe_of X k w) (health_of (w_heap w k)) (n_Status n) of
       None \<Rightarrow> node_statuses (w_db w)
     | Some st \<Rightarrow> set_status (n_ID n) st (node_statuses (w_db w)))"
  using assms by (rule checkHealth_statuses)

section \<open>Sequences of checks\<close>

primrec check_times :: "'x xray_api \<Rightarrow> nat \<Rightarrow> nat \<Rightarrow> 'x world \<Rightarrow> 'x world" where
  "check_times X k 0 w = w"
| "check_times X k (Suc m) w = snd (checkHealth X k (check_times X k m w))"

lemma checkHealth_fields:
  "a_failCount (w_heap (snd (checkHealth X k w)) k) = h_failCount (health_next (probe_of X k w) (health_of (w_heap w k)))"
  "a_online (w_heap (snd (checkHealth X k w)) k) = h_online (health_next (probe_of X k w) (health_of (w_heap w k)))"
  by (simp_all only: checkHealth_state [symmetric] health_of_updates)

lemma failing_checks:
  assumes "\<forall>i < m. isl (probe_of X k (check_times X k i w))"
  shows "a_failCount (w_heap (check_times X k m w) k) = a_failCount (w_heap w k) + m
    \<and> a_online (w_heap (check_times X k m w) k) = (a_online (w_heap w k)
        \<and> (m = 0 \<or> a_failCount (w_heap w k) + m < healthFailThreshold))"
  using assms
proof (induction m)
  case (Suc m)
  then obtain e where "probe_of X k (check_times X k m w) = Inl e" by (metis isl_def lessI)
  with Suc show ?case by (auto simp: checkHealth_fields)
qed simp


definition dead_api :: "(string \<times> string) list xray_api" where
  "dead_api = toy_api\<lparr>x_GetSysStats := (\<lambda>c x. (Inl ''timeout'', x))\<rparr>"

definition online_world :: "(string \<times> string) list world" where
  "online_world = toy_world\<lparr>w_heap := (\<lambda>_. sample_actor\<lparr>a_online := True\<rparr>)\<rparr>"

lemma dead_probe: "isl (probe_of dead_api k w)"
  by (auto simp: probe_of_def ensureClient_def bindE_def getA_def getW_def updA_def modifyW_def ret_def Ping_def
      remote_call_def dead_api_def split: option.splits sum.splits)



definition stale_world :: "(string \<times> string) list world" where
  "stale_world = toy_world\<lparr>w_db := sample_db\<lparr>db_nodes := [sample_node\<lparr>n_Status := NodeStatusOnline\<rparr>]\<rparr>,
     w_heap := (\<lambda>_. newNodeActor (sample_node\<lparr>n_Status := NodeStatusOnline\<rparr>))\<rparr>"


section \<open>Recovery after a restart\<close>

lemma desired_nodes [simp]:
  "desired_for_node n (d\<lparr>db_nodes := ns\<rparr>) = desired_for_node n d"
  "removals_for_node n (d\<lparr>db_nodes := ns\<rparr>) = removals_for_node n d"
  by (simp_all add: desired_for_node_def removals_for_node_def join_assignments_def)

text \<open>C16: A restarted node is provisioned again at once. When a check finds that the uptime of a
  node went down, or that the node was not online before, and the node answers, then the
  check ends with the node having exactly its accounts minus those that must be absent plus
  those that must be present.\<close>

theorem restart_recovers:
  assumes con: "node_contract X accounts" and ping: "\<forall>c x. accounts (snd (x_GetSysStats X c x)) = accounts x"
    and rel: "node_reliable X"
    and wf: "wf_db (w_db w)" and quiet: "w_sched w = []"
    and cl: "ensureClient X k w = (Inr (Inr c), w0)" and up: "Ping X c w0 = (Inr uptime, w1)"
    and restart: "\<not> a_online (w_heap w k) \<or> 0 < a_lastUptime (w_heap w k) \<and> uptime < a_lastUptime (w_heap w k)"
    and n: "nodeID = n_ID (a_node (w_heap w k))"
    and build: "\<forall>a \<in> set (desired_for_node nodeID (w_db w)). \<exists>u. buildUser (accountFor a) = Inr u"
  shows "remote_accounts accounts c (snd (checkHealth X k w)) = (remote_accounts accounts c w
        - account_key ` set (removals_for_node nodeID (w_db w)))
        \<union> account_key ` set (desired_for_node nodeID (w_db w))"
proof -
  note o = ensureClient_open [OF cl] and p = Ping_keeps [OF up]
  have h0: "health_of (w_heap w1 k) = health_of (w_heap w k)" using ensureClient_returns [of X k w] cl p by auto
  have check: "checkHealth X k w = health_passed X k uptime w1"
    using cl up by (simp add: checkHealth_def bindE_def callX_def)
  obtain x where x: "x_GetSysStats X c (w_remote w0 (target c)) = (Inr uptime, x)" "w_remote w1 = (w_remote w0)(target c := x)"
    using up by (auto simp: Ping_def remote_call_def split: prod.splits sum.splits)
  have "accounts (snd (x_GetSysStats X c (w_remote w0 (target c)))) = accounts (w_remote w0 (target c))" using ping by blast
  with x o have acc1: "remote_accounts accounts c w1 = remote_accounts accounts c w" by simp
  have q1: "w_sched w1 = []" using quiet o p by simp
  have due: "health_reconciles (Inr uptime) (health_of (w_heap w1 k))"
    using restart unfolding h0 by (simp add: health_reconciles_def)
  obtain w5 ns where run5: "health_passed X k uptime w1 = reconcile X k w5"
    and w5: "w_sched w5 = []" "w_remote w5 = w_remote w1" "a_client (w_heap w5 k) = Some c"
      "nodeID = n_ID (a_node (w_heap w5 k))" "w_db w5 = (w_db w)\<lparr>db_nodes := ns\<rparr>" "wf_db (w_db w5)"
  proof (rule health_passed_quiet [OF q1, of X k uptime])
    fix v ns
    assume "health_passed X k uptime w1 =
        (if health_reconciles (Inr uptime) (health_of (w_heap w1 k)) then reconcile X k v else (Inr (), v))"
      and "w_sched v = []" "w_remote v = w_remote w1" "a_client (w_heap v k) = a_client (w_heap w1 k)"
      "n_ID (a_node (w_heap v k)) = n_ID (a_node (w_heap w1 k))" "w_db v = (w_db w1)\<lparr>db_nodes := ns\<rparr>"
      "wf_db (w_db w1) \<Longrightarrow> wf_db (w_db v)"
    then show ?thesis using that [of v ns] due wf o p n by simp
  qed
  have cl5: "ensureClient X k w5 = (Inr (Inr c), w5)"
    using w5(3) by (simp add: ensureClient_def bindE_def getA_def getW_def ret_def)
  obtain w' where w': "reconcile X k w5 = (Inr (), w')" "a_client (w_heap w' k) = Some c"
    using reconcile_open [OF rel con w5(6,1) cl5 w5(4)] build w5(5) by auto
  then have "a_client (w_heap w' k) \<noteq> None" by simp
  from reconcile_converges_accounts [OF con w5(6,1) cl5 w'(1) this w5(4)] w5(2,5) acc1 check run5 w'(1) show ?thesis by simp
qed

theorem restart_recovers_witness:
  "set (w_remote (snd (checkHealth toy_api 0 toy_world)) (target toy_client)) = {(''vless-in'', ''a@x''), (''vless-in'', ''z@x'')}"
proof -
  have up: "fst (Ping toy_api toy_client (snd (ensureClient toy_api 0 toy_world))) = Inr 5" by code_simp
  have ping: "\<forall>c x. set (snd (x_GetSysStats toy_api c x)) = set x" by (simp add: toy_api_def)
  have off: "\<not> a_online (w_heap toy_world 0)" by code_simp
  from restart_recovers [OF toy_contract ping toy_reliable _ _ toy_connects run_eqI [OF up] disjI1 [OF off] refl toy_builds]
  show ?thesis unfolding toy_sets by (auto simp: wf_sample_db)
qed

end
