(* ===== verification/Codec.thy ===== *)
theory Codec
  imports Prelude
begin

text \<open>
  The encoders of Go's standard library the program calls: \<open>encoding/hex\<close>,
  \<open>encoding/base64\<close> (standard and raw URL alphabet), the escapers of \<open>net/url\<close>, and
  \<open>crypto/sha256\<close>, \<open>crypto/hmac\<close> and \<open>crypto/subtle\<close>. Each encoder is an instance of the
  locale \<open>codec\<close>: a decoder recovers what was encoded, so encodings are injective.
\<close>

unbundle bit_operations_syntax

section \<open>Codecs\<close>

locale codec =
  fixes enc :: "'a \<Rightarrow> string" and dec :: "string \<Rightarrow> 'a option" and valid :: "'a \<Rightarrow> bool"
  assumes dec_enc: "valid x \<Longrightarrow> dec (enc x) = Some x"
begin

lemma enc_inject: "valid x \<Longrightarrow> valid y \<Longrightarrow> enc x = enc y \<longleftrightarrow> x = y"
  by (metis dec_enc option.inject)

lemma distinct_enc: "\<forall>x \<in> set xs. valid x \<Longrightarrow> distinct (map enc xs) \<longleftrightarrow> distinct xs"
  by (induction xs) (auto simp: enc_inject)

end

section \<open>Bytes and characters\<close>

definition byte_of :: "char \<Rightarrow> byte" where
  "byte_of c = of_nat (of_char c)"

definition char_of_byte :: "byte \<Rightarrow> char" where
  "char_of_byte b = char_of (unat b)"

definition bytes :: "string \<Rightarrow> byte list" where
  "bytes s = map byte_of s"

definition text_of :: "byte list \<Rightarrow> string" where
  "text_of bs = map char_of_byte bs"

lemma unat_byte_of: "unat (byte_of c) = of_char c"
  by (simp add: byte_of_def unat_of_nat)

lemma char_of_byte_of [simp]: "char_of_byte (byte_of c) = c"
  by (simp add: char_of_byte_def unat_byte_of)

lemma unat_byte_less: "unat (b :: byte) < 256"
  using unsigned_less [of b, where 'a = nat] by simp

lemma byte_of_char_of_byte [simp]: "byte_of (char_of_byte b) = b"
  using unat_byte_less [of b] by (simp add: byte_of_def char_of_byte_def)

lemma text_of_bytes [simp]: "text_of (bytes s) = s"
  by (simp add: text_of_def bytes_def comp_def)

lemma bytes_text_of [simp]: "bytes (text_of bs) = bs"
  by (simp add: text_of_def bytes_def comp_def)

section \<open>Hexadecimal\<close>

definition hex_alphabet :: string where
  "hex_alphabet = ''0123456789abcdef''"

definition hex_byte :: "byte \<Rightarrow> string" where
  "hex_byte b = [hex_alphabet ! unat (drop_bit 4 b), hex_alphabet ! unat (take_bit 4 b)]"

text \<open>\<open>hex.EncodeToString\<close>\<close>

definition hex_EncodeToString :: "byte list \<Rightarrow> string" where
  "hex_EncodeToString bs = concat (map hex_byte bs)"

definition index_of :: "string \<Rightarrow> char \<Rightarrow> byte option" where
  "index_of alphabet c = map_option of_nat (find (\<lambda>i. alphabet ! i = c) [0 ..< length alphabet])"

fun hex_decode :: "string \<Rightarrow> byte list option" where
  "hex_decode [] = Some []"
| "hex_decode [c] = None"
| "hex_decode (h # l # s) = (case (index_of hex_alphabet h, index_of hex_alphabet l, hex_decode s) of
     (Some a, Some b, Some bs) \<Rightarrow> Some ((push_bit 4 a OR b) # bs) | _ \<Rightarrow> None)"

lemma find_nth_distinct:
  "distinct xs \<Longrightarrow> i < length xs \<Longrightarrow> find (\<lambda>j. xs ! j = xs ! i) [0 ..< length xs] = Some i"
  by (auto simp: find_Some_iff nth_eq_iff_index_eq intro!: exI [of _ i])

lemma index_of_nth:
  assumes "distinct alphabet" and "unat b < length alphabet"
  shows "index_of alphabet (alphabet ! unat b) = Some b"
  using assms by (simp add: index_of_def find_nth_distinct)

lemma hex_alphabet_distinct: "distinct hex_alphabet" "length hex_alphabet = 16"
  by code_simp+

lemma unat_drop_bit_less: "unat (drop_bit 4 (b :: byte)) < 16"
  using unat_byte_less [of b] by (simp add: unat_drop_bit_eq drop_bit_nat_def)

lemma unat_nibble_less: "unat (take_bit 4 (b :: byte)) < 16"
  using take_bit_nat_less_exp [of 4 "unat b"] by (simp add: unsigned_take_bit_eq)

lemma nibbles: "push_bit 4 (drop_bit 4 b) OR (take_bit 4 b) = (b :: byte)"
  by (rule bit_word_eqI) (auto simp: bit_simps)

lemma hex_decode_encode: "hex_decode (hex_EncodeToString bs) = Some bs"
  by (induction bs) (simp_all add: hex_EncodeToString_def hex_byte_def index_of_nth
      hex_alphabet_distinct unat_drop_bit_less unat_nibble_less nibbles)

interpretation hex: codec hex_EncodeToString hex_decode "\<lambda>_. True"
  by unfold_locales (rule hex_decode_encode)

lemma length_hex: "length (hex_EncodeToString bs) = 2 * length bs"
  by (induction bs) (simp_all add: hex_EncodeToString_def hex_byte_def)

section \<open>Base64\<close>

definition b64_letters :: string where
  "b64_letters = ''ABCDEFGHIJKLMNOPQRSTUVWXYZabcdefghijklmnopqrstuvwxyz0123456789''"

text \<open>An encoding is its alphabet and its padding character, if any.\<close>

type_synonym b64_encoding = "string \<times> char option"

definition StdEncoding :: b64_encoding where
  "StdEncoding = (b64_letters @ ''+/'', Some (CHR ''=''))"

definition RawURLEncoding :: b64_encoding where
  "RawURLEncoding = (b64_letters @ ''-_'', None)"

definition b64_pad :: "b64_encoding \<Rightarrow> nat \<Rightarrow> string" where
  "b64_pad e n = (case snd e of None \<Rightarrow> [] | Some p \<Rightarrow> replicate n p)"

fun b64_EncodeToString :: "b64_encoding \<Rightarrow> byte list \<Rightarrow> string" where
  "b64_EncodeToString e [] = []"
| "b64_EncodeToString e [a] =
     [fst e ! unat (drop_bit 2 a), fst e ! unat (push_bit 4 (take_bit 2 a))] @ b64_pad e 2"
| "b64_EncodeToString e [a, b] =
     [fst e ! unat (drop_bit 2 a), fst e ! unat (push_bit 4 (take_bit 2 a) OR drop_bit 4 b),
      fst e ! unat (push_bit 2 (take_bit 4 b))] @ b64_pad e 1"
| "b64_EncodeToString e (a # b # c # bs) =
     [fst e ! unat (drop_bit 2 a), fst e ! unat (push_bit 4 (take_bit 2 a) OR drop_bit 4 b),
      fst e ! unat (push_bit 2 (take_bit 4 b) OR drop_bit 6 c), fst e ! unat (take_bit 6 c)]
     @ b64_EncodeToString e bs"

text \<open>A decoder: groups of four, the last one shortened or padded.\<close>

fun sextets :: "string \<Rightarrow> string \<Rightarrow> byte list option" where
  "sextets alphabet [] = Some []"
| "sextets alphabet (c # s) = (case (index_of alphabet c, sextets alphabet s) of
     (Some a, Some as) \<Rightarrow> Some (a # as) | _ \<Rightarrow> None)"

fun b64_bytes :: "byte list \<Rightarrow> byte list option" where
  "b64_bytes [] = Some []"
| "b64_bytes [p] = None"
| "b64_bytes [p, q] = Some [push_bit 2 p OR drop_bit 4 q]"
| "b64_bytes [p, q, r] = Some [push_bit 2 p OR drop_bit 4 q, push_bit 4 q OR drop_bit 2 r]"
| "b64_bytes (p # q # r # s # ss) = map_option
     (\<lambda>bs. [push_bit 2 p OR drop_bit 4 q, push_bit 4 q OR drop_bit 2 r, push_bit 6 r OR s] @ bs) (b64_bytes ss)"

definition b64_decode :: "b64_encoding \<Rightarrow> string \<Rightarrow> byte list option" where
  "b64_decode e s = Option.bind (sextets (fst e) (filter (\<lambda>c. Some c \<noteq> snd e) s)) b64_bytes"

definition b64_wf :: "b64_encoding \<Rightarrow> bool" where
  "b64_wf e \<longleftrightarrow> distinct (fst e) \<and> length (fst e) = 64 \<and> (\<forall>p. snd e = Some p \<longrightarrow> p \<notin> set (fst e))"

text \<open>The sextets that are rendered, without the padding.\<close>

fun b64_sextets :: "byte list \<Rightarrow> byte list" where
  "b64_sextets [] = []"
| "b64_sextets [a] = [drop_bit 2 a, push_bit 4 (take_bit 2 a)]"
| "b64_sextets [a, b] = [drop_bit 2 a, push_bit 4 (take_bit 2 a) OR drop_bit 4 b, push_bit 2 (take_bit 4 b)]"
| "b64_sextets (a # b # c # bs) = [drop_bit 2 a, push_bit 4 (take_bit 2 a) OR drop_bit 4 b,
     push_bit 2 (take_bit 4 b) OR drop_bit 6 c, take_bit 6 c] @ b64_sextets bs"

lemma b64_wf_encodings: "b64_wf StdEncoding" "b64_wf RawURLEncoding"
  unfolding b64_wf_def StdEncoding_def RawURLEncoding_def b64_letters_def by simp_all

lemma byte_eqI:
  fixes a b :: byte
  assumes "bit a 0 = bit b 0" "bit a 1 = bit b 1" "bit a 2 = bit b 2" "bit a 3 = bit b 3"
    "bit a 4 = bit b 4" "bit a 5 = bit b 5" "bit a 6 = bit b 6" "bit a 7 = bit b 7"
  shows "a = b"
proof (rule bit_word_eqI)
  fix n assume "n < LENGTH(8)"
  then have "n \<in> {0, 1, 2, 3, 4, 5, 6, 7}" by auto
  with assms show "bit a n = bit b n" by auto
qed

lemma bit_byte_high: "8 \<le> n \<Longrightarrow> \<not> bit (b :: byte) n"
  by (auto dest: bit_imp_le_length)

lemma small_byte: "take_bit 6 b = b \<Longrightarrow> unat (b :: byte) < 64"
proof -
  assume "take_bit 6 b = b"
  then have "unat b = take_bit 6 (unat b)" by (metis unsigned_take_bit_eq)
  then show ?thesis using take_bit_nat_less_exp [of 6 "unat b"] by simp
qed

lemma sextet_small:
  "take_bit 6 (drop_bit 2 a) = drop_bit 2 (a :: byte)"
  "take_bit 6 (push_bit 4 (take_bit 2 a)) = push_bit 4 (take_bit 2 (a :: byte))"
  "take_bit 6 (drop_bit 4 a) = drop_bit 4 (a :: byte)" "take_bit 6 (drop_bit 6 a) = drop_bit 6 (a :: byte)"
  "take_bit 6 (push_bit 4 (take_bit 2 a) OR drop_bit 4 b) = push_bit 4 (take_bit 2 a) OR drop_bit 4 (b :: byte)"
  "take_bit 6 (push_bit 2 (take_bit 4 b)) = push_bit 2 (take_bit 4 (b :: byte))"
  "take_bit 6 (push_bit 2 (take_bit 4 b) OR drop_bit 6 c) = push_bit 2 (take_bit 4 b) OR drop_bit 6 (c :: byte)"
  by (rule byte_eqI; simp add: bit_simps bit_byte_high)+

lemma sextet_bytes:
  "push_bit 2 (drop_bit 2 a) OR drop_bit 4 (push_bit 4 (take_bit 2 a)) = (a :: byte)"
  "push_bit 2 (drop_bit 2 a) OR drop_bit 4 (push_bit 4 (take_bit 2 a) OR drop_bit 4 b) = (a :: byte)"
  "push_bit 4 (push_bit 4 (take_bit 2 a) OR drop_bit 4 b) OR drop_bit 2 (push_bit 2 (take_bit 4 b)) = (b :: byte)"
  "push_bit 4 (push_bit 4 (take_bit 2 a) OR drop_bit 4 b) OR drop_bit 2 (push_bit 2 (take_bit 4 b) OR drop_bit 6 c) = (b :: byte)"
  "push_bit 6 (push_bit 2 (take_bit 4 b) OR drop_bit 6 c) OR take_bit 6 c = (c :: byte)"
  by (rule byte_eqI; simp add: bit_simps bit_byte_high)+

lemma b64_sextets_small: "s \<in> set (b64_sextets bs) \<Longrightarrow> take_bit 6 s = s"
  by (induction bs rule: b64_sextets.induct) (auto simp: sextet_small)

lemma b64_bytes_sextets: "b64_bytes (b64_sextets bs) = Some bs"
  by (induction bs rule: b64_sextets.induct) (simp_all add: sextet_bytes sextet_bytes [simplified])

lemma b64_EncodeToString_sextets:
  "\<exists>n. b64_EncodeToString e bs = map (\<lambda>s. fst e ! unat s) (b64_sextets bs) @ b64_pad e n"
proof (induction e bs rule: b64_EncodeToString.induct)
  case (1 e)
  show ?case by (rule exI [of _ 0]) (simp add: b64_pad_def split: option.splits)
qed auto

lemma sextets_map:
  "distinct alphabet \<Longrightarrow> \<forall>s \<in> set ss. unat s < length alphabet \<Longrightarrow> sextets alphabet (map (\<lambda>s. alphabet ! unat s) ss) = Some ss"
  by (induction ss) (simp_all add: index_of_nth)

lemma b64_decode_encode:
  assumes "b64_wf e" shows "b64_decode e (b64_EncodeToString e bs) = Some bs"
proof -
  have small: "\<forall>s \<in> set (b64_sextets bs). unat s < length (fst e)"
    using assms b64_sextets_small small_byte by (auto simp: b64_wf_def)
  obtain n where enc: "b64_EncodeToString e bs = map (\<lambda>s. fst e ! unat s) (b64_sextets bs) @ b64_pad e n"
    using b64_EncodeToString_sextets by blast
  have "filter (\<lambda>c. Some c \<noteq> snd e) (map (\<lambda>s. fst e ! unat s) (b64_sextets bs)) = map (\<lambda>s. fst e ! unat s) (b64_sextets bs)"
    using assms small unfolding b64_wf_def filter_id_conv by (metis (no_types, lifting) imageE list.set_map nth_mem)
  moreover have "filter (\<lambda>c. Some c \<noteq> snd e) (b64_pad e n) = []"
    by (auto simp: b64_pad_def filter_empty_conv split: option.splits)
  ultimately show ?thesis
    using assms small by (simp add: b64_decode_def enc sextets_map b64_wf_def b64_bytes_sextets)
qed

interpretation base64std: codec "b64_EncodeToString StdEncoding" "b64_decode StdEncoding" "\<lambda>_. True"
  by unfold_locales (rule b64_decode_encode [OF b64_wf_encodings(1)])

interpretation base64url: codec "b64_EncodeToString RawURLEncoding" "b64_decode RawURLEncoding" "\<lambda>_. True"
  by unfold_locales (rule b64_decode_encode [OF b64_wf_encodings(2)])


section \<open>Escaping of URL parts\<close>

datatype encoding_mode = encodePathSegment | encodeHost | encodeUserPassword | encodeQueryComponent | encodeFragment

text \<open>\<open>shouldEscape\<close> of \<open>net/url\<close>, for the modes the program uses.\<close>

definition is_alnum :: "char \<Rightarrow> bool" where
  "is_alnum c \<longleftrightarrow> c \<in> set b64_letters"

definition shouldEscape :: "encoding_mode \<Rightarrow> char \<Rightarrow> bool" where
  "shouldEscape mode c =
     (if is_alnum c then False
      else if mode = encodeHost \<and> c \<in> set ([CHR ''!'', CHR ''$'', CHR ''&'', CHR 0x27, CHR ''('', CHR '')'', CHR ''*'', CHR ''+'',
          CHR '','', CHR '';'', CHR ''='', CHR '':'', CHR ''['', CHR '']'', CHR ''<'', CHR ''>'', CHR 0x22]) then False
      else if c \<in> set ''-_.~'' then False
      else if c \<in> set ''$&+,/:;=?@'' then (case mode of
          encodePathSegment \<Rightarrow> c \<in> set ''/;,?''
        | encodeUserPassword \<Rightarrow> c \<in> set ''@/?:''
        | encodeQueryComponent \<Rightarrow> True
        | encodeFragment \<Rightarrow> False
        | encodeHost \<Rightarrow> True)
      else if mode = encodeFragment \<and> c \<in> set ''!()*'' then False
      else True)"

definition upper_hex :: string where
  "upper_hex = ''0123456789ABCDEF''"

definition escape_char :: "encoding_mode \<Rightarrow> char \<Rightarrow> string" where
  "escape_char mode c =
     (if \<not> shouldEscape mode c then [c]
      else if c = CHR '' '' \<and> mode = encodeQueryComponent then ''+''
      else [CHR ''%'', upper_hex ! unat (drop_bit 4 (byte_of c)), upper_hex ! unat (take_bit 4 (byte_of c))])"

definition escape :: "string \<Rightarrow> encoding_mode \<Rightarrow> string" where
  "escape s mode = concat (map (escape_char mode) s)"

text \<open>The inverse, as a client decodes it.\<close>

fun unescape :: "encoding_mode \<Rightarrow> string \<Rightarrow> string option" where
  "unescape mode [] = Some []"
| "unescape mode (c # s) =
     (if c = CHR ''%'' then (case s of
          h # l # r \<Rightarrow> (case (index_of upper_hex h, index_of upper_hex l, unescape mode r) of
              (Some a, Some b, Some t) \<Rightarrow> Some (char_of_byte (push_bit 4 a OR b) # t) | _ \<Rightarrow> None)
        | _ \<Rightarrow> None)
      else map_option ((#) (if c = CHR ''+'' \<and> mode = encodeQueryComponent then CHR '' '' else c)) (unescape mode s))"

lemma upper_hex_distinct: "distinct upper_hex" "length upper_hex = 16"
  by code_simp+

lemma is_alnum_marks: "\<not> is_alnum (CHR ''%'')" "\<not> is_alnum (CHR ''+'')"
  by code_simp+

lemma shouldEscape_marks: "shouldEscape mode (CHR ''%'')" "shouldEscape encodeQueryComponent (CHR ''+'')"
  by (simp_all add: shouldEscape_def is_alnum_marks)

lemma unescape_escape: "unescape mode (escape s mode) = Some s"
proof (induction s)
  case (Cons c s)
  have "c \<noteq> CHR ''%'' \<and> (c = CHR ''+'' \<longrightarrow> mode \<noteq> encodeQueryComponent)" if "\<not> shouldEscape mode c"
    using that shouldEscape_marks by auto
  with Cons.IH show ?case
    by (auto simp: escape_def escape_char_def index_of_nth upper_hex_distinct unat_drop_bit_less
        unat_nibble_less nibbles)
qed (simp add: escape_def)

interpretation percent: codec "\<lambda>s. escape s mode" "unescape mode" "\<lambda>_. True" for mode
  by unfold_locales (rule unescape_escape)

section \<open>SHA-256 and HMAC\<close>

type_synonym w32 = "32 word"

text \<open>
  The constants are the first 32 bits of the fractional parts of the square roots of the
  first eight primes and of the cube roots of the first 64 primes.
\<close>

definition small_primes :: "nat list" where
  "small_primes = filter (\<lambda>n. list_all (\<lambda>m. n mod m \<noteq> 0) [2 ..< n]) [2 ..< 312]"

text \<open>The \<open>k\<close>-th root, bit by bit from bit \<open>b - 1\<close> down.\<close>

fun root_bits :: "nat \<Rightarrow> nat \<Rightarrow> int \<Rightarrow> int \<Rightarrow> int" where
  "root_bits k 0 x r = r"
| "root_bits k (Suc b) x r = root_bits k b x (if (r + 2 ^ b) ^ k \<le> x then r + 2 ^ b else r)"

definition fraction_bits :: "nat \<Rightarrow> nat \<Rightarrow> w32" where
  "fraction_bits k p = word_of_int (root_bits k 40 (int p * 2 ^ (32 * k)) 0)"

definition sha_H :: "w32 list" where
  "sha_H = map (fraction_bits 2) [2, 3, 5, 7, 11, 13, 17, 19]"

definition sha_K :: "w32 list" where
  "sha_K = map (fraction_bits 3) small_primes"

definition be_bytes :: "nat \<Rightarrow> int \<Rightarrow> byte list" where
  "be_bytes n x = map (\<lambda>i. word_of_int (drop_bit (8 * (n - 1 - i)) x)) [0 ..< n]"

text \<open>The padding: one bit, zeros up to 56 modulo 64, and the length in bits.\<close>

definition sha_pad :: "byte list \<Rightarrow> byte list" where
  "sha_pad m = m @ [0x80] @ replicate ((119 - length m mod 64) mod 64) 0 @ be_bytes 8 (8 * int (length m))"

fun be_words :: "byte list \<Rightarrow> w32 list" where
  "be_words (a # b # c # d # bs) =
     (push_bit 24 (ucast a) OR push_bit 16 (ucast b) OR push_bit 8 (ucast c) OR ucast d) # be_words bs"
| "be_words bs = []"

definition sha_schedule :: "w32 list \<Rightarrow> w32 list" where
  "sha_schedule block = foldl (\<lambda>w t.
      let a = w ! (t - 15); b = w ! (t - 2);
          s0 = word_rotr 7 a XOR word_rotr 18 a XOR drop_bit 3 a;
          s1 = word_rotr 17 b XOR word_rotr 19 b XOR drop_bit 10 b in
      w @ [s1 + w ! (t - 7) + s0 + w ! (t - 16)]) block [16 ..< 64]"

fun sha_round :: "w32 list \<Rightarrow> w32 \<times> w32 \<Rightarrow> w32 list" where
  "sha_round [a, b, c, d, e, f, g, h] (k, w) =
     (let t1 = h + (word_rotr 6 e XOR word_rotr 11 e XOR word_rotr 25 e) + ((e AND f) XOR (NOT e AND g)) + k + w;
          t2 = (word_rotr 2 a XOR word_rotr 13 a XOR word_rotr 22 a) + ((a AND b) XOR (a AND c) XOR (b AND c)) in
      [t1 + t2, a, b, c, d + t1, e, f, g])"
| "sha_round s kw = s"

definition sha_block :: "w32 list \<Rightarrow> w32 list \<Rightarrow> w32 list" where
  "sha_block s block = map2 (+) s (foldl sha_round s (zip sha_K (sha_schedule block)))"

fun sha_blocks :: "nat \<Rightarrow> w32 list \<Rightarrow> w32 list \<Rightarrow> w32 list" where
  "sha_blocks 0 s ws = s"
| "sha_blocks (Suc n) s ws = sha_blocks n (sha_block s (take 16 ws)) (drop 16 ws)"

definition sha256_Sum256 :: "byte list \<Rightarrow> byte list" where
  "sha256_Sum256 m = (let ws = be_words (sha_pad m) in
     concat (map (\<lambda>h. be_bytes 4 (uint h)) (sha_blocks (length ws div 16) sha_H ws)))"

definition hmac_key :: "byte list \<Rightarrow> byte list" where
  "hmac_key key = (let k = (if 64 < length key then sha256_Sum256 key else key) in k @ replicate (64 - length k) 0)"

definition hmac_Sum :: "byte list \<Rightarrow> byte list \<Rightarrow> byte list" where
  "hmac_Sum key m = sha256_Sum256 (map ((XOR) 0x5c) (hmac_key key)
     @ sha256_Sum256 (map ((XOR) 0x36) (hmac_key key) @ m))"

text \<open>\<open>subtle.ConstantTimeCompare\<close>: all bytes are visited, the differences are collected.\<close>

definition ConstantTimeCompare :: "byte list \<Rightarrow> byte list \<Rightarrow> int" where
  "ConstantTimeCompare x y = (if length x \<noteq> length y then 0
     else if foldl (\<lambda>v (a, b). v OR (a XOR b)) 0 (zip x y) = 0 then 1 else 0)"

lemma xor_zero: "a XOR b = 0 \<longleftrightarrow> a = (b :: byte)"
proof
  assume "a XOR b = 0"
  then have "a XOR (b XOR b) = 0 XOR b" by (simp only: xor.assoc [symmetric])
  then show "a = b" by simp
qed simp

lemma foldl_or_zero:
  "foldl (\<lambda>v (a, b). v OR (a XOR b)) v zs = (0 :: byte) \<longleftrightarrow> v = 0 \<and> (\<forall>(a, b) \<in> set zs. a = b)"
  by (induction zs arbitrary: v) (auto simp: or_eq_0_iff xor_zero)

lemma zip_all_equal: "length x = length y \<Longrightarrow> (\<forall>(a, b) \<in> set (zip x y). a = b) \<longleftrightarrow> x = y"
  by (induction x y rule: list_induct2) auto

lemma ConstantTimeCompare_iff: "ConstantTimeCompare x y = 1 \<longleftrightarrow> x = y"
  by (cases "length x = length y") (auto simp: ConstantTimeCompare_def foldl_or_zero zip_all_equal)

lemma length_be_bytes [simp]: "length (be_bytes n x) = n"
  by (simp add: be_bytes_def)

lemma length_sha_pad: "length (sha_pad m) mod 64 = 0"
proof -
  define r where "r = length m mod 64"
  have r: "r < 64" by (simp add: r_def)
  have "(119 - r) mod 64 = (if r \<le> 55 then 55 - r else 119 - r)"
  proof (cases "r \<le> 55")
    case True
    then have "119 - r = (55 - r) + 64" by simp
    then show ?thesis using True by (simp only: mod_add_self2) simp
  qed (use r in simp)
  with r have "(r + 9 + (119 - r) mod 64) mod 64 = 0" by auto
  moreover have "length (sha_pad m) mod 64 = (r + (9 + (119 - r) mod 64)) mod 64"
    by (simp add: sha_pad_def r_def mod_simps add.assoc)
  ultimately show ?thesis by (simp add: add.assoc)
qed

lemma length_sha_round: "length (sha_round s kw) = length s"
  by (cases "(s, kw)" rule: sha_round.cases) (auto simp: Let_def)

lemma length_sha_rounds: "length (foldl sha_round s kws) = length s"
  by (induction kws arbitrary: s) (simp_all add: length_sha_round)

lemma length_sha_blocks: "length (sha_blocks n s ws) = length s"
  by (induction n arbitrary: s ws) (simp_all add: sha_block_def length_sha_rounds)

lemma length_sha256: "length (sha256_Sum256 m) = 32"
proof -
  have "length (concat (map (\<lambda>h. be_bytes 4 (uint h)) (ws :: w32 list))) = 4 * length ws" for ws
    by (induction ws) simp_all
  then show ?thesis by (simp add: sha256_Sum256_def Let_def length_sha_blocks sha_H_def)
qed

lemma length_hmac: "length (hmac_Sum key m) = 32"
  by (simp add: hmac_Sum_def length_sha256)


end
