(* ===== verification/Service_Common.thy ===== *)
theory Service_Common
  imports Worker Codec
begin

text \<open>
  What the services of \<open>internal/service\<close> share: the helpers of \<open>secret.go\<close>, and the
  results of the store's and the manager's methods in an undisturbed run. The latter form
  the collection \<open>quiet\<close>: a service method is a sequence of such calls, so its behaviour
  is computed by rewriting with them.
\<close>

section \<open>Secrets\<close>

definition subtleEqual :: "string \<Rightarrow> string \<Rightarrow> bool" where
  "subtleEqual a b \<longleftrightarrow> ConstantTimeCompare (bytes a) (bytes b) = 1"

definition randToken :: "nat \<Rightarrow> ('x, string) io" where
  "randToken n = bindE (rand_Read n) (\<lambda>b. ret (b64_EncodeToString RawURLEncoding b))"

definition HashKey :: "string \<Rightarrow> string" where
  "HashKey plaintext = hex_EncodeToString (sha256_Sum256 (bytes plaintext))"

text \<open>\<open>subtleEqual\<close>, which visits every byte and collects the differences with bit
  operations, decides equality of strings.\<close>

lemma subtleEqual_iff: "subtleEqual a b \<longleftrightarrow> a = b"
  unfolding subtleEqual_def ConstantTimeCompare_iff by (metis text_of_bytes)

lemma keeps_randToken [pres]: "preserves I (randToken n)" "keeps calm (randToken n)"
  unfolding randToken_def by (intro pres)+

section \<open>Undisturbed runs\<close>

named_theorems quiet \<open>results of calls in an undisturbed run\<close>

text \<open>The world after \<open>time.Now()\<close> was read.\<close>

definition tick :: "'x world \<Rightarrow> 'x world" where
  "tick w = snd (time_Now w)"

lemma time_Now_tick [quiet]: "time_Now w = (Inr (w_now w), tick w)"
  by (simp add: time_Now_def tick_def)

lemma tick_simps [simp]:
  "w_db (tick w) = w_db w" "w_sched (tick w) = w_sched w" "w_heap (tick w) = w_heap w"
  "w_actors (tick w) = w_actors w" "w_remote (tick w) = w_remote w" "w_uuids (tick w) = w_uuids w"
  "w_uuid_pos (tick w) = w_uuid_pos w" "w_rand (tick w) = w_rand w" "w_rand_pos (tick w) = w_rand_pos w"
  by (simp_all add: tick_def time_Now_def split: list.splits)

lemma tick_update [simp]: "tick (w\<lparr>w_db := d\<rparr>) = (tick w)\<lparr>w_db := d\<rparr>"
  by (simp add: tick_def time_Now_def split: list.splits)

lemma tick_now: "w_now w \<le> w_now (tick w)"
  by (simp add: tick_def time_Now_def split: list.splits)

lemma bindE_quiet_iff [quiet]:
  "bindE m f w = (case m w of (Inl e, w') \<Rightarrow> (Inl e, w') | (Inr a, w') \<Rightarrow> f a w')"
  by (simp add: bindE_def)

declare ret_def [quiet] raise_def [quiet]

lemma find_row_quiet:
  "w_sched w = [] \<Longrightarrow> onErr mapErr (db_query (\<lambda>d. case q d of None \<Rightarrow> Inl SqlErrNoRows | Some u \<Rightarrow> Inr (g u))) w
     = (case q (w_db w) of None \<Rightarrow> Inl ErrNotFound | Some u \<Rightarrow> Inr (g u), w)"
  by (simp add: onErr_def db_query_quiet mapErr_def split: option.splits)

lemma rows_quiet: "w_sched w = [] \<Longrightarrow> onErr mapErr (db_query (\<lambda>d. Inr (q d))) w = (Inr (q (w_db w)), w)"
  by (simp add: onErr_def db_query_quiet)

lemma GetUser_quiet [quiet]:
  "w_sched w = [] \<Longrightarrow> GetUser uid w = (case find_user uid (w_db w) of None \<Rightarrow> Inl ErrNotFound | Some u \<Rightarrow> Inr u, w)"
  unfolding GetUser_def scanUser_def by (rule find_row_quiet)

lemma GetPlan_quiet [quiet]:
  "w_sched w = [] \<Longrightarrow> GetPlan pid w = (case find_plan pid (w_db w) of None \<Rightarrow> Inl ErrNotFound | Some p \<Rightarrow> Inr p, w)"
  unfolding GetPlan_def by (rule find_row_quiet)

lemma GetNode_quiet [quiet]:
  "w_sched w = [] \<Longrightarrow> GetNode nid w = (case find_node nid (w_db w) of None \<Rightarrow> Inl ErrNotFound | Some n \<Rightarrow> Inr (scanNode n), w)"
  unfolding GetNode_def by (rule find_row_quiet)

lemma GetInbound_quiet [quiet]:
  "w_sched w = [] \<Longrightarrow> GetInbound iid w = (case find_inbound iid (w_db w) of None \<Rightarrow> Inl ErrNotFound | Some i \<Rightarrow> Inr i, w)"
  unfolding GetInbound_def by (rule find_row_quiet)

lemma queryDesired_quiet [quiet]:
  "w_sched w = [] \<Longrightarrow> AssignmentTargetsForUser uid w = (Inr (targets_for_user uid (w_db w)), w)"
  unfolding AssignmentTargetsForUser_def queryDesired_def by (rule rows_quiet)

lemma ListInboundsByIDs_quiet [quiet]:
  "w_sched w = [] \<Longrightarrow> ListInboundsByIDs ids w = (Inr (filter (\<lambda>i. ib_ID i \<in> set ids) (db_inbounds (w_db w))), w)"
  unfolding ListInboundsByIDs_def queryInbounds_def by (simp add: rows_quiet ret_def)

lemma requireRow_quiet:
  "w_sched w = [] \<Longrightarrow> requireRow (db_exec q) w = (case q (w_now w) (w_db w) of
      Inl e \<Rightarrow> (Inl (mapErr e), w)
    | Inr (n, d) \<Rightarrow> (if n = 0 then Inl ErrNotFound else Inr (), w\<lparr>w_db := d\<rparr>))"
  by (auto simp: requireRow_def bindE_def onErr_def db_exec_quiet ret_def raise_def split: sum.splits)

lemma exec_quiet:
  "w_sched w = [] \<Longrightarrow> onErr mapErr (db_exec q) w = (case q (w_now w) (w_db w) of
      Inl e \<Rightarrow> (Inl (mapErr e), w) | Inr (a, d) \<Rightarrow> (Inr a, w\<lparr>w_db := d\<rparr>))"
  by (auto simp: onErr_def db_exec_quiet split: sum.splits)

section \<open>Triggering the actors of nodes\<close>

text \<open>The effect of triggering the actors of a list of nodes.\<close>

definition trigger_nodes :: "string list \<Rightarrow> 'x world \<Rightarrow> 'x world" where
  "trigger_nodes ns w = w\<lparr>w_heap := (\<lambda>k. if \<exists>n \<in> set ns. w_actors w n = Some k
     then (w_heap w k)\<lparr>a_reconcileCh := True\<rparr> else w_heap w k)\<rparr>"

lemma trigger_nodes_simps [simp]:
  "w_db (trigger_nodes ns w) = w_db w" "w_sched (trigger_nodes ns w) = w_sched w"
  "w_actors (trigger_nodes ns w) = w_actors w" "w_now (trigger_nodes ns w) = w_now w"
  "w_remote (trigger_nodes ns w) = w_remote w"
  by (simp_all add: trigger_nodes_def)

lemma trigger_nodes_Nil: "trigger_nodes [] w = w"
  by (simp add: trigger_nodes_def)

lemma trigger_nodes_set: "set ns = set ms \<Longrightarrow> trigger_nodes ns w = trigger_nodes ms w"
  by (simp add: trigger_nodes_def)

lemma trigger_nodes_twice: "trigger_nodes ms (trigger_nodes ns w) = trigger_nodes (ns @ ms) w"
  by (auto simp: trigger_nodes_def fun_eq_iff intro!: world.equality)

lemma Reconcile_triggers: "Reconcile n w = (Inr (), trigger_nodes [n] w)"
  by (auto simp: Reconcile_def bindE_def getW_def ret_def triggerReconcile_def updA_def modifyW_def
      trigger_nodes_def fun_eq_iff split: option.splits intro!: world.equality)

lemma reconcile_targets_triggers:
  "reconcile_targets ns seen w = (Inr (), trigger_nodes (filter (\<lambda>n. n \<notin> seen) ns) w)"
proof (induction ns arbitrary: seen w)
  case (Cons n ns)
  have "trigger_nodes (n # filter (\<lambda>m. m \<notin> insert n seen) ns) w = trigger_nodes (n # filter (\<lambda>m. m \<notin> seen) ns) w"
    by (rule trigger_nodes_set) auto
  with Cons.IH show ?case by (simp add: bindE_def Reconcile_triggers trigger_nodes_twice)
qed (simp add: ret_def trigger_nodes_Nil)

lemma forEach_Reconcile: "forEach ns Reconcile w = (Inr (), trigger_nodes ns w)"
  by (induction ns arbitrary: w) (simp_all add: ret_def bindE_def trigger_nodes_Nil Reconcile_triggers trigger_nodes_twice)

text \<open>The nodes on which a user has an assignment.\<close>

definition nodes_of_user :: "string \<Rightarrow> db \<Rightarrow> string list" where
  "nodes_of_user uid d = map da_NodeID (targets_for_user uid d)"

lemma ReconcileForUser_quiet [quiet]:
  "w_sched w = [] \<Longrightarrow> ReconcileForUser uid w = (Inr (), trigger_nodes (nodes_of_user uid (w_db w)) w)"
  by (simp add: ReconcileForUser_def bindE_def attempt_def queryDesired_quiet reconcile_targets_triggers nodes_of_user_def)

section \<open>Changes of one user's row\<close>

definition set_user :: "string \<Rightarrow> (user \<Rightarrow> user) \<Rightarrow> db \<Rightarrow> db" where
  "set_user uid f d = d\<lparr>db_users := update_rows (\<lambda>r. u_ID r = uid) f (db_users d)\<rparr>"

lemma set_user_tables [simp]:
  "db_plans (set_user uid f d) = db_plans d" "db_nodes (set_user uid f d) = db_nodes d"
  "db_inbounds (set_user uid f d) = db_inbounds d" "db_user_inbounds (set_user uid f d) = db_user_inbounds d"
  "db_snapshots (set_user uid f d) = db_snapshots d" "db_webhook_events (set_user uid f d) = db_webhook_events d"
  "db_api_keys (set_user uid f d) = db_api_keys d"
  by (simp_all add: set_user_def)

lemma set_user_missing: "find_user uid d = None \<Longrightarrow> set_user uid f d = d"
  by (auto simp: set_user_def find_user_def find_None_iff update_rows_def intro!: db.equality map_idI)

lemma find_set_user:
  assumes "\<And>u. u_ID (f u) = u_ID u"
  shows "find_user k (set_user uid f d) = (if k = uid then map_option f (find_user k d) else find_user k d)"
proof -
  have "touch_user uid (\<lambda>_. f) 0 d = Inr (count_rows (\<lambda>r. u_ID r = uid) (db_users d), set_user uid f d)"
    by (simp add: touch_user_def set_user_def)
  from find_touch_user [OF this] assms show ?thesis by simp
qed

lemma find_user_None: "find_user uid d = None \<longleftrightarrow> (\<forall>r \<in> set (db_users d). u_ID r \<noteq> uid)"
  by (auto simp: find_user_def find_None_iff)

lemma set_user_twice: "(\<And>u. u_ID (f u) = u_ID u) \<Longrightarrow> set_user uid g (set_user uid f d) = set_user uid (g \<circ> f) d"
  by (auto simp: set_user_def update_rows_def)

lemma count_user: "count_rows (\<lambda>r. u_ID r = uid) (db_users d) = 0 \<longleftrightarrow> find_user uid d = None"
  by (auto simp: find_user_None)

lemma touch_user_quiet:
  assumes "w_sched w = []"
  shows "requireRow (db_exec (touch_user uid f)) w =
    (if find_user uid (w_db w) = None then Inl ErrNotFound else Inr (),
     w\<lparr>w_db := set_user uid (f (w_now w)) (w_db w)\<rparr>)"
  using assms by (simp add: requireRow_quiet touch_user_def count_user set_user_def del: count_rows_0)

definition with_status :: "string \<Rightarrow> time \<Rightarrow> user \<Rightarrow> user" where
  "with_status st now u = u\<lparr>u_Status := st, u_UpdatedAt := now\<rparr>"

definition reset_row :: "time \<Rightarrow> user \<Rightarrow> user" where
  "reset_row now u = u\<lparr>u_UsedUploadBytes := 0, u_UsedDownloadBytes := 0, u_UpdatedAt := now\<rparr>"

lemma user_changes_id [simp]:
  "u_ID (with_status st now u) = u_ID u" "u_ID (reset_row now u) = u_ID u" "u_ID (assign_user now v u) = u_ID u"
  by (simp_all add: with_status_def reset_row_def assign_user_def)

lemma SetUserStatus_quiet [quiet]:
  "w_sched w = [] \<Longrightarrow> SetUserStatus uid st w = (if find_user uid (w_db w) = None then Inl ErrNotFound else Inr (),
     w\<lparr>w_db := set_user uid (with_status st (w_now w)) (w_db w)\<rparr>)"
  unfolding SetUserStatus_def by (simp add: touch_user_quiet with_status_def [abs_def])

lemma ResetTrafficRow_quiet [quiet]:
  "w_sched w = [] \<Longrightarrow> ResetTrafficRow uid w = (if find_user uid (w_db w) = None then Inl ErrNotFound else Inr (),
     w\<lparr>w_db := set_user uid (reset_row (w_now w)) (w_db w)\<rparr>)"
  unfolding ResetTrafficRow_def by (simp add: touch_user_quiet reset_row_def [abs_def])

lemma UpdateUser_quiet [quiet]:
  assumes "w_sched w = []"
  shows "UpdateUser u w = (case update_user u (w_now w) (w_db w) of Inl e \<Rightarrow> (Inl (mapErr e), w)
    | Inr _ \<Rightarrow> (if find_user (u_ID u) (w_db w) = None then Inl ErrNotFound else Inr (),
        w\<lparr>w_db := set_user (u_ID u) (assign_user (w_now w) u) (w_db w)\<rparr>))"
proof (cases "update_user u (w_now w) (w_db w)")
  case (Inr z)
  then obtain n d where z: "update_user u (w_now w) (w_db w) = Inr (n, d)" by (cases z) auto
  then have "n = count_rows (\<lambda>r. u_ID r = u_ID u) (db_users (w_db w))"
    "d = set_user (u_ID u) (assign_user (w_now w) u) (w_db w)"
    by (auto simp: update_user_def set_user_def Let_def split: if_splits)
  with z show ?thesis using assms by (simp add: UpdateUser_def requireRow_quiet count_user del: count_rows_0)
qed (simp add: UpdateUser_def requireRow_quiet assms)

text \<open>An update that keeps the token and the external identifier of a row violates no constraint.\<close>

lemma update_user_ok:
  assumes wf: "wf_db d" and r: "find_user (u_ID u) d = Some r"
    and keys: "u_SubToken u = u_SubToken r" "u_ExternalID u = u_ExternalID r"
    and plan: "u_PlanID u = u_PlanID r \<or> (\<exists>p. u_PlanID u = Some p \<and> p \<in> plan_ids d)"
  shows "\<exists>z. update_user u now d = Inr z"
proof -
  let ?others = "filter (\<lambda>r. u_ID r \<noteq> u_ID u) (db_users d)"
  note users = wf_dbD(4) [OF wf, unfolded wf_users_def]
  have row: "r \<in> set (db_users d)" "u_ID r = u_ID u" using find_user_in [OF r] by auto
  have inj: "inj_on u_SubToken (set (db_users d))" and ext: "ext_unique (db_users d)"
    using users by (simp_all add: distinct_map)
  have "False" if v: "v \<in> set ?others" "u_SubToken u = u_SubToken v" for v
  proof -
    have "v = r" by (rule inj_onD [OF inj]) (use v keys(1) row(1) in simp_all)
    with v row(2) show False by simp
  qed
  then have tok: "u_SubToken u \<notin> u_SubToken ` set ?others" by blast
  have "False" if v: "v \<in> set ?others" "u_ExternalID v = Some x" "u_ExternalID u = Some x" for v x
  proof -
    have "u_ID v = u_ID r" by (rule ext_uniqueD [OF ext]) (use v keys(2) row(1) in simp_all)
    with v row(2) show False by simp
  qed
  then have "\<not> ext_taken (u_ExternalID u) ?others"
    by (cases "u_ExternalID u") (auto simp: ext_taken_Some, simp add: ext_taken_def)
  moreover have "\<not> bad_plan (u_PlanID u) d"
    using plan users row(1) by (cases "u_PlanID u") (auto simp: bad_plan_def)
  ultimately show ?thesis using tok by (simp add: update_user_def Let_def)
qed

section \<open>What user rows have in common across changes\<close>

text \<open>The columns no operation changes after creation; they are what nodes and clients know of a user.\<close>

definition identity :: "user \<Rightarrow> string \<times> string \<times> string \<times> string \<times> string option \<times> time" where
  "identity u = (u_ID u, u_Email u, u_UUID u, u_TrojanPassword u, u_ExternalID u, u_CreatedAt u)"

lemma nodes_of_user_set_user:
  assumes "\<And>u. u_ID (f u) = u_ID u"
  shows "nodes_of_user k (set_user uid f d) = nodes_of_user k d"
proof -
  have "map (\<lambda>_. n) (filter (\<lambda>u. u_ID u = i \<and> P) (update_rows (\<lambda>r. u_ID r = uid) f us))
      = map (\<lambda>_. n) (filter (\<lambda>u. u_ID u = i \<and> P) us)" for n :: string and i P us
    using assms by (induction us) auto
  then show ?thesis
    unfolding nodes_of_user_def targets_for_user_def join_assignments_def set_user_def
    by (simp add: map_concat comp_def desired_row_def)
qed


end
