(* ===== verification/Users_Service.thy ===== *)
theory Users_Service
  imports Service_Common
begin

text \<open>
  \<open>internal/service/users.go\<close>: the life of a subscription user. The methods combine calls of
  the store with triggers of the worker manager; \<open>time.Now()\<close> is read exactly where the
  source reads it.
\<close>

section \<open>Helpers\<close>

fun dedup_from :: "string set \<Rightarrow> string list \<Rightarrow> string list" where
  "dedup_from seen [] = []"
| "dedup_from seen (x # xs) = (if x \<in> seen then dedup_from seen xs else x # dedup_from (insert x seen) xs)"

definition dedup :: "string list \<Rightarrow> string list" where
  "dedup ids = dedup_from {} ids"

definition distinctNodes :: "desired_assignment list \<Rightarrow> string list" where
  "distinctNodes targets = dedup_from {} (map da_NodeID targets)"

definition reconcileNodes :: "desired_assignment list \<Rightarrow> inbound list \<Rightarrow> ('x, unit) io" where
  "reconcileNodes oldTargets newInbounds =
     reconcile_targets (map da_NodeID oldTargets @ map ib_NodeID newInbounds) {}"

section \<open>Creation\<close>

record create_input =
  ci_Email :: string
  ci_PlanID :: "string option"
  ci_InboundIDs :: "string list"
  ci_DataLimitBytes :: "int64 option"
  ci_ExpiresAt :: "time option"
  ci_Note :: string
  ci_ExternalID :: "string option"

text \<open>The limit and the expiry a new user gets: the plan's, unless overridden.\<close>

definition plan_terms :: "create_input \<Rightarrow> ('x, int64 option \<times> time option) io" where
  "plan_terms inp = (case ci_PlanID inp of
      None \<Rightarrow> ret (ci_DataLimitBytes inp, ci_ExpiresAt inp)
    | Some pid \<Rightarrow> bindE (GetPlan pid) (\<lambda>plan.
        let limit = (case ci_DataLimitBytes inp of None \<Rightarrow> p_DataLimitBytes plan | Some l \<Rightarrow> Some l) in
        case (ci_ExpiresAt inp, p_DurationDays plan) of
          (None, Some days) \<Rightarrow> bindE time_Now (\<lambda>now. ret (limit, Some (AddDays now days)))
        | (expires, _) \<Rightarrow> ret (limit, expires)))"

definition create_tx :: "user \<Rightarrow> inbound list \<Rightarrow> ('x, unit) io" where
  "create_tx u inbounds = bindE (CreateUserTx u) (\<lambda>_. forEach inbounds (\<lambda>ib. AddAssignmentTx (u_ID u) (ib_ID ib)))"

definition new_user :: "create_input \<Rightarrow> int64 option \<Rightarrow> time option \<Rightarrow> ('x, user) io" where
  "new_user inp limit expires = bindE uuid_NewString (\<lambda>uid. bindE uuid_NewString (\<lambda>uuid.
     bindE (randToken 18) (\<lambda>pass. bindE (randToken 24) (\<lambda>token.
     ret \<lparr>u_ID = uid, u_Email = ci_Email inp, u_UUID = uuid, u_TrojanPassword = pass,
       u_PlanID = ci_PlanID inp, u_Status = UserStatusActive, u_DataLimitBytes = limit,
       u_UsedUploadBytes = 0, u_UsedDownloadBytes = 0, u_ExpiresAt = expires, u_SubToken = token,
       u_Note = ci_Note inp, u_ExternalID = ci_ExternalID inp, u_CreatedAt = 0, u_UpdatedAt = 0\<rparr>))))"

definition UserService_Create :: "create_input \<Rightarrow> ('x, user) io" where
  "UserService_Create inp =
     (if TrimSpace (ci_Email inp) = [] then raise (Validationf ''email is required'')
      else if ci_InboundIDs inp = [] then raise (Validationf ''at least one inbound_id is required'')
      else bindE (plan_terms inp) (\<lambda>(limit, expires).
        bindE (ListInboundsByIDs (ci_InboundIDs inp)) (\<lambda>inbounds.
        if length inbounds \<noteq> length (dedup (ci_InboundIDs inp))
        then raise (Validationf ''one or more inbound_ids do not exist'')
        else bindE (new_user inp limit expires) (\<lambda>u.
          bindE (WithTx (create_tx u inbounds)) (\<lambda>_.
          bindE (ReconcileForUser (u_ID u)) (\<lambda>_. GetUser (u_ID u)))))))"

section \<open>Changes of a user\<close>

record update_input =
  up_PlanID :: "string option"
  up_DataLimitBytes :: "int64 option"
  up_ExpiresAt :: "time option"
  up_ClearExpiry :: bool
  up_Note :: "string option"
  up_Status :: "string option"

definition patch_user :: "update_input \<Rightarrow> user \<Rightarrow> user" where
  "patch_user inp u = u\<lparr>
     u_PlanID := (case up_PlanID inp of None \<Rightarrow> u_PlanID u | Some p \<Rightarrow> Some p),
     u_DataLimitBytes := (case up_DataLimitBytes inp of None \<Rightarrow> u_DataLimitBytes u | Some l \<Rightarrow> Some l),
     u_ExpiresAt := (if up_ClearExpiry inp then None
        else case up_ExpiresAt inp of None \<Rightarrow> u_ExpiresAt u | Some t \<Rightarrow> Some t),
     u_Note := (case up_Note inp of None \<Rightarrow> u_Note u | Some n \<Rightarrow> n),
     u_Status := (case up_Status inp of None \<Rightarrow> u_Status u | Some s \<Rightarrow> s)\<rparr>"

text \<open>\<open>u.ExpiresAt == nil || u.ExpiresAt.After(time.Now())\<close>: the clock is read only when there is an expiry.\<close>

definition unexpired :: "user \<Rightarrow> ('x, bool) io" where
  "unexpired u = (case u_ExpiresAt u of None \<Rightarrow> ret True
     | Some t \<Rightarrow> bindE time_Now (\<lambda>now. ret (now < t)))"

text \<open>How \<open>Update\<close> and \<open>Renew\<close> end: write the row, trigger the user's nodes, read it back.\<close>

definition save_user :: "string \<Rightarrow> user \<Rightarrow> ('x, user) io" where
  "save_user uid u = bindE (UpdateUser u) (\<lambda>_. bindE (ReconcileForUser (u_ID u)) (\<lambda>_. GetUser uid))"

definition UserService_Update :: "string \<Rightarrow> update_input \<Rightarrow> ('x, user) io" where
  "UserService_Update uid inp = bindE (GetUser uid) (\<lambda>u0.
     let u = patch_user inp u0 in
     bindE (if u_Status u = UserStatusExpired \<and> u_ExpiresAt u \<noteq> None then unexpired u else ret False) (\<lambda>revive.
     let u = (if revive then u\<lparr>u_Status := UserStatusActive\<rparr> else u) in
     save_user uid u))"

definition UserService_SetInbounds :: "string \<Rightarrow> slice \<Rightarrow> ('x, user) io" where
  "UserService_SetInbounds uid inboundIDs = bindE (GetUser uid) (\<lambda>_.
     bindE (ListInboundsByIDs (elems inboundIDs)) (\<lambda>inbounds.
     if length inbounds \<noteq> length (dedup (elems inboundIDs))
     then raise (Validationf ''one or more inbound_ids do not exist'')
     else bindE (attempt (AssignmentTargetsForUser uid)) (\<lambda>r.
       let oldTargets = (case r of Inl e \<Rightarrow> [] | Inr ts \<Rightarrow> ts) in
       bindE (WithTx (SetAssignmentsForUserTx uid inboundIDs)) (\<lambda>_.
       bindE (reconcileNodes oldTargets inbounds) (\<lambda>_. GetUser uid)))))"

definition setStatusAndReconcile :: "string \<Rightarrow> string \<Rightarrow> ('x, user) io" where
  "setStatusAndReconcile uid status = bindE (SetUserStatus uid status) (\<lambda>_.
     bindE (ReconcileForUser uid) (\<lambda>_. GetUser uid))"

definition UserService_Suspend :: "string \<Rightarrow> ('x, user) io" where
  "UserService_Suspend uid = setStatusAndReconcile uid UserStatusDisabled"

definition UserService_Resume :: "string \<Rightarrow> ('x, user) io" where
  "UserService_Resume uid = bindE (GetUser uid) (\<lambda>u.
     if OverQuota u then raise (Validationf ''user is over data limit; reset traffic or raise the limit first'')
     else bindE (unexpired u) (\<lambda>ok.
       if \<not> ok then raise (Validationf ''user is expired; extend expiry first'')
       else setStatusAndReconcile uid UserStatusActive))"

definition UserService_ResetTraffic :: "string \<Rightarrow> ('x, user) io" where
  "UserService_ResetTraffic uid = bindE (GetUser uid) (\<lambda>u.
     bindE (ResetTrafficRow uid) (\<lambda>_.
     bindE (if u_Status u = UserStatusSuspended then unexpired u else ret False) (\<lambda>revive.
     bindE (if revive then SetUserStatus uid UserStatusActive else ret ()) (\<lambda>_.
     bindE (ReconcileForUser uid) (\<lambda>_. GetUser uid)))))"

record renew_input =
  rn_Days :: int
  rn_ResetTraffic :: bool
  rn_PlanID :: "string option"

text \<open>The steps of \<open>Renew\<close> on the loaded user: the plan, the expiry, the usage, the status.\<close>

definition renew_plan :: "renew_input \<Rightarrow> user \<Rightarrow> ('x, user) io" where
  "renew_plan inp u = (case rn_PlanID inp of None \<Rightarrow> ret u
     | Some pid \<Rightarrow> bindE (GetPlan pid) (\<lambda>plan.
         ret (u\<lparr>u_PlanID := Some pid, u_DataLimitBytes := p_DataLimitBytes plan\<rparr>)))"

definition extend_from :: "time \<Rightarrow> int \<Rightarrow> time option \<Rightarrow> time" where
  "extend_from now days old = AddDays (case old of None \<Rightarrow> now | Some e \<Rightarrow> if now < e then e else now) days"

definition renew_expiry :: "renew_input \<Rightarrow> user \<Rightarrow> ('x, user) io" where
  "renew_expiry inp u = (if 0 < rn_Days inp
     then bindE time_Now (\<lambda>now. ret (u\<lparr>u_ExpiresAt := Some (extend_from now (rn_Days inp) (u_ExpiresAt u))\<rparr>))
     else ret u)"

definition renew_reset :: "string \<Rightarrow> renew_input \<Rightarrow> user \<Rightarrow> ('x, user) io" where
  "renew_reset uid inp u = (if rn_ResetTraffic inp
     then bindE (ResetTrafficRow uid) (\<lambda>_. ret (u\<lparr>u_UsedUploadBytes := 0, u_UsedDownloadBytes := 0\<rparr>))
     else ret u)"

definition renew_revive :: "user \<Rightarrow> ('x, user) io" where
  "renew_revive u = bindE (if u_Status u \<noteq> UserStatusDisabled \<and> \<not> OverQuota u then unexpired u else ret False)
     (\<lambda>revive. ret (if revive then u\<lparr>u_Status := UserStatusActive\<rparr> else u))"

definition UserService_Renew :: "string \<Rightarrow> renew_input \<Rightarrow> ('x, user) io" where
  "UserService_Renew uid inp =
     (if rn_Days inp \<le> 0 \<and> \<not> rn_ResetTraffic inp \<and> rn_PlanID inp = None
      then raise (Validationf ''renew requires days > 0, reset_traffic, or plan_id'')
      else bindE (GetUser uid) (\<lambda>u. bindE (renew_plan inp u) (\<lambda>u. bindE (renew_expiry inp u) (\<lambda>u.
        bindE (renew_reset uid inp u) (\<lambda>u. bindE (renew_revive u) (\<lambda>u. save_user uid u))))))"

definition UserService_RotateSubToken :: "string \<Rightarrow> ('x, user) io" where
  "UserService_RotateSubToken uid = bindE (GetUser uid) (\<lambda>u.
     bindE (randToken 24) (\<lambda>token. bindE (UpdateUser (u\<lparr>u_SubToken := token\<rparr>)) (\<lambda>_. GetUser uid)))"

definition UserService_Delete :: "string \<Rightarrow> ('x, unit) io" where
  "UserService_Delete uid = bindE (AssignmentTargetsForUser uid) (\<lambda>targets.
     bindE (MarkAssignmentsRemovingForUser uid) (\<lambda>_.
     bindE (forEach (distinctNodes targets) Reconcile) (\<lambda>_. DeleteUser uid)))"

section \<open>Reading\<close>

definition TrimRight :: "string \<Rightarrow> char \<Rightarrow> string" where
  "TrimRight s c = rev (dropWhile (\<lambda>x. x = c) (rev s))"

definition SubURL :: "string \<Rightarrow> user \<Rightarrow> string" where
  "SubURL publicBaseURL u = TrimRight publicBaseURL (CHR ''/'') @ ''/sub/'' @ u_SubToken u"

record subscription =
  sub_User :: user
  sub_Inbounds :: "inbound list"

definition SubscriptionByToken :: "string \<Rightarrow> ('x, subscription) io" where
  "SubscriptionByToken token = bindE (GetUserBySubToken token) (\<lambda>u.
     bindE (ListInboundsForUser (u_ID u)) (\<lambda>inbounds. ret \<lparr>sub_User = u, sub_Inbounds = inbounds\<rparr>))"

section \<open>The schema's constraints are kept\<close>

lemma keeps_unexpired [pres]: "preserves I (unexpired u)" "keeps calm (unexpired u)"
  unfolding unexpired_def by (intro pres)+

lemma preserves_plan_terms [pres]: "preserves I (plan_terms inp)"
  unfolding plan_terms_def by (intro pres)

lemma keeps_new_user [pres]: "preserves I (new_user inp l e)" "keeps calm (new_user inp l e)"
  unfolding new_user_def by (intro pres)+

lemma keeps_reconcile_targets [pres]: "preserves I (reconcile_targets ns seen)" "keeps calm (reconcile_targets ns seen)"
  by (simp_all add: keeps_def reconcile_targets_triggers holdsW_def rely_def calm_def)

lemma preserves_reconcileNodes [pres]: "preserves I (reconcileNodes old new)" "keeps calm (reconcileNodes old new)"
  unfolding reconcileNodes_def by (rule pres)+

lemma preserves_create_tx [pres]: "preserves wf_db (create_tx u ibs)"
  unfolding create_tx_def by (intro pres)

lemma preserves_renew_steps [pres]: "preserves I (renew_plan inp u)" "preserves I (renew_expiry inp u)"
  unfolding renew_plan_def renew_expiry_def by (intro pres)+

lemma preserves_renew_changes [pres]: "preserves wf_db (renew_reset uid inp u)" "preserves wf_db (renew_revive u)"
  unfolding renew_reset_def renew_revive_def by (intro pres)+

lemma preserves_save_user [pres]: "preserves wf_db (save_user uid u)"
  unfolding save_user_def by (intro pres)

lemma preserves_setStatus [pres]: "preserves wf_db (setStatusAndReconcile uid st)"
  unfolding setStatusAndReconcile_def by (intro pres)

lemma preserves_user_service [pres]:
  "preserves wf_db (UserService_Create inp)" "preserves wf_db (UserService_Update uid upd)"
  "preserves wf_db (UserService_SetInbounds uid ids)" "preserves wf_db (UserService_Suspend uid)"
  "preserves wf_db (UserService_Resume uid)" "preserves wf_db (UserService_ResetTraffic uid)"
  "preserves wf_db (UserService_Renew uid rn)" "preserves wf_db (UserService_RotateSubToken uid)"
  "preserves wf_db (UserService_Delete uid)" "preserves wf_db (SubscriptionByToken token)"
  unfolding UserService_Create_def UserService_Update_def UserService_SetInbounds_def UserService_Suspend_def
    UserService_Resume_def UserService_ResetTraffic_def UserService_Renew_def UserService_RotateSubToken_def
    UserService_Delete_def SubscriptionByToken_def Let_def
  by (intro pres)+

section \<open>Helper loops\<close>

lemma set_dedup_from: "set (dedup_from seen xs) = set xs - seen" "distinct (dedup_from seen xs)"
  by (induction xs arbitrary: seen) (auto)

lemma dedup_set [simp]: "set (dedup xs) = set xs" "distinct (dedup xs)" "length (dedup xs) = card (set xs)"
  using set_dedup_from [of "{}" xs] distinct_card [of "dedup xs"] by (simp_all add: dedup_def)

text \<open>Comparing lengths decides whether all requested inbounds exist.\<close>

lemma all_inbounds_exist:
  assumes "wf_db d"
  shows "length (filter (\<lambda>i. ib_ID i \<in> set ids) (db_inbounds d)) = length (dedup ids) \<longleftrightarrow> set ids \<subseteq> inbound_ids d"
proof -
  let ?found = "filter (\<lambda>i. ib_ID i \<in> set ids) (db_inbounds d)"
  have "distinct (map ib_ID (db_inbounds d))" using wf_dbD(2) [OF assms] by (simp add: wf_inbounds_def)
  then have "length ?found = card (ib_ID ` set ?found)"
    using distinct_card [of "map ib_ID ?found"] by (simp add: distinct_map inj_on_def)
  moreover have "ib_ID ` set ?found = set ids \<inter> inbound_ids d" by (auto simp: inbound_ids_def)
  ultimately have "length ?found = card (set ids \<inter> inbound_ids d)" by simp
  moreover have "card (set ids \<inter> inbound_ids d) = card (set ids) \<longleftrightarrow> set ids \<inter> inbound_ids d = set ids"
    using card_subset_eq [of "set ids" "set ids \<inter> inbound_ids d"] by auto
  ultimately show ?thesis by auto
qed


section \<open>Undisturbed runs of the methods\<close>

definition alive :: "time \<Rightarrow> user \<Rightarrow> bool" where
  "alive now u \<longleftrightarrow> (case u_ExpiresAt u of None \<Rightarrow> True | Some t \<Rightarrow> now < t)"

text \<open>The world after the expiry of \<open>u\<close> was compared with the clock.\<close>

definition clocked :: "user \<Rightarrow> 'x world \<Rightarrow> 'x world" where
  "clocked u w = (if u_ExpiresAt u = None then w else tick w)"

lemma unexpired_quiet [quiet]: "unexpired u w = (Inr (alive (w_now w) u), clocked u w)"
  by (simp add: unexpired_def alive_def clocked_def quiet split: option.splits)

lemma clocked_simps [simp]:
  "w_db (clocked u w) = w_db w" "w_sched (clocked u w) = w_sched w" "w_heap (clocked u w) = w_heap w"
  "w_actors (clocked u w) = w_actors w" "w_remote (clocked u w) = w_remote w"
  "clocked u (w\<lparr>w_db := d\<rparr>) = (clocked u w)\<lparr>w_db := d\<rparr>"
  by (simp_all add: clocked_def)

text \<open>A user's row is changed and the actors of the user's nodes are triggered.\<close>

definition put_user :: "string \<Rightarrow> (user \<Rightarrow> user) \<Rightarrow> 'x world \<Rightarrow> 'x world" where
  "put_user uid f w = trigger_nodes (nodes_of_user uid (w_db w)) (w\<lparr>w_db := set_user uid f (w_db w)\<rparr>)"

lemma put_user_simps [simp]:
  "w_db (put_user uid f w) = set_user uid f (w_db w)" "w_sched (put_user uid f w) = w_sched w"
  "w_actors (put_user uid f w) = w_actors w" "w_now (put_user uid f w) = w_now w"
  by (simp_all add: put_user_def)

lemma setStatus_quiet [quiet]:
  assumes "w_sched w = []"
  shows "setStatusAndReconcile uid st w = (case find_user uid (w_db w) of None \<Rightarrow> (Inl ErrNotFound, w)
    | Some u \<Rightarrow> (Inr (with_status st (w_now w) u), put_user uid (with_status st (w_now w)) w))"
  using assms
  by (auto simp: setStatusAndReconcile_def quiet find_set_user nodes_of_user_set_user put_user_def set_user_missing split: option.splits)

lemma Suspend_quiet [quiet]:
  "w_sched w = [] \<Longrightarrow> UserService_Suspend uid w = (case find_user uid (w_db w) of None \<Rightarrow> (Inl ErrNotFound, w)
    | Some u \<Rightarrow> (Inr (with_status UserStatusDisabled (w_now w) u), put_user uid (with_status UserStatusDisabled (w_now w)) w))"
  by (simp add: UserService_Suspend_def setStatus_quiet)

lemma Resume_quiet [quiet]:
  assumes "w_sched w = []"
  shows "UserService_Resume uid w = (case find_user uid (w_db w) of None \<Rightarrow> (Inl ErrNotFound, w)
    | Some u \<Rightarrow> if OverQuota u then (Inl (Validationf ''user is over data limit; reset traffic or raise the limit first''), w)
        else let w1 = clocked u w in
          if \<not> alive (w_now w) u then (Inl (Validationf ''user is expired; extend expiry first''), w1)
          else (Inr (with_status UserStatusActive (w_now w1) u), put_user uid (with_status UserStatusActive (w_now w1)) w1))"
  using assms by (simp add: UserService_Resume_def quiet Let_def split: option.splits)

lemma ResetTraffic_quiet [quiet]:
  assumes "w_sched w = []"
  shows "UserService_ResetTraffic uid w = (case find_user uid (w_db w) of None \<Rightarrow> (Inl ErrNotFound, w)
    | Some u \<Rightarrow> if u_Status u = UserStatusSuspended then let w1 = clocked u w in
          if alive (w_now w) u
          then (Inr (with_status UserStatusActive (w_now w1) (reset_row (w_now w) u)),
             put_user uid (with_status UserStatusActive (w_now w1) \<circ> reset_row (w_now w)) w1)
          else (Inr (reset_row (w_now w) u), put_user uid (reset_row (w_now w)) w1)
        else (Inr (reset_row (w_now w) u), put_user uid (reset_row (w_now w)) w))"
  using assms
  by (auto simp: UserService_ResetTraffic_def quiet Let_def find_set_user nodes_of_user_set_user put_user_def
      set_user_twice split: option.splits)


lemma save_user_quiet [quiet]:
  assumes "w_sched w = []" and "u_ID u = uid"
  shows "save_user uid u w =
    (case update_user u (w_now w) (w_db w) of Inl e \<Rightarrow> (Inl (mapErr e), w)
     | Inr _ \<Rightarrow> (case find_user uid (w_db w) of None \<Rightarrow> (Inl ErrNotFound, w)
        | Some r \<Rightarrow> (Inr (assign_user (w_now w) u r), put_user uid (assign_user (w_now w) u) w)))"
  using assms
  by (auto simp: save_user_def quiet find_set_user nodes_of_user_set_user put_user_def set_user_missing
      split: sum.splits option.splits)

definition update_revives :: "time \<Rightarrow> user \<Rightarrow> bool" where
  "update_revives now u \<longleftrightarrow> u_Status u = UserStatusExpired \<and> u_ExpiresAt u \<noteq> None \<and> alive now u"

lemma Update_quiet:
  assumes "w_sched w = []" and u: "find_user uid (w_db w) = Some u"
  shows "UserService_Update uid inp w =
    (let p = patch_user inp u; w1 = (if u_Status p = UserStatusExpired then clocked p w else w);
         v = (if update_revives (w_now w) p then p\<lparr>u_Status := UserStatusActive\<rparr> else p) in
     case update_user v (w_now w1) (w_db w) of Inl e \<Rightarrow> (Inl (mapErr e), w1)
     | Inr _ \<Rightarrow> (Inr (assign_user (w_now w1) v u), put_user uid (assign_user (w_now w1) v) w1))"
proof -
  have id: "u_ID u = uid" "u_ID (patch_user inp u) = uid"
    using find_user_in [OF u] by (simp_all add: patch_user_def)
  show ?thesis
    using assms id
    by (cases "u_ExpiresAt (patch_user inp u)")
      (simp_all add: UserService_Update_def quiet Let_def update_revives_def clocked_def alive_def split: sum.splits)
qed

definition planned :: "renew_input \<Rightarrow> plan option \<Rightarrow> user \<Rightarrow> user" where
  "planned inp plan u = (case plan of None \<Rightarrow> u
     | Some p \<Rightarrow> u\<lparr>u_PlanID := rn_PlanID inp, u_DataLimitBytes := p_DataLimitBytes p\<rparr>)"

definition extended :: "renew_input \<Rightarrow> time \<Rightarrow> user \<Rightarrow> user" where
  "extended inp now u = (if 0 < rn_Days inp
     then u\<lparr>u_ExpiresAt := Some (extend_from now (rn_Days inp) (u_ExpiresAt u))\<rparr> else u)"

definition zeroed :: "renew_input \<Rightarrow> user \<Rightarrow> user" where
  "zeroed inp u = (if rn_ResetTraffic inp then u\<lparr>u_UsedUploadBytes := 0, u_UsedDownloadBytes := 0\<rparr> else u)"

definition renew_terms :: "renew_input \<Rightarrow> plan option \<Rightarrow> time \<Rightarrow> user \<Rightarrow> user" where
  "renew_terms inp plan now u = zeroed inp (extended inp now (planned inp plan u))"

lemmas renew_terms_defs = renew_terms_def planned_def extended_def zeroed_def

definition renew_status :: "time \<Rightarrow> user \<Rightarrow> string" where
  "renew_status now u = (if u_Status u \<noteq> UserStatusDisabled \<and> \<not> OverQuota u \<and> alive now u
     then UserStatusActive else u_Status u)"

text \<open>The plan a renewal names, if the request and the plan are valid.\<close>

definition renew_accepts :: "renew_input \<Rightarrow> db \<Rightarrow> plan option \<Rightarrow> bool" where
  "renew_accepts inp d plan \<longleftrightarrow> (0 < rn_Days inp \<or> rn_ResetTraffic inp \<or> rn_PlanID inp \<noteq> None)
     \<and> (case rn_PlanID inp of None \<Rightarrow> plan = None | Some pid \<Rightarrow> plan \<noteq> None \<and> plan = find_plan pid d)"


lemma set_user_wf:
  assumes "wf_db d"
    and "\<And>u. u_ID (f u) = u_ID u" "\<And>u. u_Email (f u) = u_Email u" "\<And>u. u_UUID (f u) = u_UUID u"
      "\<And>u. u_TrojanPassword (f u) = u_TrojanPassword u" "\<And>u. u_SubToken (f u) = u_SubToken u"
      "\<And>u. u_ExternalID (f u) = u_ExternalID u" "\<And>u. u_PlanID (f u) = u_PlanID u"
  shows "wf_db (set_user uid f d)"
  unfolding set_user_def by (rule wf_touch_users) fact+

lemma find_plan_ids: "find_plan pid d = Some p \<Longrightarrow> pid \<in> plan_ids d"
  by (auto simp: find_plan_def plan_ids_def dest: find_SomeD)

lemma renew_terms_fields [simp]:
  "u_ID (renew_terms inp plan now u) = u_ID u" "u_SubToken (renew_terms inp plan now u) = u_SubToken u"
  "u_ExternalID (renew_terms inp plan now u) = u_ExternalID u" "u_Status (renew_terms inp plan now u) = u_Status u"
  "u_Note (renew_terms inp plan now u) = u_Note u"
  by (simp_all add: renew_terms_defs split: option.splits)

lemma renew_terms_plan:
  "renew_accepts inp d plan \<Longrightarrow> u_PlanID (renew_terms inp plan now u) = u_PlanID u
     \<or> (\<exists>p. u_PlanID (renew_terms inp plan now u) = Some p \<and> p \<in> plan_ids d)"
  by (auto simp: renew_terms_defs renew_accepts_def dest: find_plan_ids split: option.splits)

lemma renew_saves:
  assumes wf: "wf_db (w_db w)" and q: "w_sched w = []" and r: "find_user uid (w_db w) = Some r"
    and same: "u_SubToken r = u_SubToken u" "u_ExternalID r = u_ExternalID u" "u_PlanID r = u_PlanID u" "u_ID u = uid"
    and acc: "renew_accepts inp d plan" and plans: "plan_ids d = plan_ids (w_db w)"
  shows "save_user uid ((renew_terms inp plan now u)\<lparr>u_Status := st\<rparr>) w =
    (Inr (assign_user (w_now w) ((renew_terms inp plan now u)\<lparr>u_Status := st\<rparr>) r),
     put_user uid (assign_user (w_now w) ((renew_terms inp plan now u)\<lparr>u_Status := st\<rparr>)) w)"
proof -
  let ?v = "(renew_terms inp plan now u)\<lparr>u_Status := st\<rparr>"
  have "\<exists>z. update_user ?v (w_now w) (w_db w) = Inr z"
    by (rule update_user_ok [OF wf, where r = r]) (use r same renew_terms_plan [OF acc] plans in auto)
  then show ?thesis using save_user_quiet [OF q, of ?v uid] same(4) r by auto
qed

lemma Renew_quiet:
  assumes wf: "wf_db (w_db w)" and q: "w_sched w = []" and u: "find_user uid (w_db w) = Some u"
    and acc: "renew_accepts inp (w_db w) plan"
  defines "v \<equiv> renew_terms inp plan (w_now w) u"
    and "w1 \<equiv> (if 0 < rn_Days inp then tick w else w)"
  defines "w2 \<equiv> (if rn_ResetTraffic inp then w1\<lparr>w_db := set_user uid (reset_row (w_now w1)) (w_db w)\<rparr> else w1)"
    and "r \<equiv> (if rn_ResetTraffic inp then reset_row (w_now w1) u else u)"
  defines "w3 \<equiv> (if u_Status v \<noteq> UserStatusDisabled \<and> \<not> OverQuota v then clocked v w2 else w2)"
    and "v' \<equiv> v\<lparr>u_Status := renew_status (w_now w2) v\<rparr>"
  shows "UserService_Renew uid inp w = (Inr (assign_user (w_now w3) v' r), put_user uid (assign_user (w_now w3) v') w3)"
proof -
  have id: "u_ID u = uid" using find_user_in [OF u] by simp
  have w3: "w_sched w3 = []" "w_db w3 = w_db w2" using q by (simp_all add: w3_def w2_def w1_def)
  have wf3: "wf_db (w_db w3)"
    using wf unfolding w3(2) by (auto simp: w2_def w1_def reset_row_def intro!: set_user_wf)
  have r: "find_user uid (w_db w3) = Some r"
    using u unfolding w3(2) by (simp add: w2_def w1_def r_def find_set_user)
  have plans: "plan_ids (w_db w) = plan_ids (w_db w3)" by (simp add: w3(2) w2_def w1_def plan_ids_def)
  have save: "save_user uid v' w3 = (Inr (assign_user (w_now w3) v' r), put_user uid (assign_user (w_now w3) v') w3)"
    unfolding v'_def v_def
    by (rule renew_saves [OF wf3 w3(1) r _ _ _ id acc plans]) (simp_all add: r_def reset_row_def)
  have steps: "GetUser uid w = (Inr u, w)" "renew_plan inp u w = (Inr (planned inp plan u), w)"
    "renew_expiry inp (planned inp plan u) w = (Inr (extended inp (w_now w) (planned inp plan u)), w1)"
    using q u acc
    by (auto simp: renew_plan_def planned_def renew_accepts_def renew_expiry_def extended_def w1_def quiet split: option.splits)
  have reset: "renew_reset uid inp (extended inp (w_now w) (planned inp plan u)) w1 = (Inr v, w2)"
    using q u by (simp add: renew_reset_def v_def renew_terms_def zeroed_def w2_def w1_def quiet)
  have revive: "renew_revive v w2 = (Inr v', w3)"
    by (simp add: renew_revive_def quiet w3_def v'_def renew_status_def)
  have valid: "\<not> (rn_Days inp \<le> 0 \<and> \<not> rn_ResetTraffic inp \<and> rn_PlanID inp = None)"
    using acc by (auto simp: renew_accepts_def)
  have "UserService_Renew uid inp w = save_user uid v' w3"
    unfolding UserService_Renew_def if_not_P [OF valid] by (simp add: bindE_def steps reset revive)
  with save show ?thesis by simp
qed

section \<open>Renewal\<close>

text \<open>C19: A renewal. The expiry is extended by the days of the request from the later of now and
  the old expiry, so early renewals stack and late ones grant no retroactive time; usage is
  zeroed on request and the limit is the named plan's. The user becomes active exactly if
  they were not disabled, are within the limit and unexpired afterwards, and keep their
  status otherwise. Identity and credentials stay, and no other user changes.\<close>

theorem Renew_extends:
  assumes wf: "wf_db (w_db w)" and q: "w_sched w = []" and u: "find_user uid (w_db w) = Some u"
    and acc: "renew_accepts inp (w_db w) plan"
  shows "\<exists>v t w'. UserService_Renew uid inp w = (Inr v, w') \<and> w_now w \<le> t
    \<and> find_user uid (w_db w') = Some v \<and> (\<forall>k. k \<noteq> uid \<longrightarrow> find_user k (w_db w') = find_user k (w_db w))
    \<and> identity v = identity u \<and> u_SubToken v = u_SubToken u
    \<and> u_ExpiresAt v = (if 0 < rn_Days inp
        then Some (AddDays (case u_ExpiresAt u of None \<Rightarrow> w_now w | Some e \<Rightarrow> max (w_now w) e) (rn_Days inp))
        else u_ExpiresAt u)
    \<and> u_UsedUploadBytes v = (if rn_ResetTraffic inp then 0 else u_UsedUploadBytes u)
    \<and> u_UsedDownloadBytes v = (if rn_ResetTraffic inp then 0 else u_UsedDownloadBytes u)
    \<and> u_DataLimitBytes v = (case plan of None \<Rightarrow> u_DataLimitBytes u | Some p \<Rightarrow> p_DataLimitBytes p)
    \<and> u_Status v = (if u_Status u \<noteq> UserStatusDisabled \<and> \<not> OverQuota v \<and> alive t v
        then UserStatusActive else u_Status u)"
proof -
  let ?v = "renew_terms inp plan (w_now w) u"
  define w1 where "w1 = (if 0 < rn_Days inp then tick w else w)"
  define w2 where "w2 = (if rn_ResetTraffic inp then w1\<lparr>w_db := set_user uid (reset_row (w_now w1)) (w_db w)\<rparr> else w1)"
  define w3 where "w3 = (if u_Status ?v \<noteq> UserStatusDisabled \<and> \<not> OverQuota ?v then clocked ?v w2 else w2)"
  define r where "r = (if rn_ResetTraffic inp then reset_row (w_now w1) u else u)"
  define v where "v = assign_user (w_now w3) (?v\<lparr>u_Status := renew_status (w_now w2) ?v\<rparr>) r"
  define w' where "w' = put_user uid (assign_user (w_now w3) (?v\<lparr>u_Status := renew_status (w_now w2) ?v\<rparr>)) w3"
  have run: "UserService_Renew uid inp w = (Inr v, w')"
    unfolding v_def w'_def w3_def w2_def w1_def r_def by (rule Renew_quiet [OF wf q u acc])
  have "w_now w \<le> w_now w2" by (simp add: w2_def w1_def tick_now)
  moreover have "find_user uid (w_db w') = Some v"
    and "\<forall>k. k \<noteq> uid \<longrightarrow> find_user k (w_db w') = find_user k (w_db w)"
    using u by (simp_all add: w'_def v_def w3_def w2_def w1_def r_def find_set_user)
  moreover have terms: "u_ExpiresAt v = u_ExpiresAt ?v" "u_DataLimitBytes v = u_DataLimitBytes ?v"
    "u_UsedUploadBytes v = u_UsedUploadBytes ?v" "u_UsedDownloadBytes v = u_UsedDownloadBytes ?v"
    by (simp_all add: v_def assign_user_def r_def reset_row_def renew_terms_defs split: option.splits)
  moreover have "OverQuota v = OverQuota ?v" "alive t v = alive t ?v" for t
    unfolding OverQuota_def UsedTotalBytes_def alive_def terms by simp_all
  ultimately show ?thesis
    using run
    by (intro exI [of _ v] exI [of _ "w_now w2"] exI [of _ w'])
      (auto simp: v_def assign_user_def r_def reset_row_def identity_def renew_status_def
        renew_terms_defs extend_from_def max_def split: option.splits)
qed


theorem Renew_extends_witness:
  "\<exists>v w'. UserService_Renew ''u1'' \<lparr>rn_Days = 30, rn_ResetTraffic = True, rn_PlanID = Some ''p1''\<rparr> (sample_world (\<lambda>_. ()))
      = (Inr v, w') \<and> u_ExpiresAt v = Some (AddDays 100 30) \<and> u_UsedUploadBytes v = 0 \<and> u_DataLimitBytes v = Some 5000"
proof -
  have u: "find_user ''u1'' (w_db (sample_world (\<lambda>_. ()))) = Some sample_user" by code_simp
  have acc: "renew_accepts \<lparr>rn_Days = 30, rn_ResetTraffic = True, rn_PlanID = Some ''p1''\<rparr>
      (w_db (sample_world (\<lambda>_. ()))) (Some sample_plan)" by code_simp
  have old: "u_ExpiresAt sample_user = Some 50" "p_DataLimitBytes sample_plan = Some 5000"
    by (simp_all add: sample_user_def sample_plan_def)
  show ?thesis using Renew_extends [OF _ _ u acc] by (auto simp: wf_sample_db old max_def)
qed

section \<open>Resuming\<close>

text \<open>\<open>Resume\<close> reactivates a user exactly when they are within their limit and not expired.
  Otherwise it is refused and the database stays as it was; in no case does it change
  another user, or more than the status and the time of the change.\<close>

lemma Resume_guards:
  assumes q: "w_sched w = []" and u: "find_user uid (w_db w) = Some u"
  shows "if OverQuota u \<or> \<not> alive (w_now w) u
    then (\<exists>msg w'. UserService_Resume uid w = (Inl (Validationf msg), w') \<and> w_db w' = w_db w)
    else (\<exists>t w'. w_now w \<le> t \<and> UserService_Resume uid w = (Inr (with_status UserStatusActive t u), w')
      \<and> w_db w' = set_user uid (with_status UserStatusActive t) (w_db w))"
  using assms tick_now [of w] by (auto simp: Resume_quiet Let_def clocked_def)

section \<open>What every change of a user has in common\<close>

text \<open>
  A user action is addressed to one user. When it succeeds it returns the row it leaves, with
  the identity it found, and changes no other user's row.
\<close>

locale user_action =
  fixes act :: "string \<Rightarrow> ('x, user) io"
  assumes acts: "wf_db (w_db w) \<Longrightarrow> w_sched w = [] \<Longrightarrow> act uid w = (Inr v, w') \<Longrightarrow>
      (\<exists>u. find_user uid (w_db w) = Some u \<and> identity v = identity u) \<and> find_user uid (w_db w') = Some v
      \<and> (\<forall>k. k \<noteq> uid \<longrightarrow> find_user k (w_db w') = find_user k (w_db w)) \<and> w_sched w' = []"
    and act_wf: "preserves wf_db (act uid)"
    and missing: "w_sched w = [] \<Longrightarrow> find_user uid (w_db w) = None \<Longrightarrow> \<exists>e w'. act uid w = (Inl e, w') \<and> w_db w' = w_db w"
begin

lemma identities_kept:
  assumes "wf_db (w_db w)" "w_sched w = []" "act uid w = (Inr v, w')"
  shows "map_option identity (find_user k (w_db w')) = map_option identity (find_user k (w_db w))"
  using acts [OF assms] by (cases "k = uid") auto

lemma acts_wf: "wf_db (w_db w) \<Longrightarrow> w_sched w = [] \<Longrightarrow> act uid w = (r, w') \<Longrightarrow> wf_db (w_db w')"
  using keepsD [OF act_wf, of w uid] by (simp add: holdsW_def rely_def)

lemma found: "wf_db (w_db w) \<Longrightarrow> w_sched w = [] \<Longrightarrow> act uid w = (Inr v, w') \<Longrightarrow> u_ID v = uid"
  using acts find_user_in by blast

end

lemma identity_simps [simp]:
  "identity (with_status st now u) = identity u" "identity (reset_row now u) = identity u"
  "u_ExternalID v = u_ExternalID u \<Longrightarrow> identity (assign_user now v u) = identity u"
  by (simp_all add: identity_def with_status_def reset_row_def assign_user_def)


lemma Renew_accepted:
  assumes "w_sched w = []" and "UserService_Renew uid inp w = (Inr v, w')"
  shows "\<exists>u plan. find_user uid (w_db w) = Some u \<and> renew_accepts inp (w_db w) plan"
proof (cases "find_user uid (w_db w)")
  case None
  with assms show ?thesis by (simp add: UserService_Renew_def quiet split: if_splits)
next
  case (Some u)
  have "renew_accepts inp (w_db w) (case rn_PlanID inp of None \<Rightarrow> None | Some pid \<Rightarrow> find_plan pid (w_db w))"
    using assms Some
    by (auto simp: UserService_Renew_def renew_plan_def renew_accepts_def quiet split: if_splits option.splits sum.splits)
  with Some show ?thesis by blast
qed

lemma randToken_quiet:
  "\<exists>tok. randToken n w = (Inr tok, w\<lparr>w_rand_pos := w_rand_pos w + n\<rparr>)"
  by (simp add: randToken_def rand_Read_def bindE_def ret_def)

lemma RotateSubToken_quiet:
  assumes "w_sched w = []" and u: "find_user uid (w_db w) = Some u"
  shows "\<exists>tok w1. w_db w1 = w_db w \<and> w_now w1 = w_now w \<and> w_sched w1 = [] \<and> UserService_RotateSubToken uid w =
    (case update_user (u\<lparr>u_SubToken := tok\<rparr>) (w_now w) (w_db w) of Inl e \<Rightarrow> (Inl (mapErr e), w1)
     | Inr _ \<Rightarrow> (Inr (assign_user (w_now w) (u\<lparr>u_SubToken := tok\<rparr>) u),
         w1\<lparr>w_db := set_user uid (assign_user (w_now w) (u\<lparr>u_SubToken := tok\<rparr>)) (w_db w)\<rparr>))"
proof -
  obtain tok where tok: "randToken 24 w = (Inr tok, w\<lparr>w_rand_pos := w_rand_pos w + 24\<rparr>)"
    using randToken_quiet by blast
  have "u_ID u = uid" using find_user_in [OF u] by simp
  with assms tok show ?thesis
    by (intro exI [of _ tok] exI [of _ "w\<lparr>w_rand_pos := w_rand_pos w + 24\<rparr>"])
      (auto simp: UserService_RotateSubToken_def quiet find_set_user split: sum.splits)
qed

lemma set_assignments_tables:
  assumes "set_assignments uid ids now d = Inr (x, d')"
  shows "db_users d' = db_users d" "db_inbounds d' = db_inbounds d" "db_plans d' = db_plans d" "db_nodes d' = db_nodes d"
proof -
  obtain d1 where d1: "tombstone_others uid ids now d = Inr ((), d1)"
    and loop: "for_stmt (elems ids) (\<lambda>ibID. err_stmt mapErr (insert_assignment uid ibID)) now d1 = Inr (x, d')"
    using assms by (auto simp: set_assignments_def seq_stmt_Inr)
  have "db_users d' = db_users d1 \<and> db_inbounds d' = db_inbounds d1 \<and> db_plans d' = db_plans d1 \<and> db_nodes d' = db_nodes d1"
    by (rule for_stmt_induct [OF loop, where P = "\<lambda>_ e. db_users e = db_users d1 \<and> db_inbounds e = db_inbounds d1
        \<and> db_plans e = db_plans d1 \<and> db_nodes e = db_nodes d1"])
      (auto simp: insert_assignment_def split: if_splits option.splits)
  moreover have "db_users d1 = db_users d \<and> db_inbounds d1 = db_inbounds d \<and> db_plans d1 = db_plans d \<and> db_nodes d1 = db_nodes d"
    using d1 by (auto simp: tombstone_others_def touch_assignments_def)
  ultimately show "db_users d' = db_users d" "db_inbounds d' = db_inbounds d" "db_plans d' = db_plans d" "db_nodes d' = db_nodes d"
    by simp_all
qed

lemma SetInbounds_quiet:
  assumes "w_sched w = []" and u: "find_user uid (w_db w) = Some u"
  shows "UserService_SetInbounds uid ids w =
    (let found = filter (\<lambda>i. ib_ID i \<in> set (elems ids)) (db_inbounds (w_db w)) in
     if length found \<noteq> length (dedup (elems ids)) then (Inl (Validationf ''one or more inbound_ids do not exist''), w)
     else case set_assignments uid ids (w_now w) (w_db w) of Inl e \<Rightarrow> (Inl (mapErr e), w)
       | Inr (_, d) \<Rightarrow> (Inr u, trigger_nodes (nodes_of_user uid (w_db w) @ map ib_NodeID found) (w\<lparr>w_db := d\<rparr>)))"
proof -
  have "find_user uid d = Some u" if "set_assignments uid ids (w_now w) (w_db w) = Inr (x, d)" for x d
    using set_assignments_tables(1) [OF that] u by (simp add: find_user_def)
  then show ?thesis
    using assms
    by (auto simp: UserService_SetInbounds_def quiet Let_def attempt_def WithTx_quiet [OF SetAssignmentsForUserTx_refines]
        reconcileNodes_def reconcile_targets_triggers nodes_of_user_def split: sum.splits)
qed

interpretation suspend: user_action UserService_Suspend
proof unfold_locales
  fix w :: "'a world" and uid v w'
  assume "wf_db (w_db w)" "w_sched w = []" "UserService_Suspend uid w = (Inr v, w')"
  then show "(\<exists>u. find_user uid (w_db w) = Some u \<and> identity v = identity u) \<and> find_user uid (w_db w') = Some v
      \<and> (\<forall>k. k \<noteq> uid \<longrightarrow> find_user k (w_db w') = find_user k (w_db w)) \<and> w_sched w' = []"
    by (auto simp: quiet find_set_user split: option.splits)
qed (auto simp: quiet intro: pres)

interpretation resume: user_action UserService_Resume
proof unfold_locales
  fix w :: "'a world" and uid v w'
  assume "wf_db (w_db w)" "w_sched w = []" "UserService_Resume uid w = (Inr v, w')"
  then show "(\<exists>u. find_user uid (w_db w) = Some u \<and> identity v = identity u) \<and> find_user uid (w_db w') = Some v
      \<and> (\<forall>k. k \<noteq> uid \<longrightarrow> find_user k (w_db w') = find_user k (w_db w)) \<and> w_sched w' = []"
    by (auto simp: quiet Let_def find_set_user split: option.splits if_splits)
qed (auto simp: quiet intro: pres)

interpretation reset_traffic: user_action UserService_ResetTraffic
proof unfold_locales
  fix w :: "'a world" and uid v w'
  assume "wf_db (w_db w)" "w_sched w = []" "UserService_ResetTraffic uid w = (Inr v, w')"
  then show "(\<exists>u. find_user uid (w_db w) = Some u \<and> identity v = identity u) \<and> find_user uid (w_db w') = Some v
      \<and> (\<forall>k. k \<noteq> uid \<longrightarrow> find_user k (w_db w') = find_user k (w_db w)) \<and> w_sched w' = []"
    by (auto simp: quiet Let_def find_set_user split: option.splits if_splits)
qed (auto simp: quiet intro: pres)

interpretation renew: user_action "\<lambda>uid. UserService_Renew uid inp" for inp
proof unfold_locales
  fix w :: "'a world" and uid v w'
  assume *: "wf_db (w_db w)" "w_sched w = []" "UserService_Renew uid inp w = (Inr v, w')"
  obtain u plan where u: "find_user uid (w_db w) = Some u" and acc: "renew_accepts inp (w_db w) plan"
    using Renew_accepted [OF *(2,3)] by blast
  show "(\<exists>u. find_user uid (w_db w) = Some u \<and> identity v = identity u) \<and> find_user uid (w_db w') = Some v
      \<and> (\<forall>k. k \<noteq> uid \<longrightarrow> find_user k (w_db w') = find_user k (w_db w)) \<and> w_sched w' = []"
    using Renew_quiet [OF *(1,2) u acc] *(2,3) u
    by (auto simp: find_set_user identity_def assign_user_def reset_row_def)
qed (rule pres, auto simp: UserService_Renew_def quiet)

interpretation update: user_action "\<lambda>uid. UserService_Update uid inp" for inp
proof unfold_locales
  fix w :: "'a world" and uid v w'
  assume *: "wf_db (w_db w)" "w_sched w = []" "UserService_Update uid inp w = (Inr v, w')"
  then obtain u where u: "find_user uid (w_db w) = Some u"
    by (cases "find_user uid (w_db w)") (auto simp: UserService_Update_def quiet)
  show "(\<exists>u. find_user uid (w_db w) = Some u \<and> identity v = identity u) \<and> find_user uid (w_db w') = Some v
      \<and> (\<forall>k. k \<noteq> uid \<longrightarrow> find_user k (w_db w') = find_user k (w_db w)) \<and> w_sched w' = []"
    using Update_quiet [OF *(2) u, of inp] *(2,3) u
    by (auto simp: Let_def find_set_user identity_def assign_user_def patch_user_def split: sum.splits)
qed (rule pres, auto simp: UserService_Update_def quiet)

interpretation rotate: user_action UserService_RotateSubToken
proof unfold_locales
  fix w :: "'a world" and uid v w'
  assume *: "wf_db (w_db w)" "w_sched w = []" "UserService_RotateSubToken uid w = (Inr v, w')"
  then obtain u where u: "find_user uid (w_db w) = Some u"
    by (cases "find_user uid (w_db w)") (auto simp: UserService_RotateSubToken_def quiet)
  show "(\<exists>u. find_user uid (w_db w) = Some u \<and> identity v = identity u) \<and> find_user uid (w_db w') = Some v
      \<and> (\<forall>k. k \<noteq> uid \<longrightarrow> find_user k (w_db w') = find_user k (w_db w)) \<and> w_sched w' = []"
  proof -
    obtain tok w1 where w1: "w_db w1 = w_db w" "w_sched w1 = []"
      and run: "UserService_RotateSubToken uid w =
        (case update_user (u\<lparr>u_SubToken := tok\<rparr>) (w_now w) (w_db w) of Inl e \<Rightarrow> (Inl (mapErr e), w1)
         | Inr _ \<Rightarrow> (Inr (assign_user (w_now w) (u\<lparr>u_SubToken := tok\<rparr>) u),
             w1\<lparr>w_db := set_user uid (assign_user (w_now w) (u\<lparr>u_SubToken := tok\<rparr>)) (w_db w)\<rparr>))"
      using RotateSubToken_quiet [OF *(2) u] by blast
    show ?thesis
      using *(3) u w1 unfolding run
      by (cases "update_user (u\<lparr>u_SubToken := tok\<rparr>) (w_now w) (w_db w)") (auto simp: find_set_user)
  qed
qed (rule pres, auto simp: UserService_RotateSubToken_def quiet)

interpretation set_inbounds: user_action "\<lambda>uid. UserService_SetInbounds uid ids" for ids
proof unfold_locales
  fix w :: "'a world" and uid v w'
  assume *: "wf_db (w_db w)" "w_sched w = []" "UserService_SetInbounds uid ids w = (Inr v, w')"
  then obtain u where u: "find_user uid (w_db w) = Some u"
    by (cases "find_user uid (w_db w)") (auto simp: UserService_SetInbounds_def quiet)
  show "(\<exists>u. find_user uid (w_db w) = Some u \<and> identity v = identity u) \<and> find_user uid (w_db w') = Some v
      \<and> (\<forall>k. k \<noteq> uid \<longrightarrow> find_user k (w_db w') = find_user k (w_db w)) \<and> w_sched w' = []"
    using SetInbounds_quiet [OF *(2) u, of ids] *(2,3) u
    by (auto simp: Let_def find_user_def dest: set_assignments_tables(1) split: sum.splits if_splits)
qed (rule pres, auto simp: UserService_SetInbounds_def quiet)


section \<open>Replacing the inbounds of a user\<close>

lemma for_stmt_ok:
  assumes "P d" and "\<And>b d. b \<in> set bs \<Longrightarrow> P d \<Longrightarrow> \<exists>d'. f b now d = Inr ((), d') \<and> P d'"
  shows "\<exists>d'. for_stmt bs f now d = Inr ((), d') \<and> P d'"
  using assms
proof (induction bs arbitrary: d)
  case (Cons b bs)
  then obtain d1 where "f b now d = Inr ((), d1)" "P d1" by (meson list.set_intros(1))
  with Cons.IH [of d1] Cons.prems(2) show ?case by (auto simp: seq_stmt_def)
qed simp

lemma insert_assignment_ok:
  assumes "uid \<in> user_ids d" "iid \<in> inbound_ids d"
  shows "\<exists>d'. insert_assignment uid iid now d = Inr ((), d') \<and> user_ids d' = user_ids d \<and> inbound_ids d' = inbound_ids d"
  using assms by (auto simp: insert_assignment_def user_ids_def inbound_ids_def)

lemma set_assignments_ok:
  assumes "uid \<in> user_ids d" "set (elems ids) \<subseteq> inbound_ids d"
  shows "\<exists>d'. set_assignments uid ids now d = Inr ((), d')"
proof -
  obtain d1 where d1: "tombstone_others uid ids now d = Inr ((), d1)" "user_ids d1 = user_ids d" "inbound_ids d1 = inbound_ids d"
    by (simp add: tombstone_others_def touch_assignments_def user_ids_def inbound_ids_def)
  have "\<exists>d'. for_stmt (elems ids) (\<lambda>ibID. err_stmt mapErr (insert_assignment uid ibID)) now d1 = Inr ((), d')
      \<and> user_ids d' = user_ids d \<and> inbound_ids d' = inbound_ids d"
  proof (rule for_stmt_ok)
    fix b e assume b: "b \<in> set (elems ids)" and e: "user_ids e = user_ids d \<and> inbound_ids e = inbound_ids d"
    have "uid \<in> user_ids e" "b \<in> inbound_ids e" using b e assms by auto
    from insert_assignment_ok [OF this] e
    show "\<exists>d'. err_stmt mapErr (insert_assignment uid b) now e = Inr ((), d') \<and> user_ids d' = user_ids d \<and> inbound_ids d' = inbound_ids d"
      by auto
  qed (simp add: d1)
  with d1(1) show ?thesis by (auto simp: set_assignments_def seq_stmt_def err_stmt_def)
qed

text \<open>C22: \<open>SetInbounds\<close> replaces a user's assignments: rows of inbounds not in the list become
  tombstones (a nil list is not compared and makes none), missing rows are added as pending, the others and the rows of all other
  users stay, and the actors of all nodes that lose or gain the user are triggered. With
  an unknown inbound in the list it is refused and nothing is written.\<close>

theorem SetInbounds_replaces:
  assumes wf: "wf_db (w_db w)" and q: "w_sched w = []" and u: "find_user uid (w_db w) = Some u"
  shows "if set (elems ids) \<subseteq> inbound_ids (w_db w)
    then \<exists>w'. UserService_SetInbounds uid ids w = (Inr u, w')
      \<and> (\<forall>k iid. find_assignment k iid (w_db w') = replaced uid ids k iid (find_assignment k iid (w_db w)))
      \<and> (\<forall>n a. w_actors w n = Some a \<and> (n \<in> set (nodes_of_user uid (w_db w))
            \<or> (\<exists>i \<in> set (db_inbounds (w_db w)). ib_ID i \<in> set (elems ids) \<and> ib_NodeID i = n)) \<longrightarrow> a_reconcileCh (w_heap w' a))
    else \<exists>msg. UserService_SetInbounds uid ids w = (Inl (Validationf msg), w)"
proof (cases "set (elems ids) \<subseteq> inbound_ids (w_db w)")
  case True
  then have len: "length (filter (\<lambda>i. ib_ID i \<in> set (elems ids)) (db_inbounds (w_db w))) = length (dedup (elems ids))"
    by (simp only: all_inbounds_exist [OF wf])
  have "uid \<in> user_ids (w_db w)" using find_user_ids [of uid "w_db w"] u by simp
  then obtain d' where d': "set_assignments uid ids (w_now w) (w_db w) = Inr ((), d')"
    using set_assignments_ok [OF _ True] by blast
  from SetInbounds_quiet [OF q u, of ids] len True d' find_assignment_set [OF d'] show ?thesis
    by (auto simp: Let_def trigger_nodes_def)
next
  case False
  then have "length (filter (\<lambda>i. ib_ID i \<in> set (elems ids)) (db_inbounds (w_db w))) \<noteq> length (dedup (elems ids))"
    by (simp only: all_inbounds_exist [OF wf] simp_thms)
  with SetInbounds_quiet [OF q u, of ids] False show ?thesis by (simp add: Let_def)
qed

theorem SetInbounds_replaces_witness:
  "\<exists>w'. UserService_SetInbounds ''u1'' (Some [''i2'']) (sample_world (\<lambda>_. ())) = (Inr sample_user, w')
     \<and> (\<exists>r. find_assignment ''u1'' ''i1'' (w_db w') = Some r \<and> ui_SyncStatus r = SyncRemoving)
     \<and> find_assignment ''u1'' ''i2'' (w_db w') = Some (new_assignment ''u1'' ''i2'')"
proof -
  let ?w = "sample_world (\<lambda>_. ())"
  have u: "find_user ''u1'' (w_db ?w) = Some sample_user" by code_simp
  have ids: "set (elems (Some [''i2''])) \<subseteq> inbound_ids (w_db ?w)" by code_simp
  have old: "replaced ''u1'' (Some [''i2'']) ''u1'' ''i2'' (find_assignment ''u1'' ''i2'' (w_db ?w)) = Some (new_assignment ''u1'' ''i2'')"
    by code_simp
  have "map_option ui_SyncStatus (replaced ''u1'' (Some [''i2'']) ''u1'' ''i1'' (find_assignment ''u1'' ''i1'' (w_db ?w)))
      = Some SyncRemoving"
    by code_simp
  then have gone: "\<exists>r. replaced ''u1'' (Some [''i2'']) ''u1'' ''i1'' (find_assignment ''u1'' ''i1'' (w_db ?w)) = Some r
      \<and> ui_SyncStatus r = SyncRemoving" by auto
  from SetInbounds_replaces [OF _ _ u, of "Some [''i2'']"] ids old gone show ?thesis by (auto simp: wf_sample_db)
qed

text \<open>C23: An assignment that is still a tombstone when its inbound is assigned again stays a
  tombstone: the insertion finds the row and does nothing, so the inbound is not served and
  the next pass over the node deletes the assignment.\<close>

theorem SetInbounds_keeps_tombstone:
  assumes wf: "wf_db (w_db w)" and q: "w_sched w = []" and u: "find_user uid (w_db w) = Some u"
    and row: "find_assignment uid iid (w_db w) = Some r" "ui_SyncStatus r = SyncRemoving"
    and run: "UserService_SetInbounds uid ids w = (Inr v, w')" and again: "iid \<in> set (elems ids)"
  shows "find_assignment uid iid (w_db w') = Some r"
proof -
  obtain d x where "set_assignments uid ids (w_now w) (w_db w) = Inr (x, d)" "w_db w' = d"
    using SetInbounds_quiet [OF q u, of ids] run by (auto simp: Let_def split: if_splits sum.splits)
  with find_assignment_set [of uid ids "w_now w" "w_db w" x d uid iid] row again show ?thesis
    by (auto simp: replaced_def differs_from_all_def elems_def split: option.splits)
qed


definition tombstone_world :: "unit world" where
  "tombstone_world = (sample_world (\<lambda>_. ()))\<lparr>w_db := sample_db\<lparr>db_user_inbounds :=
     [\<lparr>ui_UserID = ''u1'', ui_InboundID = ''i1'', ui_SyncStatus = SyncRemoving, ui_LastSyncedAt = None, ui_LastError = ''''\<rparr>]\<rparr>\<rparr>"

theorem SetInbounds_keeps_tombstone_witness:
  "map_option ui_SyncStatus (find_assignment ''u1'' ''i1''
     (w_db (snd (UserService_SetInbounds ''u1'' (Some [''i1'']) tombstone_world)))) = Some SyncRemoving"
proof -
  let ?r = "\<lparr>ui_UserID = ''u1'', ui_InboundID = ''i1'', ui_SyncStatus = SyncRemoving, ui_LastSyncedAt = None, ui_LastError = ''''\<rparr>"
  have wf: "wf_db (w_db tombstone_world)" by code_simp
  have u: "find_user ''u1'' (w_db tombstone_world) = Some sample_user" by code_simp
  have q: "w_sched tombstone_world = []" by (simp add: tombstone_world_def)
  have row: "find_assignment ''u1'' ''i1'' (w_db tombstone_world) = Some ?r" by code_simp
  have run: "fst (UserService_SetInbounds ''u1'' (Some [''i1'']) tombstone_world) = Inr sample_user" by code_simp
  from SetInbounds_keeps_tombstone [OF wf q u row _ run_eqI [OF run]] show ?thesis by (simp add: elems_def)
qed

end
