(* ===== verification/Users_Provisioning.thy ===== *)
theory Users_Provisioning
  imports Users_Service
begin

text \<open>
  Creation and deletion of users: what \<open>UserService.Create\<close> and \<open>UserService.Delete\<close> leave in the
  database and which nodes they trigger, and that creation is atomic whatever call fails.
\<close>

section \<open>Creating a user\<close>

definition create_stmt :: "user \<Rightarrow> inbound list \<Rightarrow> unit stmt" where
  "create_stmt u inbounds = seq_stmt (err_stmt mapErr (insert_user u)) (\<lambda>_.
     for_stmt inbounds (\<lambda>ib. err_stmt mapErr (insert_assignment (u_ID u) (ib_ID ib))))"

lemma create_tx_refines [ref]: "refines (create_tx u ibs) (create_stmt u ibs)"
  unfolding create_tx_def create_stmt_def CreateUserTx_def AddAssignmentTx_def by (intro ref)

lemma no_assignment:
  assumes "wf_db d" "uid \<notin> user_ids d" shows "find_assignment uid iid d = None"
  using wf_dbD(5) [OF assms(1)] assms(2)
  by (auto simp: wf_user_inbounds_def find_assignment_def find_None_iff is_assignment_def)

lemma create_stmt_effect:
  assumes wf: "wf_db d" and run: "create_stmt u ibs now d = Inr (x, d')"
  shows "find_user (u_ID u) d = None"
    and "find_user k d' = (if k = u_ID u then Some (new_user_row now u) else find_user k d)"
    and "find_assignment k iid d' = (if k = u_ID u \<and> iid \<in> ib_ID ` set ibs then Some (new_assignment k iid) else find_assignment k iid d)"
    and "db_inbounds d' = db_inbounds d"
proof -
  obtain d1 where ins: "insert_user u now d = Inr ((), d1)"
    and loop: "for_stmt ibs (\<lambda>ib. err_stmt mapErr (insert_assignment (u_ID u) (ib_ID ib))) now d1 = Inr (x, d')"
    using run by (auto simp: create_stmt_def seq_stmt_Inr)
  have fresh: "u_ID u \<notin> user_ids d" using users.ins_fresh [OF ins] by (simp add: user_ids_def)
  then show new: "find_user (u_ID u) d = None" using find_user_ids [of "u_ID u" d] by auto
  have d1: "d1 = d\<lparr>db_users := db_users d @ [new_user_row now u]\<rparr>"
    using ins by (auto simp: insert_user_def split: if_splits)
  have tables: "db_users d' = db_users d1 \<and> db_inbounds d' = db_inbounds d1"
    by (rule for_stmt_induct [OF loop, where P = "\<lambda>_ e. db_users e = db_users d1 \<and> db_inbounds e = db_inbounds d1"])
      (auto simp: insert_assignment_def split: if_splits option.splits)
  then show "db_inbounds d' = db_inbounds d" by (simp add: d1)
  have "find_user k d' = find_user k d1" using tables by (simp add: find_user_def)
  also have "\<dots> = (if k = u_ID u then Some (new_user_row now u) else find_user k d)"
    using new by (auto simp: d1 find_user_def find_append_single new_user_row_def split: option.splits)
  finally show "find_user k d' = (if k = u_ID u then Some (new_user_row now u) else find_user k d)" .
  have old: "find_assignment k iid d1 = find_assignment k iid d" for k iid by (simp add: d1 find_assignment_def)
  show "find_assignment k iid d' = (if k = u_ID u \<and> iid \<in> ib_ID ` set ibs then Some (new_assignment k iid) else find_assignment k iid d)"
    by (rule for_stmt_induct [OF loop, where P = "\<lambda>bs e. find_assignment k iid e =
        (if k = u_ID u \<and> iid \<in> ib_ID ` set bs then Some (new_assignment k iid) else find_assignment k iid d)"])
      (auto simp: old no_assignment [OF wf fresh] dest!: find_assignment_insert [where uid = k and iid = iid])
qed

definition named_plan :: "string option \<Rightarrow> db \<Rightarrow> plan option" where
  "named_plan p d = Option.bind p (\<lambda>pid. find_plan pid d)"

definition initial_limit :: "create_input \<Rightarrow> db \<Rightarrow> int64 option" where
  "initial_limit inp d = (case ci_DataLimitBytes inp of Some l \<Rightarrow> Some l
     | None \<Rightarrow> Option.bind (named_plan (ci_PlanID inp) d) p_DataLimitBytes)"

definition initial_expiry :: "create_input \<Rightarrow> time \<Rightarrow> db \<Rightarrow> time option" where
  "initial_expiry inp now d = (case ci_ExpiresAt inp of Some t \<Rightarrow> Some t
     | None \<Rightarrow> map_option (AddDays now) (Option.bind (named_plan (ci_PlanID inp) d) p_DurationDays))"

lemma plan_terms_quiet:
  assumes "w_sched w = []"
  shows "plan_terms inp w =
    (if ci_PlanID inp \<noteq> None \<and> named_plan (ci_PlanID inp) (w_db w) = None then (Inl ErrNotFound, w)
     else (Inr (initial_limit inp (w_db w), initial_expiry inp (w_now w) (w_db w)),
       if ci_ExpiresAt inp = None \<and> Option.bind (named_plan (ci_PlanID inp) (w_db w)) p_DurationDays \<noteq> None then tick w else w))"
  using assms
  by (auto simp: plan_terms_def quiet Let_def named_plan_def initial_limit_def initial_expiry_def split: option.splits)


lemma nodes_of_user_iff:
  "n \<in> set (nodes_of_user uid d) \<longleftrightarrow> (\<exists>r \<in> set (db_user_inbounds d). \<exists>i \<in> set (db_inbounds d). \<exists>u \<in> set (db_users d).
     ui_UserID r = uid \<and> ib_ID i = ui_InboundID r \<and> u_ID u = uid \<and> ib_NodeID i = n)"
proof
  assume "n \<in> set (nodes_of_user uid d)"
  then show "\<exists>r \<in> set (db_user_inbounds d). \<exists>i \<in> set (db_inbounds d). \<exists>u \<in> set (db_users d).
     ui_UserID r = uid \<and> ib_ID i = ui_InboundID r \<and> u_ID u = uid \<and> ib_NodeID i = n"
    unfolding nodes_of_user_def targets_for_user_def set_map image_iff Bex_def mem_join_assignments
    by (auto simp: desired_row_def) blast
next
  assume "\<exists>r \<in> set (db_user_inbounds d). \<exists>i \<in> set (db_inbounds d). \<exists>u \<in> set (db_users d).
     ui_UserID r = uid \<and> ib_ID i = ui_InboundID r \<and> u_ID u = uid \<and> ib_NodeID i = n"
  then obtain r i u where "r \<in> set (db_user_inbounds d)" "i \<in> set (db_inbounds d)" "u \<in> set (db_users d)"
    "ui_UserID r = uid" "ib_ID i = ui_InboundID r" "u_ID u = uid" "ib_NodeID i = n" by blast
  then have "desired_row r i u \<in> set (targets_for_user uid d)" "da_NodeID (desired_row r i u) = n"
    unfolding targets_for_user_def mem_join_assignments by (force simp: desired_row_def)+
  then show "n \<in> set (nodes_of_user uid d)" unfolding nodes_of_user_def by force
qed

lemma nodes_of_user_assigned:
  assumes "find_assignment uid iid d = Some r" "i \<in> set (db_inbounds d)" "ib_ID i = iid" "find_user uid d = Some u"
  shows "ib_NodeID i \<in> set (nodes_of_user uid d)"
proof -
  have r: "r \<in> set (db_user_inbounds d)" "ui_UserID r = uid" "ui_InboundID r = iid"
    using find_SomeD [OF assms(1) [unfolded find_assignment_def]] by (auto simp: is_assignment_def)
  have "u \<in> set (db_users d)" "u_ID u = uid" using find_user_in [OF assms(4)] by auto
  with r assms(2,3) show ?thesis unfolding nodes_of_user_iff by blast
qed

lemma new_user_quiet:
  "\<exists>u n m. new_user inp limit expires w = (Inr u, w\<lparr>w_uuid_pos := n, w_rand_pos := m\<rparr>)
    \<and> u_Email u = ci_Email inp \<and> u_Status u = UserStatusActive \<and> u_PlanID u = ci_PlanID inp
    \<and> u_DataLimitBytes u = limit \<and> u_ExpiresAt u = expires \<and> u_ExternalID u = ci_ExternalID inp \<and> u_Note u = ci_Note inp"
  by (simp add: new_user_def randToken_def rand_Read_def uuid_NewString_def bindE_def ret_def) blast

text \<open>A successful run of \<open>Create\<close>: the transaction found the requested inbounds and committed.\<close>

lemma Create_run:
  fixes w :: "'x world"
  assumes q: "w_sched w = []" and run: "UserService_Create inp w = (Inr v, w')"
  defines "found \<equiv> filter (\<lambda>i. ib_ID i \<in> set (ci_InboundIDs inp)) (db_inbounds (w_db w))"
  obtains u w1 d' where "w_db w1 = w_db w" "w_actors w1 = w_actors w" "w_heap w1 = w_heap w"
    "create_stmt u found (w_now w1) (w_db w) = Inr ((), d')" "length found = length (dedup (ci_InboundIDs inp))"
    "find_user (u_ID u) d' = Some v" "w' = trigger_nodes (nodes_of_user (u_ID u) d') (w1\<lparr>w_db := d'\<rparr>)"
    "u_Email u = ci_Email inp" "u_Status u = UserStatusActive" "u_PlanID u = ci_PlanID inp" "u_ExternalID u = ci_ExternalID inp"
    "u_DataLimitBytes u = initial_limit inp (w_db w)" "u_ExpiresAt u = initial_expiry inp (w_now w) (w_db w)"
proof -
  let ?l = "initial_limit inp (w_db w)" and ?e = "initial_expiry inp (w_now w) (w_db w)"
  obtain w0 where terms: "plan_terms inp w = (Inr (?l, ?e), w0)" and w0: "w0 = w \<or> w0 = tick w"
    using plan_terms_quiet [OF q, of inp] run
    by (auto simp: UserService_Create_def bindE_def raise_def split: if_splits)
  have same0: "w_db w0 = w_db w" "w_sched w0 = []" "w_actors w0 = w_actors w" "w_heap w0 = w_heap w" using w0 q by auto
  obtain u n m where new: "new_user inp ?l ?e w0 = (Inr u, w0\<lparr>w_uuid_pos := n, w_rand_pos := m\<rparr>)"
    and fields: "u_Email u = ci_Email inp" "u_Status u = UserStatusActive" "u_PlanID u = ci_PlanID inp"
      "u_ExternalID u = ci_ExternalID inp" "u_DataLimitBytes u = ?l" "u_ExpiresAt u = ?e"
    using new_user_quiet [of inp ?l ?e w0] by blast
  define w1 where "w1 = w0\<lparr>w_uuid_pos := n, w_rand_pos := m\<rparr>"
  have same: "w_db w1 = w_db w" "w_sched w1 = []" "w_actors w1 = w_actors w" "w_heap w1 = w_heap w"
    using same0 by (simp_all add: w1_def)
  have list: "ListInboundsByIDs (ci_InboundIDs inp) w0 = (Inr found, w0)"
    using ListInboundsByIDs_quiet [OF same0(2)] same0(1) by (simp add: found_def)
  have len: "length found = length (dedup (ci_InboundIDs inp))" and
    rest: "bindE (WithTx (create_tx u found)) (\<lambda>_. bindE (ReconcileForUser (u_ID u)) (\<lambda>_. GetUser (u_ID u))) w1 = (Inr v, w')"
    using run by (auto simp: UserService_Create_def bindE_quiet_iff [of "plan_terms inp" _ w] terms
        bindE_quiet_iff [of "ListInboundsByIDs _" _ w0] list bindE_quiet_iff [of "new_user _ _ _" _ w0] new w1_def raise_def
        simp del: dedup_set split: if_splits)
  obtain d' where tx: "create_stmt u found (w_now w1) (w_db w) = Inr ((), d')"
    and end': "(case find_user (u_ID u) d' of None \<Rightarrow> Inl ErrNotFound | Some u \<Rightarrow> Inr u) = Inr v"
      "w' = trigger_nodes (nodes_of_user (u_ID u) d') (w1\<lparr>w_db := d'\<rparr>)"
    using rest same by (auto simp: quiet WithTx_quiet [OF create_tx_refines] split: sum.splits)
  show thesis
    by (rule that [OF same(1,3,4) tx len _ end'(2) fields]) (use end'(1) in \<open>simp split: option.splits\<close>)
qed

text \<open>C20: A created user. The new row is active, carries the requested data and the terms of the
  plan unless they were overridden, and has one pending assignment per requested inbound;
  all other users and assignments stay as they were, every requested inbound exists, and
  the actors of their nodes are triggered.\<close>

theorem Create_provisions:
  assumes wf: "wf_db (w_db w)" and q: "w_sched w = []" and run: "UserService_Create inp w = (Inr v, w')"
  shows "find_user (u_ID v) (w_db w) = None
    \<and> (\<forall>k. find_user k (w_db w') = (if k = u_ID v then Some v else find_user k (w_db w)))
    \<and> u_Email v = ci_Email inp \<and> u_Status v = UserStatusActive \<and> u_UsedUploadBytes v = 0 \<and> u_UsedDownloadBytes v = 0
    \<and> u_PlanID v = ci_PlanID inp \<and> u_ExternalID v = ci_ExternalID inp
    \<and> u_DataLimitBytes v = initial_limit inp (w_db w) \<and> u_ExpiresAt v = initial_expiry inp (w_now w) (w_db w)
    \<and> set (ci_InboundIDs inp) \<subseteq> inbound_ids (w_db w)
    \<and> (\<forall>k iid. find_assignment k iid (w_db w') = (if k = u_ID v \<and> iid \<in> set (ci_InboundIDs inp)
         then Some (new_assignment k iid) else find_assignment k iid (w_db w)))
    \<and> (\<forall>i a. i \<in> set (db_inbounds (w_db w)) \<and> ib_ID i \<in> set (ci_InboundIDs inp) \<and> w_actors w (ib_NodeID i) = Some a
         \<longrightarrow> a_reconcileCh (w_heap w' a))"
proof -
  define found where "found = filter (\<lambda>i. ib_ID i \<in> set (ci_InboundIDs inp)) (db_inbounds (w_db w))"
  obtain u w1 d' where w1: "w_db w1 = w_db w" "w_actors w1 = w_actors w" "w_heap w1 = w_heap w"
    and tx: "create_stmt u found (w_now w1) (w_db w) = Inr ((), d')"
    and len: "length found = length (dedup (ci_InboundIDs inp))"
    and v: "find_user (u_ID u) d' = Some v" and w': "w' = trigger_nodes (nodes_of_user (u_ID u) d') (w1\<lparr>w_db := d'\<rparr>)"
    and fields: "u_Email u = ci_Email inp" "u_Status u = UserStatusActive" "u_PlanID u = ci_PlanID inp"
      "u_ExternalID u = ci_ExternalID inp" "u_DataLimitBytes u = initial_limit inp (w_db w)"
      "u_ExpiresAt u = initial_expiry inp (w_now w) (w_db w)"
    by (rule Create_run [OF q run, folded found_def]) blast
  note eff = create_stmt_effect [OF wf tx]
  have v': "v = new_user_row (w_now w1) u" using v eff(2) by simp
  then have id: "u_ID v = u_ID u" by (simp add: new_user_row_def)
  have all: "set (ci_InboundIDs inp) \<subseteq> inbound_ids (w_db w)" using len all_inbounds_exist [OF wf] unfolding found_def by blast
  then have ids: "ib_ID ` set found = set (ci_InboundIDs inp)" by (auto simp: inbound_ids_def found_def)
  have "a_reconcileCh (w_heap w' a)"
    if "i \<in> set (db_inbounds (w_db w))" "ib_ID i \<in> set (ci_InboundIDs inp)" "w_actors w (ib_NodeID i) = Some a" for i a
  proof -
    have "find_assignment (u_ID u) (ib_ID i) d' = Some (new_assignment (u_ID u) (ib_ID i))"
      using that(2) by (simp add: eff(3) ids)
    then have "ib_NodeID i \<in> set (nodes_of_user (u_ID u) d')"
      by (rule nodes_of_user_assigned) (use that(1) eff(4) v in auto)
    then show ?thesis using that(3) w1(2) by (auto simp: w' trigger_nodes_def)
  qed
  then have "\<forall>i a. i \<in> set (db_inbounds (w_db w)) \<and> ib_ID i \<in> set (ci_InboundIDs inp) \<and> w_actors w (ib_NodeID i) = Some a
      \<longrightarrow> a_reconcileCh (w_heap w' a)" by blast
  then show ?thesis
    using eff(1-3) fields all ids unfolding id w' by (simp add: v' new_user_row_def)
qed


definition sample_input :: create_input where
  "sample_input = \<lparr>ci_Email = ''new@x'', ci_PlanID = Some ''p1'', ci_InboundIDs = [''i1''], ci_DataLimitBytes = None,
     ci_ExpiresAt = None, ci_Note = '''', ci_ExternalID = None\<rparr>"

theorem Create_provisions_witness:
  "\<exists>v w'. UserService_Create sample_input (sample_world (\<lambda>_. ())) = (Inr v, w') \<and> find_user (u_ID v) (w_db w') = Some v
     \<and> u_DataLimitBytes v = Some 5000 \<and> u_ExpiresAt v = Some (AddDays 100 30)
     \<and> find_assignment (u_ID v) ''i1'' (w_db w') = Some (new_assignment (u_ID v) ''i1'')"
proof -
  let ?w = "sample_world (\<lambda>_. ())"
  have "\<not> isl (fst (UserService_Create sample_input ?w))" by code_simp
  then obtain v where run: "UserService_Create sample_input ?w = (Inr v, snd (UserService_Create sample_input ?w))"
    by (metis prod.collapse sum.collapse(2))
  have terms: "initial_limit sample_input (w_db ?w) = Some 5000" "initial_expiry sample_input (w_now ?w) (w_db ?w) = Some (AddDays 100 30)"
    by code_simp+
  have ids: "''i1'' \<in> set (ci_InboundIDs sample_input)" by (simp add: sample_input_def)
  from Create_provisions [OF _ _ run] run terms ids show ?thesis
    by (intro exI [of _ v] exI [of _ "snd (UserService_Create sample_input ?w)"]) (simp add: wf_sample_db)
qed


section \<open>Creation is atomic\<close>

text \<open>Nothing else writes, and the database is \<open>d\<close>; calls may still fail.\<close>

definition still :: "db \<Rightarrow> 'x world \<Rightarrow> bool" where
  "still d w \<longleftrightarrow> calm w \<and> w_db w = d"

lemma still_db_query [pres]: "keeps (still d) (db_query q)"
proof (unfold keeps_def, intro allI impI)
  fix w :: "'a world" assume "still d w"
  moreover have "db_at_call w = w_db w" if "calm w" for w :: "'a world"
    using that by (auto simp: calm_def db_at_call_def split: list.splits)
  moreover have "w_db (snd (db_query q w)) = db_at_call w"
    by (auto simp: db_query_def db_exec_def next_call_def run_stmt_def db_at_call_def
        split: list.splits option.splits sum.splits)
  ultimately show "still d (snd (db_query q w))"
    using keepsD [OF calm_db_query, of w q] by (simp add: still_def)
qed

lemma still_basic [pres]:
  "keeps (still d) time_Now" "keeps (still d) uuid_NewString" "keeps (still d) (rand_Read n)"
  "keeps (still d) (reconcile_targets ns seen)"
  by (auto simp: keeps_def still_def calm_def time_Now_def uuid_NewString_def rand_Read_def reconcile_targets_triggers split: list.splits)

lemma still_reads [pres]:
  "keeps (still d) (GetUser uid)" "keeps (still d) (GetPlan pid)" "keeps (still d) (ListInboundsByIDs ids)"
  "keeps (still d) (AssignmentTargetsForUser uid)"
  unfolding store_defs by (intro pres)+

lemma still_create_steps [pres]:
  "keeps (still d) (plan_terms inp)" "keeps (still d) (new_user inp l e)" "keeps (still d) (ReconcileForUser uid)"
  unfolding plan_terms_def new_user_def randToken_def ReconcileForUser_def by (intro pres)+

lemma bindE_cases:
  assumes "bindE m f w = (r, w')"
  obtains (err) e where "m w = (Inl e, w')" "r = Inl e" | (ok) a w1 where "m w = (Inr a, w1)" "f a w1 = (r, w')"
  using assms by (auto simp: bindE_def split: prod.splits sum.splits)

lemma stillD: "keeps (still d) m \<Longrightarrow> m w = (r, w') \<Longrightarrow> still d w \<Longrightarrow> still d w'"
  using keepsD [of "still d" m w] by simp

lemma calm_create_tx [pres]: "keeps calm (create_tx u ibs)"
  unfolding create_tx_def store_defs by (intro pres)

lemma create_end_atomic:
  assumes s: "still d w" and run: "bindE (WithTx (create_tx u ibs)) (\<lambda>_. bindE (ReconcileForUser (u_ID u)) (\<lambda>_. GetUser (u_ID u))) w = (r, w')"
  shows "w_db w' = d \<or> (\<exists>now. create_stmt u ibs now d = Inr ((), w_db w'))"
proof -
  have at: "db_at_call w = d" using s by (auto simp: still_def calm_def db_at_call_def split: list.splits)
  from run show ?thesis
  proof (cases rule: bindE_cases)
    case (err e)
    with WithTx_failed [OF err(1)] at show ?thesis by simp
  next
    case (ok x w1)
    have "calm w1" using keepsD [OF calm_WithTx [OF calm_create_tx], of w u ibs] ok(1) s by (simp add: still_def)
    then have s1: "still (w_db w1) w1" by (simp add: still_def)
    have k: "keeps (still (w_db w1)) (bindE (ReconcileForUser (u_ID u)) (\<lambda>_. GetUser (u_ID u)))" by (intro pres)
    have "w_db w' = w_db w1" using stillD [OF k ok(2) s1] by (simp add: still_def)
    with WithTx_committed(1) [OF create_tx_refines ok(1)] at show ?thesis by auto
  qed
qed

lemma create_tail_atomic:
  assumes s: "still d w"
    and run: "bindE (ListInboundsByIDs (ci_InboundIDs inp)) (\<lambda>inbounds.
      if length inbounds \<noteq> length (dedup (ci_InboundIDs inp))
      then raise (Validationf ''one or more inbound_ids do not exist'')
      else bindE (new_user inp l ex) (\<lambda>u. bindE (WithTx (create_tx u inbounds)) (\<lambda>_.
        bindE (ReconcileForUser (u_ID u)) (\<lambda>_. GetUser (u_ID u))))) w = (r, w')"
  shows "w_db w' = d \<or> (\<exists>u inbounds now. create_stmt u inbounds now d = Inr ((), w_db w'))"
  using run
proof (cases rule: bindE_cases)
  case (err e)
  with stillD [OF still_reads(3) err(1) s] show ?thesis by (simp add: still_def)
next
  case (ok ibs w1)
  note s1 = stillD [OF still_reads(3) ok(1) s]
  show ?thesis
  proof (cases "length ibs = length (dedup (ci_InboundIDs inp))")
    case False
    with ok(2) s1 show ?thesis by (simp add: raise_def still_def)
  next
    case True
    with ok(2) have "bindE (new_user inp l ex) (\<lambda>u. bindE (WithTx (create_tx u ibs)) (\<lambda>_.
        bindE (ReconcileForUser (u_ID u)) (\<lambda>_. GetUser (u_ID u)))) w1 = (r, w')" by simp
    then show ?thesis
    proof (cases rule: bindE_cases)
      case (err e)
      with stillD [OF still_create_steps(2) err(1) s1] show ?thesis by (simp add: still_def)
    next
      case (ok u w2)
      from create_end_atomic [OF stillD [OF still_create_steps(2) ok(1) s1] ok(2)] show ?thesis by blast
    qed
  qed
qed




section \<open>Deleting a user\<close>

lemma find_delete_rows: "find P (delete_rows Q rs) = find (\<lambda>r. P r \<and> \<not> Q r) rs"
  by (induction rs) (auto simp: delete_rows_def)

lemma find_cong_pred: "(\<And>r. P r = Q r) \<Longrightarrow> find P rs = find Q rs"
  by (induction rs) auto

definition tombstoned :: "string \<Rightarrow> db \<Rightarrow> db" where
  "tombstoned uid d = d\<lparr>db_user_inbounds := update_rows (\<lambda>r. ui_UserID r = uid)
     (\<lambda>r. r\<lparr>ui_SyncStatus := SyncRemoving\<rparr>) (db_user_inbounds d)\<rparr>"

lemma trigger_nodes_db: "trigger_nodes ns (w\<lparr>w_db := d\<rparr>) = (trigger_nodes ns w)\<lparr>w_db := d\<rparr>"
  by (auto simp: trigger_nodes_def fun_eq_iff intro!: world.equality)

lemma Delete_quiet:
  assumes q: "w_sched w = []"
  shows "UserService_Delete uid w = (if find_user uid (w_db w) = None then Inl ErrNotFound else Inr (),
    (trigger_nodes (nodes_of_user uid (w_db w)) w)\<lparr>w_db := snd (sum.projr (delete_user uid (w_now w) (tombstoned uid (w_db w))))\<rparr>)"
proof -
  have mark: "MarkAssignmentsRemovingForUser uid w = (Inr (), w\<lparr>w_db := tombstoned uid (w_db w)\<rparr>)"
    using q by (simp add: MarkAssignmentsRemovingForUser_def exec_quiet touch_assignments_def tombstoned_def)
  have nodes: "trigger_nodes (distinctNodes (targets_for_user uid (w_db w))) v = trigger_nodes (nodes_of_user uid (w_db w)) v" for v :: "'a world"
    by (rule trigger_nodes_set) (simp add: distinctNodes_def set_dedup_from nodes_of_user_def)
  have del: "DeleteUser uid v = (if find_user uid (w_db v) = None then Inl ErrNotFound else Inr (),
      v\<lparr>w_db := snd (sum.projr (delete_user uid (w_now v) (w_db v)))\<rparr>)" if "w_sched v = []" for v :: "'a world"
    using that by (simp add: DeleteUser_def requireRow_quiet delete_user_def count_user del: count_rows_0)
  have "find_user uid (tombstoned uid (w_db w)) = find_user uid (w_db w)" by (simp add: find_user_def tombstoned_def)
  with q show ?thesis
    by (simp add: UserService_Delete_def quiet mark forEach_Reconcile nodes del trigger_nodes_db)
qed




end
