(* ===== verification/Lifecycle.thy ===== *)
theory Lifecycle
  imports Users_Provisioning Health
begin

text \<open>
  The services and the worker together: what a change made through the API means for the
  accounts on the nodes after the pass it triggers. The node's behaviour is the hypothesis
  \<open>node_contract\<close>, its availability \<open>node_reliable\<close>.
\<close>

section \<open>One pass over an available node\<close>

lemma pass_accounts:
  assumes "node_reliable X" "node_contract X accounts" "wf_db (w_db w)" "w_sched w = []"
    "ensureClient X k w = (Inr (Inr c), w0)" "nodeID = n_ID (a_node (w_heap w k))"
    "\<forall>a \<in> set (desired_for_node nodeID (w_db w)). \<exists>u. buildUser (accountFor a) = Inr u"
  shows "\<exists>w'. reconcile X k w = (Inr (), w') \<and> remote_accounts accounts c w' = (remote_accounts accounts c w
        - account_key ` set (removals_for_node nodeID (w_db w))) \<union> account_key ` set (desired_for_node nodeID (w_db w))"
proof -
  obtain w' where w': "reconcile X k w = (Inr (), w')" "a_client (w_heap w' k) = Some c"
    using reconcile_open [OF assms] by blast
  then have "a_client (w_heap w' k) \<noteq> None" by simp
  from reconcile_converges_accounts [OF assms(2-5) w'(1) this assms(6)] w'(1) show ?thesis by blast
qed

lemma assigned_row:
  assumes "find_assignment uid (ib_ID i) d = Some r" "i \<in> set (db_inbounds d)" "ib_NodeID i = n" "find_user uid d = Some u"
  shows "(ib_Tag i, u_Email u) \<in> account_key ` set (if u_Status u = UserStatusActive \<and> ui_SyncStatus r \<noteq> SyncRemoving
     then desired_for_node n d else removals_for_node n d)"
proof -
  have r: "r \<in> set (db_user_inbounds d)" "ui_UserID r = uid" "ui_InboundID r = ib_ID i"
    using find_SomeD [OF assms(1) [unfolded find_assignment_def]] by (auto simp: is_assignment_def)
  have u: "u \<in> set (db_users d)" "u_ID u = uid" using find_user_in [OF assms(4)] by auto
  have "desired_row r i u \<in> set (if u_Status u = UserStatusActive \<and> ui_SyncStatus r \<noteq> SyncRemoving
     then desired_for_node n d else removals_for_node n d)"
    unfolding desired_for_node_def removals_for_node_def using r u assms(2,3)
    by (auto simp: mem_join_assignments intro!: bexI [of _ r] bexI [of _ i] bexI [of _ u])
  moreover have "account_key (desired_row r i u) = (ib_Tag i, u_Email u)" by (simp add: account_key_def desired_row_def)
  ultimately show ?thesis by force
qed

text \<open>After a pass, the accounts of an inactive user are gone and those of an active one are there.\<close>

lemma pass_serves:
  assumes reliable: "node_reliable X" and contract: "node_contract X accounts" and wf: "wf_db (w_db w)" and q: "w_sched w = []"
    and cl: "ensureClient X k w = (Inr (Inr c), w0)" and n: "nodeID = n_ID (a_node (w_heap w k))"
    and build: "\<forall>a \<in> set (desired_for_node nodeID (w_db w)). \<exists>u. buildUser (accountFor a) = Inr u"
    and row: "find_assignment uid (ib_ID i) (w_db w) = Some r" "i \<in> set (db_inbounds (w_db w))" "ib_NodeID i = nodeID"
    and u: "find_user uid (w_db w) = Some u"
  shows "\<exists>w'. reconcile X k w = (Inr (), w')
    \<and> ((ib_Tag i, u_Email u) \<in> remote_accounts accounts c w' \<longleftrightarrow> u_Status u = UserStatusActive \<and> ui_SyncStatus r \<noteq> SyncRemoving)"
proof -
  obtain w' where run: "reconcile X k w = (Inr (), w')" and acc: "remote_accounts accounts c w' = (remote_accounts accounts c w
        - account_key ` set (removals_for_node nodeID (w_db w))) \<union> account_key ` set (desired_for_node nodeID (w_db w))"
    using pass_accounts [OF reliable contract wf q cl n build] by blast
  have "account_key ` set (desired_for_node nodeID (w_db w)) \<inter> account_key ` set (removals_for_node nodeID (w_db w)) = {}"
    using desired_removals_disjoint [OF wf] by blast
  moreover note assigned_row [OF row u]
  ultimately have "(ib_Tag i, u_Email u) \<in> remote_accounts accounts c w'
      \<longleftrightarrow> u_Status u = UserStatusActive \<and> ui_SyncStatus r \<noteq> SyncRemoving"
    unfolding acc by (cases "u_Status u = UserStatusActive \<and> ui_SyncStatus r \<noteq> SyncRemoving") (simp_all, blast+)
  with run show ?thesis by blast
qed

section \<open>Suspension and resumption take effect\<close>

lemma set_user_assignments:
  "find_assignment k iid (set_user uid f d) = find_assignment k iid d"
  by (simp add: find_assignment_def)

text \<open>C25: Suspending a user takes them off a node. After \<open>Suspend\<close> the actor of every node on which
  the user has an inbound is triggered, and the pass of such an actor over an available
  node ends with the user's account absent.\<close>

theorem suspend_takes_effect:
  assumes reliable: "node_reliable X" and contract: "node_contract X accounts" and wf: "wf_db (w_db w)" and q: "w_sched w = []"
    and u: "find_user uid (w_db w) = Some u" and run: "UserService_Suspend uid w = (res, w1)"
    and row: "find_assignment uid (ib_ID i) (w_db w) = Some r" "i \<in> set (db_inbounds (w_db w))"
    and cl: "ensureClient X k w1 = (Inr (Inr c), w0)" and n: "ib_NodeID i = n_ID (a_node (w_heap w1 k))"
    and build: "\<forall>a \<in> set (desired_for_node (ib_NodeID i) (w_db w1)). \<exists>u. buildUser (accountFor a) = Inr u"
  shows "(\<forall>a. w_actors w (ib_NodeID i) = Some a \<longrightarrow> a_reconcileCh (w_heap w1 a))
    \<and> (\<exists>w'. reconcile X k w1 = (Inr (), w') \<and> (ib_Tag i, u_Email u) \<notin> remote_accounts accounts c w')"
proof -
  let ?f = "with_status UserStatusDisabled (w_now w)"
  have w1: "w1 = put_user uid ?f w" using run u Suspend_quiet [OF q, of uid] by simp
  have wf1: "wf_db (w_db w1)" using suspend.acts_wf [OF wf q run] .
  have u1: "find_user uid (w_db w1) = Some (?f u)" using u by (simp add: w1 find_set_user)
  have row1: "find_assignment uid (ib_ID i) (w_db w1) = Some r" "i \<in> set (db_inbounds (w_db w1))" "ib_NodeID i = ib_NodeID i"
    using row by (simp_all add: w1 set_user_assignments)
  have "ib_NodeID i \<in> set (nodes_of_user uid (w_db w))" using nodes_of_user_assigned [OF row refl u] .
  moreover have "w_sched w1 = []" using q by (simp add: w1)
  ultimately show ?thesis
    using pass_serves [OF reliable contract wf1 _ cl n build row1 u1]
    by (auto simp: w1 put_user_def trigger_nodes_def with_status_def)
qed

text \<open>C26: Resuming a user puts them back. After a successful \<open>Resume\<close> the pass of the actor of a node
  on which the user has an assignment that is not being removed ends with the account present.\<close>

theorem resume_takes_effect:
  assumes reliable: "node_reliable X" and contract: "node_contract X accounts" and wf: "wf_db (w_db w)" and q: "w_sched w = []"
    and u: "find_user uid (w_db w) = Some u" and run: "UserService_Resume uid w = (Inr v, w1)"
    and row: "find_assignment uid (ib_ID i) (w_db w) = Some r" "ui_SyncStatus r \<noteq> SyncRemoving" "i \<in> set (db_inbounds (w_db w))"
    and cl: "ensureClient X k w1 = (Inr (Inr c), w0)" and n: "ib_NodeID i = n_ID (a_node (w_heap w1 k))"
    and build: "\<forall>a \<in> set (desired_for_node (ib_NodeID i) (w_db w1)). \<exists>u. buildUser (accountFor a) = Inr u"
  shows "(\<forall>a. w_actors w (ib_NodeID i) = Some a \<longrightarrow> a_reconcileCh (w_heap w1 a))
    \<and> (\<exists>w'. reconcile X k w1 = (Inr (), w') \<and> (ib_Tag i, u_Email u) \<in> remote_accounts accounts c w')"
proof -
  obtain t w2 where w1: "w1 = put_user uid (with_status UserStatusActive t) w2" and w2: "w2 = clocked u w"
    using run u Resume_quiet [OF q, of uid] by (auto simp: Let_def split: if_splits)
  have wf1: "wf_db (w_db w1)" using resume.acts_wf [OF wf q run] .
  have u1: "find_user uid (w_db w1) = Some (with_status UserStatusActive t u)" using u by (simp add: w1 w2 find_set_user)
  have row1: "find_assignment uid (ib_ID i) (w_db w1) = Some r" "i \<in> set (db_inbounds (w_db w1))" "ib_NodeID i = ib_NodeID i"
    using row by (simp_all add: w1 w2 set_user_assignments)
  have "ib_NodeID i \<in> set (nodes_of_user uid (w_db w))" using nodes_of_user_assigned [OF row(1,3) refl u] .
  moreover have "w_sched w1 = []" using q by (simp add: w1 w2)
  ultimately show ?thesis
    using pass_serves [OF reliable contract wf1 _ cl n build row1 u1] row(2)
    by (auto simp: w1 w2 put_user_def trigger_nodes_def with_status_def)
qed

theorem suspend_takes_effect_witness:
  "\<exists>w'. reconcile toy_api 0 (snd (UserService_Suspend ''u1'' toy_world)) = (Inr (), w')
     \<and> (''vless-in'', ''a@x'') \<notin> set (w_remote w' (target toy_client))"
proof -
  let ?w1 = "snd (UserService_Suspend ''u1'' toy_world)"
  have u: "find_user ''u1'' (w_db toy_world) = Some sample_user" by code_simp
  have row: "find_assignment ''u1'' (ib_ID sample_inbound) (w_db toy_world) = Some (hd (db_user_inbounds sample_db))"
    "sample_inbound \<in> set (db_inbounds (w_db toy_world))" by code_simp+
  have cl: "ensureClient toy_api 0 ?w1 = (Inr (Inr toy_client), snd (ensureClient toy_api 0 ?w1))"
    by (rule run_eqI) code_simp
  have n: "ib_NodeID sample_inbound = n_ID (a_node (w_heap ?w1 0))" by code_simp
  have "list_all (\<lambda>a. \<not> isl (buildUser (accountFor a))) (desired_for_node (ib_NodeID sample_inbound) (w_db ?w1))" by code_simp
  then have build: "\<forall>a \<in> set (desired_for_node (ib_NodeID sample_inbound) (w_db ?w1)). \<exists>u. buildUser (accountFor a) = Inr u"
    unfolding list_all_iff by (metis sum.collapse(2))
  have "(ib_Tag sample_inbound, u_Email sample_user) = (''vless-in'', ''a@x'')" by code_simp
  with suspend_takes_effect [OF toy_reliable toy_contract _ _ u surjective_pairing row cl n build] show ?thesis
    by (simp add: wf_sample_db)
qed

theorem resume_takes_effect_witness:
  "\<exists>w'. reconcile toy_api 0 (snd (UserService_Resume ''u2'' toy_world)) = (Inr (), w')
     \<and> (''trojan-in'', ''b@x'') \<in> set (w_remote w' (target toy_client))"
proof -
  let ?w1 = "snd (UserService_Resume ''u2'' toy_world)"
  have u: "find_user ''u2'' (w_db toy_world) = Some sample_suspended" by code_simp
  have run: "fst (UserService_Resume ''u2'' toy_world) = Inr (with_status UserStatusActive 100 sample_suspended)" by code_simp
  let ?r = "db_user_inbounds sample_db ! 1"
  have row: "find_assignment ''u2'' (ib_ID sample_trojan) (w_db toy_world) = Some ?r" "ui_SyncStatus ?r \<noteq> SyncRemoving"
    "sample_trojan \<in> set (db_inbounds (w_db toy_world))" by code_simp+
  have cl: "ensureClient toy_api 0 ?w1 = (Inr (Inr toy_client), snd (ensureClient toy_api 0 ?w1))"
    by (rule run_eqI) code_simp
  have n: "ib_NodeID sample_trojan = n_ID (a_node (w_heap ?w1 0))" by code_simp
  have "list_all (\<lambda>a. \<not> isl (buildUser (accountFor a))) (desired_for_node (ib_NodeID sample_trojan) (w_db ?w1))" by code_simp
  then have build: "\<forall>a \<in> set (desired_for_node (ib_NodeID sample_trojan) (w_db ?w1)). \<exists>u. buildUser (accountFor a) = Inr u"
    unfolding list_all_iff by (metis sum.collapse(2))
  have "(ib_Tag sample_trojan, u_Email sample_suspended) = (''trojan-in'', ''b@x'')" by code_simp
  with resume_takes_effect [OF toy_reliable toy_contract _ _ u run_eqI [OF run] row cl n build] show ?thesis
    by (simp add: wf_sample_db)
qed

section \<open>Deletion does not reach the nodes\<close>

text \<open>C27: Deleting a user does not take them off the nodes. The rows are gone before the triggered
  pass runs, so the pass no longer knows the account: an account that was on the node when
  \<open>Delete\<close> returned is still there after a complete pass over the available node.\<close>

theorem deleted_account_survives:
  assumes reliable: "node_reliable X" and contract: "node_contract X accounts" and wf: "wf_db (w_db w)" and q: "w_sched w = []"
    and u: "find_user uid (w_db w) = Some u" and run: "UserService_Delete uid w = (res, w1)"
    and cl: "ensureClient X k w1 = (Inr (Inr c), w0)" and n: "nodeID = n_ID (a_node (w_heap w1 k))"
    and build: "\<forall>a \<in> set (desired_for_node nodeID (w_db w1)). \<exists>u. buildUser (accountFor a) = Inr u"
    and acc: "(tag, u_Email u) \<in> remote_accounts accounts c w1"
  shows "\<exists>w'. reconcile X k w1 = (Inr (), w') \<and> (tag, u_Email u) \<in> remote_accounts accounts c w'"
proof -
  have w1: "w_sched w1 = []" "db_users (w_db w1) = delete_rows (\<lambda>r. u_ID r = uid) (db_users (w_db w))"
    using run q by (auto simp: Delete_quiet [OF q] delete_user_def tombstoned_def)
  have wf1: "wf_db (w_db w1)"
    using keepsD [OF preserves_user_service(9), of w uid] run wf q by (simp add: holdsW_def rely_def)
  have "u_Email v \<noteq> u_Email u" if "v \<in> set (db_users (w_db w1))" for v
  proof
    assume "u_Email v = u_Email u"
    then have "v = u" using that w1(2) find_user_in [OF u] by (intro email_unique [OF wf]) auto
    with that w1(2) find_user_in [OF u] show False by auto
  qed
  then have "(tag, u_Email u) \<notin> account_key ` set (removals_for_node nodeID (w_db w1))"
    unfolding removals_for_node_def image_iff Bex_def mem_join_assignments by (auto simp: account_key_def desired_row_def) blast+
  with pass_accounts [OF reliable contract wf1 w1(1) cl n build] acc show ?thesis by blast
qed

theorem deleted_account_survives_witness:
  "\<exists>w'. reconcile toy_api 0 (snd (UserService_Delete ''u2'' toy_world)) = (Inr (), w')
     \<and> (''trojan-in'', ''b@x'') \<in> set (w_remote w' (target toy_client))"
proof -
  let ?w1 = "snd (UserService_Delete ''u2'' toy_world)"
  have u: "find_user ''u2'' (w_db toy_world) = Some sample_suspended" by code_simp
  have cl: "ensureClient toy_api 0 ?w1 = (Inr (Inr toy_client), snd (ensureClient toy_api 0 ?w1))"
    by (rule run_eqI) code_simp
  have "list_all (\<lambda>a. \<not> isl (buildUser (accountFor a))) (desired_for_node (n_ID (a_node (w_heap ?w1 0))) (w_db ?w1))" by code_simp
  then have build: "\<forall>a \<in> set (desired_for_node (n_ID (a_node (w_heap ?w1 0))) (w_db ?w1)). \<exists>u. buildUser (accountFor a) = Inr u"
    unfolding list_all_iff by (metis sum.collapse(2))
  have acc: "(''trojan-in'', u_Email sample_suspended) \<in> set (w_remote ?w1 (target toy_client))" by code_simp
  have "u_Email sample_suspended = ''b@x''" by code_simp
  with deleted_account_survives [OF toy_reliable toy_contract _ _ u surjective_pairing cl refl build acc] show ?thesis
    by (simp add: wf_sample_db)
qed


end
