(* ===== verification/Nodes_Service.thy ===== *)
theory Nodes_Service
  imports Service_Common Convergence
begin

text \<open>
  \<open>internal/service/nodes.go\<close>, \<open>plans.go\<close> and \<open>apikeys.go\<close>: nodes and their inbounds, plans, and
  the keys of the administration API. The node service keeps the worker manager in step:
  a created or changed node gets a new actor, a deleted one loses its actor.
\<close>

section \<open>Nodes\<close>

record node_input =
  ni_Name :: string
  ni_APIAddress :: string
  ni_APIPort :: int
  ni_APITLS :: bool
  ni_APITLSServerName :: string
  ni_APITLSInsecure :: bool
  ni_APICACert :: "string option"
  ni_APIClientCert :: "string option"
  ni_APIClientKey :: "string option"

definition patched :: "'a option \<Rightarrow> 'a \<Rightarrow> 'a" where
  "patched new old = (case new of None \<Rightarrow> old | Some v \<Rightarrow> v)"

definition applyTLSMaterial :: "'x xray_api \<Rightarrow> node_input \<Rightarrow> node \<Rightarrow> error + node" where
  "applyTLSMaterial X inp n =
     (let n' = n\<lparr>n_APICACert := patched (ni_APICACert inp) (n_APICACert n),
        n_APIClientCert := patched (ni_APIClientCert inp) (n_APIClientCert n),
        n_APIClientKey := patched (ni_APIClientKey inp) (n_APIClientKey n)\<rparr> in
      case ValidateTLSMaterial X (n_APICACert n') (n_APIClientCert n') (n_APIClientKey n') of
        Inl e \<Rightarrow> Inl (Validationf (xerr_Error e))
      | Inr _ \<Rightarrow> Inr (n'\<lparr>n_APIHasClientKey := n_APIClientKey n' \<noteq> []\<rparr>))"

definition probe :: "'x xray_api \<Rightarrow> node \<Rightarrow> ('x, NodeStatus \<times> string) io" where
  "probe X n = (case DefaultDial X n of
      Inl e \<Rightarrow> ret (NodeStatusOffline, xerr_Error e)
    | Inr c \<Rightarrow> bindE (callX (Ping X c)) (\<lambda>r. case r of
        Inl e \<Rightarrow> ret (NodeStatusOffline, xerr_Error e)
      | Inr _ \<Rightarrow> ret (NodeStatusOnline, '''')))"

definition fresh_node :: "string \<Rightarrow> node_input \<Rightarrow> node" where
  "fresh_node uid inp = \<lparr>n_ID = uid, n_Name = ni_Name inp, n_APIAddress = ni_APIAddress inp, n_APIPort = ni_APIPort inp,
     n_APITLS = ni_APITLS inp, n_APITLSServerName = ni_APITLSServerName inp, n_APITLSInsecure = ni_APITLSInsecure inp,
     n_APICACert = '''', n_APIClientCert = '''', n_APIClientKey = '''', n_APIHasClientKey = False,
     n_Status = NodeStatusUnknown, n_LastSeenAt = None, n_LastError = '''', n_CreatedAt = 0, n_UpdatedAt = 0\<rparr>"

text \<open>After the insertion: probe, record the result, start the actor, read the row back.\<close>

definition launch_node :: "'x xray_api \<Rightarrow> node \<Rightarrow> ('x, node) io" where
  "launch_node X n = bindE (probe X n) (\<lambda>(status, err).
     bindE (if status = NodeStatusOnline then bindE time_Now (\<lambda>now. ret (Some now)) else ret None) (\<lambda>seen.
     bindE (attempt (SetNodeHealth (n_ID n) status err seen)) (\<lambda>_.
     bindE (StartNode (n\<lparr>n_Status := status, n_LastError := err, n_LastSeenAt := seen\<rparr>)) (\<lambda>_. GetNode (n_ID n)))))"

definition NodeService_Create :: "'x xray_api \<Rightarrow> node_input \<Rightarrow> ('x, node) io" where
  "NodeService_Create X inp =
     (if TrimSpace (ni_Name inp) = [] then raise (Validationf ''name is required'')
      else if ni_APIAddress inp = [] then raise (Validationf ''api_address is required'')
      else if ni_APIPort inp \<le> 0 \<or> 65535 < ni_APIPort inp then raise (Validationf ''api_port must be 1-65535'')
      else bindE uuid_NewString (\<lambda>uid. case applyTLSMaterial X inp (fresh_node uid inp) of
          Inl e \<Rightarrow> raise e
        | Inr n \<Rightarrow> bindE (CreateNode n) (\<lambda>_. launch_node X n)))"

definition patch_node :: "node_input \<Rightarrow> node \<Rightarrow> node" where
  "patch_node inp n = n\<lparr>n_Name := (if ni_Name inp \<noteq> [] then ni_Name inp else n_Name n),
     n_APIAddress := (if ni_APIAddress inp \<noteq> [] then ni_APIAddress inp else n_APIAddress n),
     n_APIPort := (if ni_APIPort inp \<noteq> 0 then ni_APIPort inp else n_APIPort n),
     n_APITLS := ni_APITLS inp, n_APITLSServerName := ni_APITLSServerName inp, n_APITLSInsecure := ni_APITLSInsecure inp\<rparr>"

definition NodeService_Update :: "'x xray_api \<Rightarrow> string \<Rightarrow> node_input \<Rightarrow> ('x, node) io" where
  "NodeService_Update X uid inp = bindE (GetNode uid) (\<lambda>n. case applyTLSMaterial X inp (patch_node inp n) of
      Inl e \<Rightarrow> raise e
    | Inr n' \<Rightarrow> bindE (UpdateNode n') (\<lambda>_. bindE (StartNode n') (\<lambda>_. GetNode uid)))"

definition NodeService_Delete :: "string \<Rightarrow> ('x, unit) io" where
  "NodeService_Delete uid = bindE (StopNode uid) (\<lambda>_. DeleteNode uid)"

definition NodeService_Reconcile :: "string \<Rightarrow> ('x, unit) io" where
  "NodeService_Reconcile uid = bindE (GetNode uid) (\<lambda>_. Reconcile uid)"

definition NodeService_Get :: "string \<Rightarrow> ('x, node) io" where
  "NodeService_Get uid = GetNode uid"

definition NodeService_List :: "('x, node list) io" where
  "NodeService_List = ListNodes"

section \<open>Inbounds\<close>

record inbound_input =
  ii_Tag :: string
  ii_Protocol :: string
  ii_ListenPort :: int
  ii_PublicHost :: string
  ii_PublicPort :: int
  ii_Network :: string
  ii_Security :: string
  ii_WSPath :: string
  ii_HostHeader :: string
  ii_GRPCServiceName :: string
  ii_SNI :: string
  ii_Fingerprint :: string
  ii_RealityPublicKey :: string
  ii_RealityShortID :: string
  ii_Flow :: string
  ii_Method :: string
  ii_XHTTPMode :: string
  ii_Remark :: string

definition xhttp_modes :: "string list" where
  "xhttp_modes = [''auto'', ''packet-up'', ''stream-up'', ''stream-one'']"

definition inbound_validate :: "inbound_input \<Rightarrow> error option" where
  "inbound_validate inp =
     (if ii_Tag inp = [] then Some (Validationf ''tag is required'')
      else if \<not> Protocol_Valid (ii_Protocol inp) then Some (Validationf ''protocol must be vless|vmess|trojan'')
      else if ii_PublicHost inp = [] then Some (Validationf ''public_host is required'')
      else if ii_PublicPort inp \<le> 0 \<or> 65535 < ii_PublicPort inp then Some (Validationf ''public_port must be 1-65535'')
      else if ii_Network inp \<noteq> [] \<and> \<not> Network_Valid (ii_Network inp) then Some (Validationf ''invalid network'')
      else if ii_Security inp \<noteq> [] \<and> \<not> Security_Valid (ii_Security inp) then Some (Validationf ''invalid security'')
      else if ii_Protocol inp = ProtocolShadowsocks \<and> ii_Method inp = []
        then Some (Validationf ''method is required for shadowsocks'')
      else if ii_Protocol inp = ProtocolShadowsocks \<and> ii_Method inp \<notin> set ShadowsocksMethods
        then Some (Validationf ''unsupported shadowsocks method'')
      else if ii_XHTTPMode inp \<noteq> [] \<and> ii_XHTTPMode inp \<notin> set xhttp_modes then Some (Validationf ''invalid xhttp_mode'')
      else None)"

definition inboundFromInput :: "inbound_input \<Rightarrow> inbound" where
  "inboundFromInput inp = \<lparr>ib_ID = '''', ib_NodeID = '''', ib_Tag = ii_Tag inp, ib_Protocol = ii_Protocol inp,
     ib_ListenPort = ii_ListenPort inp, ib_PublicHost = ii_PublicHost inp, ib_PublicPort = ii_PublicPort inp,
     ib_Network = (if ii_Network inp = [] then NetworkTCP else ii_Network inp),
     ib_Security = (if ii_Security inp = [] then SecurityNone else ii_Security inp),
     ib_WSPath = ii_WSPath inp, ib_HostHeader = ii_HostHeader inp, ib_GRPCServiceName = ii_GRPCServiceName inp,
     ib_SNI = ii_SNI inp, ib_Fingerprint = ii_Fingerprint inp, ib_RealityPublicKey = ii_RealityPublicKey inp,
     ib_RealityShortID = ii_RealityShortID inp, ib_Flow = ii_Flow inp, ib_Method = ii_Method inp,
     ib_XHTTPMode = ii_XHTTPMode inp, ib_Remark = ii_Remark inp, ib_CreatedAt = 0, ib_UpdatedAt = 0\<rparr>"

definition NodeService_CreateInbound :: "string \<Rightarrow> inbound_input \<Rightarrow> ('x, inbound) io" where
  "NodeService_CreateInbound nodeID inp = bindE (GetNode nodeID) (\<lambda>_. case inbound_validate inp of
      Some e \<Rightarrow> raise e
    | None \<Rightarrow> bindE uuid_NewString (\<lambda>uid.
        let ib = (inboundFromInput inp)\<lparr>ib_ID := uid, ib_NodeID := nodeID\<rparr> in
        bindE (CreateInbound ib) (\<lambda>_. GetInbound (ib_ID ib))))"

definition NodeService_UpdateInbound :: "string \<Rightarrow> inbound_input \<Rightarrow> ('x, inbound) io" where
  "NodeService_UpdateInbound uid inp = bindE (GetInbound uid) (\<lambda>existing. case inbound_validate inp of
      Some e \<Rightarrow> raise e
    | None \<Rightarrow> (let ib = (inboundFromInput inp)\<lparr>ib_ID := ib_ID existing, ib_NodeID := ib_NodeID existing\<rparr> in
        bindE (UpdateInbound ib) (\<lambda>_. bindE (Reconcile (ib_NodeID existing)) (\<lambda>_. GetInbound uid))))"

definition NodeService_DeleteInbound :: "string \<Rightarrow> ('x, unit) io" where
  "NodeService_DeleteInbound uid = DeleteInbound uid"

definition NodeService_GetInbound :: "string \<Rightarrow> ('x, inbound) io" where
  "NodeService_GetInbound uid = GetInbound uid"

definition NodeService_ListInbounds :: "string \<Rightarrow> ('x, inbound list) io" where
  "NodeService_ListInbounds nodeID = ListInboundsByNode nodeID"

section \<open>Plans\<close>

record plan_input =
  pi_Name :: string
  pi_DataLimitBytes :: "int64 option"
  pi_DurationDays :: "int option"

definition PlanService_Create :: "plan_input \<Rightarrow> ('x, plan) io" where
  "PlanService_Create inp =
     (if TrimSpace (pi_Name inp) = [] then raise (Validationf ''name is required'')
      else if (case pi_DataLimitBytes inp of None \<Rightarrow> False | Some l \<Rightarrow> sint l < 0)
        then raise (Validationf ''data_limit_bytes must be >= 0'')
      else if (case pi_DurationDays inp of None \<Rightarrow> False | Some n \<Rightarrow> n < 0)
        then raise (Validationf ''duration_days must be >= 0'')
      else bindE uuid_NewString (\<lambda>uid.
        bindE (CreatePlan \<lparr>p_ID = uid, p_Name = pi_Name inp, p_DataLimitBytes = pi_DataLimitBytes inp,
          p_DurationDays = pi_DurationDays inp, p_CreatedAt = 0, p_UpdatedAt = 0\<rparr>) (\<lambda>_. GetPlan uid)))"

definition PlanService_Update :: "string \<Rightarrow> plan_input \<Rightarrow> ('x, plan) io" where
  "PlanService_Update uid inp = bindE (GetPlan uid) (\<lambda>p.
     bindE (UpdatePlan (p\<lparr>p_Name := (if pi_Name inp \<noteq> [] then pi_Name inp else p_Name p),
       p_DataLimitBytes := pi_DataLimitBytes inp, p_DurationDays := pi_DurationDays inp\<rparr>)) (\<lambda>_. GetPlan uid))"

definition PlanService_Get :: "string \<Rightarrow> ('x, plan) io" where
  "PlanService_Get uid = GetPlan uid"

definition PlanService_List :: "('x, plan list) io" where
  "PlanService_List = ListPlans"

definition PlanService_Delete :: "string \<Rightarrow> ('x, unit) io" where
  "PlanService_Delete uid = DeletePlan uid"

section \<open>API keys\<close>

record created_key =
  ck_Key :: api_key
  ck_Plaintext :: string

definition APIKeyService_Create :: "string \<Rightarrow> ('x, created_key) io" where
  "APIKeyService_Create name =
     (if TrimSpace name = [] then raise (Validationf ''name is required'')
      else bindE (randToken 24) (\<lambda>token. let plaintext = ''xapi_'' @ token in
        bindE uuid_NewString (\<lambda>uid.
        let k = \<lparr>k_ID = uid, k_Name = name, k_KeyHash = HashKey plaintext, k_CreatedAt = 0,
          k_LastUsedAt = None, k_RevokedAt = None\<rparr> in
        bindE (CreateAPIKey k) (\<lambda>_. ret \<lparr>ck_Key = k, ck_Plaintext = plaintext\<rparr>))))"

definition APIKeyService_List :: "('x, api_key list) io" where
  "APIKeyService_List = ListAPIKeys"

definition APIKeyService_Revoke :: "string \<Rightarrow> ('x, unit) io" where
  "APIKeyService_Revoke uid = RevokeAPIKey uid"

definition APIKeyService_Verify :: "string \<Rightarrow> string \<Rightarrow> ('x, bool) io" where
  "APIKeyService_Verify plaintext bootstrap =
     (if plaintext = [] then ret False
      else if bootstrap \<noteq> [] \<and> subtleEqual plaintext bootstrap then ret True
      else bindE (attempt (FindAPIKeyByHash (HashKey plaintext))) (\<lambda>r. ret (\<not> isl r)))"

section \<open>The schema's constraints are kept\<close>

lemma preserves_probe [pres]: "preserves I (probe X n)"
  unfolding probe_def by (intro pres)

lemma preserves_launch_node [pres]: "preserves wf_db (launch_node X n)"
  unfolding launch_node_def by (intro pres)

lemma preserves_node_service [pres]:
  "preserves wf_db (NodeService_Create X ni)" "preserves wf_db (NodeService_Update X uid ni)"
  "preserves wf_db (NodeService_Delete uid)" "preserves wf_db (NodeService_Reconcile uid)"
  "preserves wf_db (NodeService_CreateInbound uid ii)" "preserves wf_db (NodeService_UpdateInbound uid ii)"
  "preserves wf_db (NodeService_DeleteInbound uid)"
  unfolding NodeService_Create_def NodeService_Update_def NodeService_Delete_def NodeService_Reconcile_def
    NodeService_CreateInbound_def NodeService_UpdateInbound_def NodeService_DeleteInbound_def Let_def
  by (intro pres)+

lemma preserves_plan_service [pres]:
  "preserves wf_db (PlanService_Create pinp)" "preserves wf_db (PlanService_Update uid pinp)" "preserves wf_db (PlanService_Delete uid)"
  unfolding PlanService_Create_def PlanService_Update_def PlanService_Delete_def by (intro pres)+

lemma preserves_key_service [pres]:
  "preserves wf_db (APIKeyService_Create name)" "preserves wf_db (APIKeyService_Revoke uid)"
  "preserves wf_db (APIKeyService_Verify p b)"
  unfolding APIKeyService_Create_def APIKeyService_Revoke_def APIKeyService_Verify_def Let_def by (intro pres)+

section \<open>Validated inbounds\<close>

definition valid_inbound :: "inbound \<Rightarrow> bool" where
  "valid_inbound i \<longleftrightarrow> ib_Tag i \<noteq> [] \<and> Protocol_Valid (ib_Protocol i) \<and> ib_PublicHost i \<noteq> []
     \<and> 1 \<le> ib_PublicPort i \<and> ib_PublicPort i \<le> 65535 \<and> Network_Valid (ib_Network i) \<and> Security_Valid (ib_Security i)
     \<and> (ib_Protocol i = ProtocolShadowsocks \<longrightarrow> ib_Method i \<in> set ShadowsocksMethods)"

lemma validated_inbound:
  "inbound_validate inp = None \<Longrightarrow> valid_inbound ((inboundFromInput inp)\<lparr>ib_ID := a, ib_NodeID := b\<rparr>)"
  by (auto simp: inbound_validate_def inboundFromInput_def valid_inbound_def Network_Valid_def Security_Valid_def
      NetworkTCP_def SecurityNone_def split: if_splits)

lemma valid_inbound_builds:
  assumes "valid_inbound i" shows "\<exists>pu. buildUser (accountFor (desired_row r i u)) = Inr pu"
  using assms
  by (auto simp: valid_inbound_def Protocol_Valid_def buildUser_def accountFor_def desired_row_def ShadowsocksMethods_def
      shadowsocksCipher_def ProtocolVLESS_def ProtocolVMess_def ProtocolTrojan_def ProtocolShadowsocks_def Let_def)

lemma find_new: "k \<notin> f ` set xs \<Longrightarrow> f x = k \<Longrightarrow> find (\<lambda>y. f y = k) (xs @ [x]) = Some x"
  by (induction xs) auto

lemma new_inbound_row_fields [simp]: "ib_ID (new_inbound_row now i) = ib_ID i"
  by (simp add: new_inbound_row_def)

lemma CreateInbound_quiet:
  assumes "w_sched w = []" and "find_node nodeID (w_db w) = Some n" and "inbound_validate inp = None"
  shows "let uid = w_uuids w (w_uuid_pos w); w1 = w\<lparr>w_uuid_pos := Suc (w_uuid_pos w)\<rparr>;
      ib = (inboundFromInput inp)\<lparr>ib_ID := uid, ib_NodeID := nodeID\<rparr> in
    NodeService_CreateInbound nodeID inp w = (case insert_inbound ib (w_now w) (w_db w) of
       Inl e \<Rightarrow> (Inl (mapErr e), w1)
     | Inr (_, d) \<Rightarrow> (Inr (new_inbound_row (w_now w) ib), w1\<lparr>w_db := d\<rparr>))"
  using assms
  by (auto simp: NodeService_CreateInbound_def quiet CreateInbound_def exec_quiet uuid_NewString_def Let_def
      find_inbound_def insert_inbound_def find_new split: option.splits if_splits)

definition sample_inbound_input :: inbound_input where
  "sample_inbound_input = \<lparr>ii_Tag = ''ss'', ii_Protocol = ProtocolShadowsocks, ii_ListenPort = 8388, ii_PublicHost = ''h'',
     ii_PublicPort = 8388, ii_Network = '''', ii_Security = '''', ii_WSPath = '''', ii_HostHeader = '''', ii_GRPCServiceName = '''',
     ii_SNI = '''', ii_Fingerprint = '''', ii_RealityPublicKey = '''', ii_RealityShortID = '''', ii_Flow = '''',
     ii_Method = ''aes-128-gcm'', ii_XHTTPMode = '''', ii_Remark = ''''\<rparr>"

text \<open>What \<open>CreateInbound\<close> returns for a node that exists: an input that \<open>validate\<close> rejects is
  answered with its error and nothing is written; an accepted one is stored under a new id
  with the defaults filled in, and every account of that inbound can be encoded for the
  node's API, so no reconcile pass fails on it.\<close>

lemma CreateInbound_valid:
  assumes q: "w_sched w = []" and run: "NodeService_CreateInbound nodeID inp w = (res, w')"
  shows "case res of
      Inl e \<Rightarrow> w_db w' = w_db w \<and> (inbound_validate inp \<noteq> None \<and> find_node nodeID (w_db w) \<noteq> None \<longrightarrow> inbound_validate inp = Some e)
    | Inr ib \<Rightarrow> ib \<in> set (db_inbounds (w_db w')) \<and> ib_NodeID ib = nodeID \<and> ib_Tag ib = ii_Tag inp
        \<and> ib_ID ib \<notin> ib_ID ` set (db_inbounds (w_db w)) \<and> valid_inbound ib
        \<and> (\<forall>r u. \<exists>pu. buildUser (accountFor (desired_row r ib u)) = Inr pu)"
proof (cases "find_node nodeID (w_db w) = None \<or> inbound_validate inp \<noteq> None")
  case True
  with q run show ?thesis by (auto simp: NodeService_CreateInbound_def quiet split: option.splits)
next
  case False
  then obtain n where "find_node nodeID (w_db w) = Some n" and v: "inbound_validate inp = None" by auto
  note spec = CreateInbound_quiet [OF q this, unfolded Let_def run]
  show ?thesis
  proof (cases res)
    case (Inl e)
    with spec v show ?thesis by (auto split: sum.splits prod.splits)
  next
    case (Inr ib)
    let ?ib = "(inboundFromInput inp)\<lparr>ib_ID := w_uuids w (w_uuid_pos w), ib_NodeID := nodeID\<rparr>"
    from spec Inr obtain d where ins: "insert_inbound ?ib (w_now w) (w_db w) = Inr ((), d)"
      and ib: "ib = new_inbound_row (w_now w) ?ib" and d: "w_db w' = d" by (auto split: sum.splits prod.splits)
    from ins have "ib \<in> set (db_inbounds (w_db w'))" and "ib_ID ib \<notin> ib_ID ` set (db_inbounds (w_db w))"
      unfolding d ib by (auto simp: insert_inbound_def split: if_splits)
    moreover have "valid_inbound ib"
      using validated_inbound [OF v] by (simp add: ib valid_inbound_def new_inbound_row_def)
    ultimately show ?thesis
      by (simp add: Inr valid_inbound_builds) (simp add: ib new_inbound_row_def inboundFromInput_def)
  qed
qed


section \<open>Creating a node\<close>

text \<open>Whether the node behind the connection settings of \<open>n\<close> answers the probe.\<close>

definition answers :: "'x xray_api \<Rightarrow> node \<Rightarrow> 'x world \<Rightarrow> bool" where
  "answers X n w = (case DefaultDial X n of Inl _ \<Rightarrow> False | Inr c \<Rightarrow> \<not> isl (fst (Ping X c w)))"

lemma probe_quiet:
  "\<exists>err w1. probe X n w = (Inr (if answers X n w then NodeStatusOnline else NodeStatusOffline, err), w1) \<and>
     w_db w1 = w_db w \<and> w_sched w1 = w_sched w \<and> w_heap w1 = w_heap w \<and> w_actors w1 = w_actors w
     \<and> w_now w1 = w_now w \<and> w_next w1 = w_next w"
proof (cases "DefaultDial X n")
  case (Inl e)
  then show ?thesis by (simp add: probe_def answers_def ret_def)
next
  case (Inr c)
  obtain r w1 where p: "Ping X c w = (r, w1)" by force
  then have "w_db w1 = w_db w \<and> w_sched w1 = w_sched w \<and> w_heap w1 = w_heap w \<and> w_actors w1 = w_actors w
     \<and> w_now w1 = w_now w \<and> w_next w1 = w_next w"
    by (auto simp: Ping_def dest: remote_call_keeps split: prod.splits sum.splits)
  with p Inr show ?thesis
    by (cases r) (auto simp: probe_def answers_def bindE_def callX_def ret_def)
qed

lemma StartNode_result:
  "\<exists>h. StartNode n w = (Inr (), w\<lparr>w_heap := h(w_next w := newNodeActor n),
     w_actors := (w_actors w)(n_ID n \<mapsto> w_next w), w_next := Suc (w_next w)\<rparr>) \<and>
     h = (case w_actors w (n_ID n) of None \<Rightarrow> w_heap w
          | Some k \<Rightarrow> (w_heap w)(k := (w_heap w k)\<lparr>a_stopCh := True\<rparr>))"
  by (cases "w_actors w (n_ID n)")
    (auto simp: StartNode_def bindE_def getW_def actor_stop_def updA_def modifyW_def new_actor_def ret_def)

definition health_row :: "NodeStatus \<Rightarrow> string \<Rightarrow> time option \<Rightarrow> time \<Rightarrow> node \<Rightarrow> node" where
  "health_row st err seen now r = r\<lparr>n_Status := st, n_LastError := err,
     n_LastSeenAt := (case seen of None \<Rightarrow> n_LastSeenAt r | Some t \<Rightarrow> Some t), n_UpdatedAt := now\<rparr>"

lemma SetNodeHealth_appended:
  assumes "w_sched w = []" and "w_db w = d\<lparr>db_nodes := ns @ [r]\<rparr>" and "n_ID r \<notin> n_ID ` set ns"
  shows "attempt (SetNodeHealth (n_ID r) st err seen) w =
     (Inr (Inr ()), w\<lparr>w_db := d\<lparr>db_nodes := ns @ [health_row st err seen (w_now w) r]\<rparr>\<rparr>)"
proof -
  have "update_rows (\<lambda>s. n_ID s = n_ID r) f ns = ns" for f :: "node \<Rightarrow> node"
    using assms(3) by (induction ns) (auto simp: update_rows_def)
  with assms show ?thesis
    by (simp add: attempt_def SetNodeHealth_def requireRow_quiet set_node_health_def update_rows_def health_row_def
        count_rows_def)
qed


lemma tick_next [simp]: "w_next (tick w) = w_next w"
  by (simp add: tick_def time_Now_def split: list.splits)

lemma launch_node_quiet:
  assumes q: "w_sched w = []" and d: "w_db w = d\<lparr>db_nodes := ns @ [r]\<rparr>" and new: "n_ID r \<notin> n_ID ` set ns"
    and n: "n_ID n = n_ID r"
  shows "\<exists>err seen now r' w'. launch_node X n w = (Inr (scanNode r'), w') \<and>
     r' = health_row (if answers X n w then NodeStatusOnline else NodeStatusOffline) err seen now r \<and>
     (seen \<noteq> None \<longleftrightarrow> answers X n w) \<and> w_db w' = d\<lparr>db_nodes := ns @ [r']\<rparr> \<and>
     w_actors w' = (w_actors w)(n_ID n \<mapsto> w_next w) \<and>
     w_heap w' (w_next w) = newNodeActor (n\<lparr>n_Status := n_Status r', n_LastError := err, n_LastSeenAt := seen\<rparr>)"
proof -
  let ?st = "if answers X n w then NodeStatusOnline else NodeStatusOffline"
  obtain err w1 where p: "probe X n w = (Inr (?st, err), w1)" and w1: "w_db w1 = w_db w" "w_sched w1 = []"
      "w_actors w1 = w_actors w" "w_next w1 = w_next w"
    using probe_quiet [of X n w] q by auto
  obtain seen w2 where t: "(if ?st = NodeStatusOnline then bindE time_Now (\<lambda>now. ret (Some now)) else ret None) w1 = (Inr seen, w2)"
    and seen: "seen \<noteq> None \<longleftrightarrow> answers X n w" and w2: "w_db w2 = w_db w" "w_sched w2 = []"
      "w_actors w2 = w_actors w" "w_next w2 = w_next w"
    using w1 by (cases "answers X n w") (auto simp: quiet)
  let ?r = "health_row ?st err seen (w_now w2) r" and ?n = "n\<lparr>n_Status := ?st, n_LastError := err, n_LastSeenAt := seen\<rparr>"
  let ?w3 = "w2\<lparr>w_db := d\<lparr>db_nodes := ns @ [?r]\<rparr>\<rparr>"
  have h: "attempt (SetNodeHealth (n_ID n) ?st err seen) w2 = (Inr (Inr ()), ?w3)"
    unfolding n by (rule SetNodeHealth_appended) (use w2 d new in auto)
  obtain h' where s: "StartNode ?n ?w3 = (Inr (), ?w3\<lparr>w_heap := h'(w_next w := newNodeActor ?n),
     w_actors := (w_actors w)(n_ID n \<mapsto> w_next w), w_next := Suc (w_next w)\<rparr>)"
    using StartNode_result [of ?n ?w3] w2 by auto
  have g: "find_node (n_ID n) (d\<lparr>db_nodes := ns @ [?r]\<rparr>) = Some ?r"
    using new n by (simp add: find_node_def find_new health_row_def)
  have "n_Status ?r = ?st" by (simp add: health_row_def)
  with p t h s g seen show ?thesis
    by (intro exI [of _ err] exI [of _ seen] exI [of _ "w_now w2"] exI [of _ ?r])
      (simp add: launch_node_def bindE_def w2(2) GetNode_quiet)
qed


lemma applyTLSMaterial_keeps:
  "applyTLSMaterial X inp n = Inr m \<Longrightarrow> \<exists>ca cert key. m = n\<lparr>n_APICACert := ca, n_APIClientCert := cert, n_APIClientKey := key,
     n_APIHasClientKey := key \<noteq> []\<rparr> \<and> ValidateTLSMaterial X ca cert key = Inr ()"
  by (auto simp: applyTLSMaterial_def Let_def split: sum.splits)

definition sample_node_input :: node_input where
  "sample_node_input = \<lparr>ni_Name = ''ams'', ni_APIAddress = ''10.0.0.2'', ni_APIPort = 10085, ni_APITLS = False,
     ni_APITLSServerName = '''', ni_APITLSInsecure = False, ni_APICACert = None, ni_APIClientCert = None, ni_APIClientKey = None\<rparr>"

text \<open>C28: \<open>NodeService.Create\<close> either fails without any effect on the database and the manager, or
  stores one new row with the settings of the request, whose TLS material is valid and whose
  status tells whether the node answered the probe, and registers a fresh actor that
  connects with the same settings; it never fails merely because the node is unreachable.\<close>

theorem NodeService_Create_registers:
  assumes q: "w_sched w = []" and run: "NodeService_Create X inp w = (res, w')"
  shows "case res of
      Inl e \<Rightarrow> w_db w' = w_db w \<and> w_actors w' = w_actors w \<and> w_heap w' = w_heap w
    | Inr n \<Rightarrow> n_Name n = ni_Name inp \<and> n_APIAddress n = ni_APIAddress inp \<and> n_APIPort n = ni_APIPort inp \<and> 1 \<le> n_APIPort n \<and> n_APIPort n \<le> 65535
        \<and> ValidateTLSMaterial X (n_APICACert n) (n_APIClientCert n) (n_APIClientKey n) = Inr ()
        \<and> n_Status n = (if answers X n w then NodeStatusOnline else NodeStatusOffline)
        \<and> (\<exists>r. w_db w' = (w_db w)\<lparr>db_nodes := db_nodes (w_db w) @ [r]\<rparr> \<and> n = scanNode r)
        \<and> n_ID n \<notin> n_ID ` set (db_nodes (w_db w)) \<and> n_Name n \<notin> n_Name ` set (db_nodes (w_db w))
        \<and> w_actors w' = (w_actors w)(n_ID n \<mapsto> w_next w)
        \<and> DefaultDial X (a_node (w_heap w' (w_next w))) = DefaultDial X n"
proof -
  let ?uid = "w_uuids w (w_uuid_pos w)" and ?w1 = "w\<lparr>w_uuid_pos := Suc (w_uuid_pos w)\<rparr>"
  note def = NodeService_Create_def bindE_def uuid_NewString_def raise_def CreateNode_def exec_quiet q insert_node_def
  show ?thesis
  proof (cases "TrimSpace (ni_Name inp) \<noteq> [] \<and> ni_APIAddress inp \<noteq> [] \<and> 0 < ni_APIPort inp \<and> ni_APIPort inp \<le> 65535
      \<and> (\<exists>n. applyTLSMaterial X inp (fresh_node ?uid inp) = Inr n \<and> (\<exists>d. insert_node n (w_now w) (w_db w) = Inr d))")
    case False
    with run show ?thesis by (auto simp: def split: sum.splits if_splits option.splits prod.splits)
  next
    case True
    then obtain n d where tls: "applyTLSMaterial X inp (fresh_node ?uid inp) = Inr n"
      and ins: "insert_node n (w_now w) (w_db w) = Inr ((), d)" by auto
    let ?r = "new_node_row (w_now w) n"
    have d: "d = (w_db w)\<lparr>db_nodes := db_nodes (w_db w) @ [?r]\<rparr>"
      and new: "n_ID n \<notin> n_ID ` set (db_nodes (w_db w))" "n_Name n \<notin> n_Name ` set (db_nodes (w_db w))"
      using ins by (auto simp: insert_node_def split: if_splits)
    have r: "n_ID ?r = n_ID n" by (simp add: new_node_row_def)
    define w2 where "w2 = ?w1\<lparr>w_db := d\<rparr>"
    have w2: "w_sched w2 = []" "w_db w2 = (w_db w)\<lparr>db_nodes := db_nodes (w_db w) @ [?r]\<rparr>" "w_actors w2 = w_actors w"
        "w_next w2 = w_next w" "answers X n w2 = answers X n w"
      unfolding d by (auto simp: w2_def q d answers_def Ping_def remote_call_def split: sum.splits prod.splits)
    have eq: "launch_node X n w2 = (res, w')"
      using True tls ins q run
      by (simp add: NodeService_Create_def bindE_def uuid_NewString_def CreateNode_def exec_quiet w2_def)
    note launch_node_quiet [OF w2(1,2) new(1) [folded r] r [symmetric], where X = X, unfolded w2(3-5) eq prod.inject]
    then obtain err seen now r' where l: "res = Inr (scanNode r')"
      "r' = health_row (if answers X n w then NodeStatusOnline else NodeStatusOffline) err seen now ?r"
      "w_db w' = (w_db w)\<lparr>db_nodes := db_nodes (w_db w) @ [r']\<rparr>" "w_actors w' = (w_actors w)(n_ID n \<mapsto> w_next w)"
      "w_heap w' (w_next w) = newNodeActor (n\<lparr>n_Status := n_Status r', n_LastError := err, n_LastSeenAt := seen\<rparr>)"
      by blast
    have same: "DefaultDial X (scanNode r') = DefaultDial X n" "n_ID (scanNode r') = n_ID n" "n_Name (scanNode r') = n_Name n"
        "n_APIAddress (scanNode r') = n_APIAddress n" "n_APIPort (scanNode r') = n_APIPort n" "n_APICACert (scanNode r') = n_APICACert n"
        "n_APIClientCert (scanNode r') = n_APIClientCert n" "n_APIClientKey (scanNode r') = n_APIClientKey n"
        "n_Status (scanNode r') = (if answers X n w then NodeStatusOnline else NodeStatusOffline)"
      by (simp_all add: l(2) scanNode_def health_row_def new_node_row_def DefaultDial_def)
    have "answers X (scanNode r') w = answers X n w" by (simp add: answers_def same(1))
    moreover have "DefaultDial X (a_node (w_heap w' (w_next w))) = DefaultDial X n"
      by (simp add: l(5) newNodeActor_def DefaultDial_def)
    moreover have "n_Name n = ni_Name inp \<and> n_APIAddress n = ni_APIAddress inp \<and> n_APIPort n = ni_APIPort inp
        \<and> ValidateTLSMaterial X (n_APICACert n) (n_APIClientCert n) (n_APIClientKey n) = Inr ()"
      using applyTLSMaterial_keeps [OF tls] by (auto simp: fresh_node_def)
    ultimately show ?thesis using True new by (auto simp: same l(1,3,4))
  qed
qed

theorem NodeService_Create_registers_witness:
  "\<exists>n w'. NodeService_Create toy_api sample_node_input toy_world = (Inr n, w') \<and> n_Status n = NodeStatusOnline
     \<and> w_actors w' (n_ID n) = Some (w_next toy_world)"
proof -
  let ?r = "NodeService_Create toy_api sample_node_input toy_world"
  have ok: "\<not> isl (fst ?r)" and st: "n_Status (projr (fst ?r)) = NodeStatusOnline" by code_simp+
  then have run: "?r = (Inr (projr (fst ?r)), snd ?r)" by (simp add: prod_eq_iff)
  have "w_sched toy_world = []" by code_simp
  from NodeService_Create_registers [OF this run]
  have "w_actors (snd ?r) (n_ID (projr (fst ?r))) = Some (w_next toy_world)" by simp
  with run st show ?thesis by blast
qed


section \<open>The life of an API key\<close>

lemma Verify_quiet:
  assumes "w_sched w = []"
  shows "fst (APIKeyService_Verify p b w) = Inr (p \<noteq> [] \<and> (b = p \<or> (\<exists>k \<in> set (db_api_keys (w_db w)). live_key (HashKey p) k)))"
proof -
  have "find P ks = None \<longleftrightarrow> (\<forall>k \<in> set ks. \<not> P k)" for P :: "api_key \<Rightarrow> bool" and ks
    by (auto simp: find_None_iff)
  with assms show ?thesis
    by (auto simp: APIKeyService_Verify_def quiet subtleEqual_iff attempt_def FindAPIKeyByHash_def exec_quiet touch_api_key_def
        find_Some_iff split: option.splits)
qed

lemma Revoke_quiet:
  assumes "w_sched w = []"
  shows "APIKeyService_Revoke uid w = (let P = (\<lambda>k. k_ID k = uid \<and> k_RevokedAt k = None) in
     (if count_rows P (db_api_keys (w_db w)) = 0 then Inl ErrNotFound else Inr (),
      w\<lparr>w_db := (w_db w)\<lparr>db_api_keys := update_rows P (\<lambda>k. k\<lparr>k_RevokedAt := Some (w_now w)\<rparr>) (db_api_keys (w_db w))\<rparr>\<rparr>))"
  using assms by (simp add: APIKeyService_Revoke_def RevokeAPIKey_def requireRow_quiet revoke_api_key_def Let_def)

lemma APIKeyService_Create_quiet:
  assumes q: "w_sched w = []" and run: "APIKeyService_Create name w = (Inr ck, w1)"
  shows "w_sched w1 = [] \<and> ck_Plaintext ck \<noteq> [] \<and> k_KeyHash (ck_Key ck) = HashKey (ck_Plaintext ck) \<and> k_Name (ck_Key ck) = name
    \<and> HashKey (ck_Plaintext ck) \<notin> k_KeyHash ` set (db_api_keys (w_db w)) \<and> k_ID (ck_Key ck) \<notin> k_ID ` set (db_api_keys (w_db w))
    \<and> w_db w1 = (w_db w)\<lparr>db_api_keys := db_api_keys (w_db w) @ [new_key_row (w_now w) (ck_Key ck)]\<rparr>"
  using assms
  by (auto simp: APIKeyService_Create_def quiet randToken_def rand_Read_def uuid_NewString_def Let_def CreateAPIKey_def
      exec_quiet insert_api_key_def split: if_splits sum.splits prod.splits)

text \<open>C29: The key that \<open>Create\<close> returns is accepted from then on although only its hash is
  stored; it can be revoked, and after that it is refused, unless it happens to be the
  bootstrap key; the empty string is never accepted, not even with an empty bootstrap key.\<close>

theorem api_key_life_cycle:
  assumes "w_sched w = []" and "APIKeyService_Create name w = (Inr ck, w1)"
  shows "fst (APIKeyService_Verify (ck_Plaintext ck) b w1) = Inr True \<and>
    (\<exists>w2. APIKeyService_Revoke (k_ID (ck_Key ck)) w1 = (Inr (), w2) \<and>
           fst (APIKeyService_Verify (ck_Plaintext ck) b w2) = Inr (b = ck_Plaintext ck) \<and>
           fst (APIKeyService_Verify [] b w2) = Inr False)"
proof (rule conjI)
  note c = APIKeyService_Create_quiet [OF assms]
  let ?P = "\<lambda>k. k_ID k = k_ID (ck_Key ck) \<and> k_RevokedAt k = None"
  have live: "live_key (HashKey (ck_Plaintext ck)) (new_key_row (w_now w) (ck_Key ck))" "?P (new_key_row (w_now w) (ck_Key ck))"
    using c by (simp_all add: live_key_def new_key_row_def)
  with c show "fst (APIKeyService_Verify (ck_Plaintext ck) b w1) = Inr True"
    by (simp add: Verify_quiet)
  have "count_rows ?P (db_api_keys (w_db w1)) \<noteq> 0" using c live by (simp add: count_rows_def)
  moreover have "\<not> (\<exists>k \<in> set (update_rows ?P (\<lambda>k. k\<lparr>k_RevokedAt := Some t\<rparr>) (db_api_keys (w_db w1))). live_key (HashKey (ck_Plaintext ck)) k)" for t
    using c by (auto simp: update_rows_def live_key_def new_key_row_def image_iff)
  ultimately show "\<exists>w2. APIKeyService_Revoke (k_ID (ck_Key ck)) w1 = (Inr (), w2) \<and>
           fst (APIKeyService_Verify (ck_Plaintext ck) b w2) = Inr (b = ck_Plaintext ck) \<and>
           fst (APIKeyService_Verify [] b w2) = Inr False"
    using c by (auto simp: Revoke_quiet Verify_quiet)
qed

theorem api_key_life_cycle_witness:
  "\<exists>ck w1. APIKeyService_Create ''ci'' (sample_world (\<lambda>_. ())) = (Inr ck, w1) \<and>
     fst (APIKeyService_Verify (ck_Plaintext ck) [] w1) = Inr True"
proof -
  let ?r = "APIKeyService_Create ''ci'' (sample_world (\<lambda>_. ()))"
  have "TrimSpace ''ci'' = ''ci''" by code_simp
  then have "\<not> isl (fst ?r)"
    by (simp add: APIKeyService_Create_def quiet randToken_def rand_Read_def uuid_NewString_def Let_def CreateAPIKey_def
        exec_quiet insert_api_key_def sample_world_def sample_db_def)
  then have run: "?r = (Inr (projr (fst ?r)), snd ?r)" by (simp add: prod_eq_iff)
  have "w_sched (sample_world (\<lambda>_. ())) = []" by code_simp
  from api_key_life_cycle [OF this run] run show ?thesis by blast
qed

end
