(* ===== verification/Invariants.thy ===== *)
theory Invariants
  imports Users_Service Nodes_Service
begin

text \<open>
  Invariants of the tables, once for the whole program: a predicate that every SQL statement of
  the store keeps is kept by every service operation and every turn of a worker, under any
  interference that keeps it. The locale's laws are about single statements; its lemmas are
  about the operations. It is interpreted for the schema's constraints, for the validity of
  the stored inbounds and for the record of webhook events.
\<close>

section \<open>From statements to operations\<close>

locale store_invariant =
  fixes I :: "db \<Rightarrow> bool" and ok :: "inbound \<Rightarrow> bool"
  assumes validated: "\<And>inp a b. inbound_validate inp = None \<Longrightarrow> ok ((inboundFromInput inp)\<lparr>ib_ID := a, ib_NodeID := b\<rparr>)"
    and node_stmts:
      "\<And>n t d a d'. I d \<Longrightarrow> insert_node n t d = Inr (a, d') \<Longrightarrow> I d'"
      "\<And>n t d a d'. I d \<Longrightarrow> update_node n t d = Inr (a, d') \<Longrightarrow> I d'"
      "\<And>i st e s t d a d'. I d \<Longrightarrow> set_node_health i st e s t d = Inr (a, d') \<Longrightarrow> I d'"
      "\<And>i t d a d'. I d \<Longrightarrow> delete_node i t d = Inr (a, d') \<Longrightarrow> I d'"
    and inbound_stmts:
      "\<And>ib t d a d'. ok ib \<Longrightarrow> I d \<Longrightarrow> insert_inbound ib t d = Inr (a, d') \<Longrightarrow> I d'"
      "\<And>ib t d a d'. ok ib \<Longrightarrow> I d \<Longrightarrow> update_inbound ib t d = Inr (a, d') \<Longrightarrow> I d'"
    and catalog_stmts:
      "\<And>i t d a d'. I d \<Longrightarrow> delete_inbound i t d = Inr (a, d') \<Longrightarrow> I d'"
      "\<And>p t d a d'. I d \<Longrightarrow> insert_plan p t d = Inr (a, d') \<Longrightarrow> I d'"
      "\<And>p t d a d'. I d \<Longrightarrow> update_plan p t d = Inr (a, d') \<Longrightarrow> I d'"
      "\<And>i t d a d'. I d \<Longrightarrow> delete_plan i t d = Inr (a, d') \<Longrightarrow> I d'"
      "\<And>k t d a d'. I d \<Longrightarrow> insert_api_key k t d = Inr (a, d') \<Longrightarrow> I d'"
      "\<And>h t d a d'. I d \<Longrightarrow> touch_api_key h t d = Inr (a, d') \<Longrightarrow> I d'"
      "\<And>i t d a d'. I d \<Longrightarrow> revoke_api_key i t d = Inr (a, d') \<Longrightarrow> I d'"
      "\<And>e x t d a d'. I d \<Longrightarrow> insert_webhook_event e x t d = Inr (a, d') \<Longrightarrow> I d'"
    and user_stmts:
      "\<And>u t d a d'. I d \<Longrightarrow> insert_user u t d = Inr (a, d') \<Longrightarrow> I d'"
      "\<And>u t d a d'. I d \<Longrightarrow> update_user u t d = Inr (a, d') \<Longrightarrow> I d'"
      "\<And>i st t d a d'. I d \<Longrightarrow> touch_user i (\<lambda>now u. u\<lparr>u_Status := st, u_UpdatedAt := now\<rparr>) t d = Inr (a, d') \<Longrightarrow> I d'"
      "\<And>i t d a d'. I d \<Longrightarrow> touch_user i (\<lambda>now u. u\<lparr>u_UsedUploadBytes := 0, u_UsedDownloadBytes := 0, u_UpdatedAt := now\<rparr>) t d
         = Inr (a, d') \<Longrightarrow> I d'"
      "\<And>i t d a d'. I d \<Longrightarrow> delete_user i t d = Inr (a, d') \<Longrightarrow> I d'"
      "\<And>s t d a d'. I d \<Longrightarrow> expire_due_users s t d = Inr (a, d') \<Longrightarrow> I d'"
      "\<And>t d a d'. I d \<Longrightarrow> suspend_over_quota t d = Inr (a, d') \<Longrightarrow> I d'"
      "\<And>n td at t d a d'. I d \<Longrightarrow> insert_snapshot n td at t d = Inr (a, d') \<Longrightarrow> I d'"
      "\<And>td t d a d'. I d \<Longrightarrow> add_traffic td t d = Inr (a, d') \<Longrightarrow> I d'"
      "\<And>b t d a d'. I d \<Longrightarrow> prune_snapshots b t d = Inr (a, d') \<Longrightarrow> I d'"
    and assignment_stmts:
      "\<And>u i t d a d'. I d \<Longrightarrow> insert_assignment u i t d = Inr (a, d') \<Longrightarrow> I d'"
      "\<And>u i t d a d'. I d \<Longrightarrow> delete_assignment u i t d = Inr (a, d') \<Longrightarrow> I d'"
      "\<And>P st t d a d'. I d \<Longrightarrow> touch_assignments P (\<lambda>r. r\<lparr>ui_SyncStatus := st\<rparr>) t d = Inr (a, d') \<Longrightarrow> I d'"
      "\<And>P st e s t d a d'. I d \<Longrightarrow> touch_assignments P (\<lambda>r. r\<lparr>ui_SyncStatus := st, ui_LastError := e,
          ui_LastSyncedAt := (case s of None \<Rightarrow> ui_LastSyncedAt r | Some t \<Rightarrow> Some t)\<rparr>) t d = Inr (a, d') \<Longrightarrow> I d'"
begin

lemmas stmts = node_stmts catalog_stmts user_stmts assignment_stmts

lemma catalog [pres]:
  "preserves I (CreateNode n)" "preserves I (UpdateNode n)" "preserves I (SetNodeHealth i st e s)" "preserves I (DeleteNode i)"
  "preserves I (DeleteInbound i)" "preserves I (CreatePlan p)" "preserves I (UpdatePlan p)" "preserves I (DeletePlan i)"
  "preserves I (CreateAPIKey k)" "preserves I (FindAPIKeyByHash h)" "preserves I (RevokeAPIKey i)"
  "preserves I (RecordWebhookEvent i x)"
  unfolding store_defs by (intro pres; erule (1) stmts)+

lemma inbounds:
  "ok ib \<Longrightarrow> preserves I (CreateInbound ib)" "ok ib \<Longrightarrow> preserves I (UpdateInbound ib)"
  unfolding store_defs by (intro pres; erule (2) inbound_stmts)+

lemma users [pres]:
  "preserves I (CreateUserTx u)" "preserves I (UpdateUser u)" "preserves I (SetUserStatus uid st)" "preserves I (ResetTrafficRow uid)"
  "preserves I (DeleteUser uid)" "preserves I (ExpireDueUsers s)" "preserves I (PruneSnapshots b)"
  "preserves I (ApplyTrafficDeltas n ds at)"
  unfolding store_defs ApplyTrafficDeltas_def by (intro pres; erule (1) stmts)+

lemma assignments [pres]:
  "preserves I (AddAssignmentTx u i)" "preserves I (DeleteAssignment u i)" "preserves I (SetAssignmentsForUserTx u is)"
  "preserves I (MarkAssignmentSynced u i st e)" "preserves I (MarkAssignmentsRemovingForUser u)"
  unfolding store_defs tombstone_others_def by (intro pres; erule (1) stmts)+

lemma user_service [pres]:
  "preserves I (UserService_Create inp)" "preserves I (UserService_Update uid upd)" "preserves I (UserService_SetInbounds uid ids)"
  "preserves I (UserService_Suspend uid)" "preserves I (UserService_Resume uid)" "preserves I (UserService_ResetTraffic uid)"
  "preserves I (UserService_Renew uid rn)" "preserves I (UserService_RotateSubToken uid)" "preserves I (UserService_Delete uid)"
  unfolding UserService_Create_def UserService_Update_def UserService_SetInbounds_def UserService_Suspend_def
    UserService_Resume_def UserService_ResetTraffic_def UserService_Renew_def UserService_RotateSubToken_def
    UserService_Delete_def Let_def create_tx_def renew_reset_def renew_revive_def save_user_def setStatusAndReconcile_def
  by (intro pres)+

lemma node_service [pres]:
  "preserves I (NodeService_Create X ni)" "preserves I (NodeService_Update X uid ni)" "preserves I (NodeService_Delete uid)"
  "preserves I (NodeService_DeleteInbound uid)"
  unfolding NodeService_Create_def NodeService_Update_def NodeService_Delete_def NodeService_DeleteInbound_def launch_node_def
  by (intro pres)+

lemma inbound_service [pres]:
  "preserves I (NodeService_CreateInbound nid ii)" "preserves I (NodeService_UpdateInbound iid ii)"
proof -
  show "preserves I (NodeService_CreateInbound nid ii)"
    unfolding NodeService_CreateInbound_def Let_def
    by (cases "inbound_validate ii") (simp_all, (intro pres inbounds validated; assumption?)+)
  show "preserves I (NodeService_UpdateInbound iid ii)"
    unfolding NodeService_UpdateInbound_def Let_def
    by (cases "inbound_validate ii") (simp_all, (intro pres inbounds validated; assumption?)+)
qed

lemma plan_and_key_services [pres]:
  "preserves I (PlanService_Create pin)" "preserves I (PlanService_Update uid pin)" "preserves I (PlanService_Delete uid)"
  "preserves I (APIKeyService_Create name)" "preserves I (APIKeyService_Revoke uid)" "preserves I (APIKeyService_Verify p b)"
  unfolding PlanService_Create_def PlanService_Update_def PlanService_Delete_def APIKeyService_Create_def
    APIKeyService_Revoke_def APIKeyService_Verify_def Let_def
  by (intro pres)+

lemma loops [pres]: "preserves I (remove_all X k c ds)" "preserves I (add_all X k c ds)"
  by (induction ds) (auto intro!: pres)

lemma worker [pres]:
  "preserves I (reconcile X k)" "preserves I (checkHealth X k)" "preserves I (collect X k)"
  "preserves I expiry_pass" "preserves I (prune_pass n)"
  unfolding reconcile_def checkHealth_def health_failed_def health_passed_def setHealth_def collect_def
    expiry_pass_def prune_pass_def
  by (intro pres)+

lemma turns [pres]: "preserves I (run_turn X k ev)"
  unfolding run_turn_def by (cases ev) (simp_all, (intro pres)+)

end

section \<open>The schema\<close>

interpretation schema: store_invariant wf_db "\<lambda>_. True"
proof unfold_locales
  fix i st t d a d'
  show "wf_db d \<Longrightarrow> touch_user i (\<lambda>now u. u\<lparr>u_Status := st, u_UpdatedAt := now\<rparr>) t d = Inr (a, d') \<Longrightarrow> wf_db d'"
    "wf_db d \<Longrightarrow> touch_user i (\<lambda>now u. u\<lparr>u_UsedUploadBytes := 0, u_UsedDownloadBytes := 0, u_UpdatedAt := now\<rparr>) t d
       = Inr (a, d') \<Longrightarrow> wf_db d'"
    by (auto simp: touch_user_def intro!: wf_touch_users)
qed (rule TrueI | erule (1) wf_stmt | (erule (1) wf_touch_assignments; simp))+


section \<open>Stored inbounds are valid\<close>

definition catalog_valid :: "db \<Rightarrow> bool" where
  "catalog_valid d \<longleftrightarrow> (\<forall>i \<in> set (db_inbounds d). valid_inbound i)"

lemma catalog_valid_inbounds: "set (db_inbounds d') \<subseteq> set (db_inbounds d) \<Longrightarrow> catalog_valid d \<Longrightarrow> catalog_valid d'"
  by (auto simp: catalog_valid_def)

lemma valid_inbound_stamps: "valid_inbound (i\<lparr>ib_CreatedAt := s, ib_UpdatedAt := t\<rparr>) = valid_inbound i"
  by (simp add: valid_inbound_def)

lemmas stmt_defs = insert_node_def update_node_def set_node_health_def delete_node_def delete_inbound_def
  insert_plan_def update_plan_def delete_plan_def insert_api_key_def touch_api_key_def revoke_api_key_def
  insert_webhook_event_def insert_user_def update_user_def touch_user_def delete_user_def expire_due_users_def
  suspend_over_quota_def insert_snapshot_def add_traffic_def prune_snapshots_def insert_assignment_def
  delete_assignment_def touch_assignments_def flip_status_def

interpretation catalog: store_invariant catalog_valid valid_inbound
proof unfold_locales
  fix ib t d a d' assume "valid_inbound ib" "catalog_valid d"
  then show "insert_inbound ib t d = Inr (a, d') \<Longrightarrow> catalog_valid d'"
    by (auto simp: catalog_valid_def insert_inbound_def new_inbound_row_def valid_inbound_stamps split: if_splits)
next
  fix ib t d a d' assume "valid_inbound ib" "catalog_valid d"
  then show "update_inbound ib t d = Inr (a, d') \<Longrightarrow> catalog_valid d'"
    by (auto simp: catalog_valid_def update_inbound_def assign_inbound_def update_rows_def valid_inbound_def Let_def
        split: if_splits option.splits)
qed (rule validated_inbound, assumption
  | (erule catalog_valid_inbounds [rotated], auto simp: stmt_defs delete_rows_def Let_def split: if_splits option.splits)[1])+


section \<open>Recorded webhook events\<close>

definition recorded :: "string \<Rightarrow> db \<Rightarrow> bool" where
  "recorded e d \<longleftrightarrow> e \<in> we_ID ` set (db_webhook_events d)"

lemma recorded_events: "set (db_webhook_events d) \<subseteq> set (db_webhook_events d') \<Longrightarrow> recorded e d \<Longrightarrow> recorded e d'"
  by (auto simp: recorded_def)

interpretation recorded: store_invariant "recorded e" "\<lambda>_. True" for e
  by unfold_locales (rule TrueI
    | (erule recorded_events [rotated], auto simp: stmt_defs insert_inbound_def update_inbound_def Let_def
        split: if_splits option.splits)[1])+


section \<open>Undisturbed runs stay undisturbed\<close>

definition idle :: "'x world \<Rightarrow> bool" where
  "idle w \<longleftrightarrow> w_sched w = []"

lemma idle_calls [pres]: "keeps idle (db_exec q)" "keeps idle (tx_exec q)" "keeps idle (db_query q')"
  by (auto simp: keeps_def idle_def db_query_def db_exec_def tx_exec_def next_call_def next_tx_call_def run_stmt_def
      split: option.splits sum.splits)

lemma idle_WithTx [pres]: "keeps idle fn \<Longrightarrow> keeps idle (WithTx fn)"
  by (fastforce simp: keeps_def idle_def WithTx_def next_call_def next_tx_call_def
      split: prod.splits option.splits sum.splits list.splits)

lemma idle_db_free: "db_free m \<Longrightarrow> keeps idle m"
  by (simp add: db_free_def keeps_def idle_def)

lemmas idle_free [pres] = db_free_basic(1-3) [THEN idle_db_free] db_free_client [THEN idle_db_free] db_free_actors [THEN idle_db_free]

lemma idle_reconcile_targets [pres]: "keeps idle (reconcile_targets ns seen)" "keeps idle (forEach ns Reconcile)"
  by (simp_all add: keeps_def idle_def reconcile_targets_triggers forEach_Reconcile)

lemma idle_user_service [pres]:
  "keeps idle (UserService_Create inp)" "keeps idle (UserService_Suspend uid)" "keeps idle (UserService_Resume uid)"
  "keeps idle (UserService_Renew uid rn)"
  unfolding UserService_Create_def UserService_Suspend_def UserService_Resume_def UserService_Renew_def create_tx_def
    plan_terms_def new_user_def randToken_def renew_plan_def renew_expiry_def renew_reset_def renew_revive_def save_user_def
    setStatusAndReconcile_def unexpired_def ReconcileForUser_def store_defs scanUser_def Let_def
  by (intro pres)+

end
