(* ===== verification/Json.thy ===== *)
theory Json
  imports Codec "HOL-Library.List_Lexorder" "HOL-Library.Char_ord"
begin

text \<open>
  What the program uses of \<open>encoding/json\<close>, \<open>strconv\<close> and \<open>time\<close>: the encoding of strings, the
  scanner, the decoding into structs with and without \<open>DisallowUnknownFields\<close>, \<open>Atoi\<close> and
  \<open>time.Parse\<close> with the layout RFC 3339. The scanner is an automaton over bytes with a stack of
  open containers, as in \<open>scanner.go\<close>; a struct is decoded by a table of its tagged fields. Only
  the kind of an error is computed, not its text.
\<close>

section \<open>Numbers\<close>

text \<open>\<open>strconv.Atoi\<close>: whether it succeeds, and its value, which is the nearest integer of 64 bits out of range and 0 for other texts.\<close>

definition is_digit :: "char \<Rightarrow> bool" where
  "is_digit c \<longleftrightarrow> c \<in> set ''0123456789''"

definition digits_value :: "string \<Rightarrow> int" where
  "digits_value s = foldl (\<lambda>n c. 10 * n + (of_char c - 48)) 0 s"

definition Atoi :: "string \<Rightarrow> bool \<times> int" where
  "Atoi s = (let signed = s \<noteq> [] \<and> hd s \<in> set ''+-''; ds = (if signed then tl s else s);
       n = (if signed \<and> hd s = CHR ''-'' then - digits_value ds else digits_value ds) in
     if ds = [] \<or> \<not> list_all is_digit ds then (False, 0)
     else if n < - (2 ^ 63) then (False, - (2 ^ 63))
     else if 2 ^ 63 \<le> n then (False, 2 ^ 63 - 1)
     else (True, n))"

section \<open>Strings\<close>

text \<open>The length of the UTF-8 sequence at the start of a text, if it is a valid one.\<close>

definition continues :: "nat \<Rightarrow> nat \<Rightarrow> char \<Rightarrow> bool" where
  "continues lo hi c \<longleftrightarrow> lo \<le> of_char c \<and> of_char c \<le> hi"

fun utf8_len :: "string \<Rightarrow> nat option" where
  "utf8_len [] = None"
| "utf8_len (c # s) = (let n = (of_char c :: nat) in
     if n < 0x80 then Some 1
     else if 0xC2 \<le> n \<and> n \<le> 0xDF then (case s of a # _ \<Rightarrow> if continues 0x80 0xBF a then Some 2 else None | _ \<Rightarrow> None)
     else if 0xE0 \<le> n \<and> n \<le> 0xEF then (case s of a # b # _ \<Rightarrow>
         if continues (if n = 0xE0 then 0xA0 else 0x80) (if n = 0xED then 0x9F else 0xBF) a \<and> continues 0x80 0xBF b then Some 3 else None
       | _ \<Rightarrow> None)
     else if 0xF0 \<le> n \<and> n \<le> 0xF4 then (case s of a # b # d # _ \<Rightarrow>
         if continues (if n = 0xF0 then 0x90 else 0x80) (if n = 0xF4 then 0x8F else 0xBF) a
            \<and> continues 0x80 0xBF b \<and> continues 0x80 0xBF d then Some 4 else None
       | _ \<Rightarrow> None)
     else None)"

lemma utf8_len_pos: "utf8_len s = Some n \<Longrightarrow> 0 < n"
  by (cases s) (auto simp: Let_def split: if_splits list.splits)

definition json_byte :: "char \<Rightarrow> string" where
  "json_byte c = (let n = (of_char c :: nat) in
     if n = 34 \<or> n = 92 then [CHR 0x5C, c]
     else if n = 8 then CHR 0x5C # ''b'' else if n = 12 then CHR 0x5C # ''f''
     else if n = 10 then CHR 0x5C # ''n'' else if n = 13 then CHR 0x5C # ''r'' else if n = 9 then CHR 0x5C # ''t''
     else if n < 32 \<or> c \<in> set ''<>&'' then CHR 0x5C # ''u00'' @ [hex_digit (n div 16), hex_digit n]
     else [c])"

text \<open>\<open>appendString\<close> of \<open>encoding/json\<close> with HTML escaping: bytes that are no UTF-8 become the
  replacement character, the two line separators of Unicode are escaped.\<close>

function json_chars :: "string \<Rightarrow> string" where
  "json_chars [] = []"
| "json_chars (c # s) =
     (if (of_char c :: nat) < 0x80 then json_byte c @ json_chars s
      else case utf8_len (c # s) of
          None \<Rightarrow> CHR 0x5C # ''ufffd'' @ json_chars s
        | Some n \<Rightarrow> (if take n (c # s) = [CHR 0xE2, CHR 0x80, CHR 0xA8] then CHR 0x5C # ''u2028''
              else if take n (c # s) = [CHR 0xE2, CHR 0x80, CHR 0xA9] then CHR 0x5C # ''u2029''
              else take n (c # s)) @ json_chars (drop n (c # s)))"
  by pat_completeness auto
termination
  by (relation "measure length") (auto simp del: utf8_len.simps dest!: utf8_len_pos)

definition json_string :: "string \<Rightarrow> string" where
  "json_string s = [CHR 0x22] @ json_chars s @ [CHR 0x22]"

text \<open>\<open>strings.Join\<close>.\<close>

fun Join :: "string list \<Rightarrow> string \<Rightarrow> string" where
  "Join [] sep = []"
| "Join [s] sep = s"
| "Join (s # t # ss) sep = s @ sep @ Join (t # ss) sep"

text \<open>\<open>json.Marshal\<close> of a \<open>map[string]string\<close>: the keys in order.\<close>

definition json_object :: "(string \<times> string) list \<Rightarrow> string" where
  "json_object m = ''{'' @ Join (map (\<lambda>(k, v). json_string k @ '':'' @ json_string v) (sort_key fst m)) '','' @ ''}''"

text \<open>The UTF-8 encoding of a code point; surrogates and larger numbers become the replacement character.\<close>

definition replacement :: string where
  "replacement = [CHR 0xEF, CHR 0xBF, CHR 0xBD]"

definition utf8_encode :: "nat \<Rightarrow> string" where
  "utf8_encode n =
     (if n < 0x80 then [char_of n]
      else if n < 0x800 then [char_of (0xC0 + n div 64), char_of (0x80 + n mod 64)]
      else if 0xD800 \<le> n \<and> n < 0xE000 \<or> 0x110000 \<le> n then replacement
      else if n < 0x10000 then [char_of (0xE0 + n div 4096), char_of (0x80 + n div 64 mod 64), char_of (0x80 + n mod 64)]
      else [char_of (0xF0 + n div 262144), char_of (0x80 + n div 4096 mod 64), char_of (0x80 + n div 64 mod 64), char_of (0x80 + n mod 64)])"

definition hex_value :: "char \<Rightarrow> nat option" where
  "hex_value c = (let n = (of_char c :: nat) in
     if 48 \<le> n \<and> n \<le> 57 then Some (n - 48) else if 97 \<le> n \<and> n \<le> 102 then Some (n - 87)
     else if 65 \<le> n \<and> n \<le> 70 then Some (n - 55) else None)"

text \<open>\<open>getu4\<close> after the characters \<open>\u\<close>: the value of four hexadecimal digits.\<close>

fun u4 :: "string \<Rightarrow> nat option" where
  "u4 (a # b # c # d # _) = (case (hex_value a, hex_value b, hex_value c, hex_value d) of
      (Some w, Some x, Some y, Some z) \<Rightarrow> Some (4096 * w + 256 * x + 16 * y + z) | _ \<Rightarrow> None)"
| "u4 _ = None"

definition surrogate :: "nat \<Rightarrow> bool" where
  "surrogate n \<longleftrightarrow> 0xD800 \<le> n \<and> n < 0xE000"

text \<open>The code point of a surrogate pair, if the text continues with the second half.\<close>

definition pair_rune :: "nat \<Rightarrow> string \<Rightarrow> nat option" where
  "pair_rune hi s = (case s of a # b # s' \<Rightarrow> (if a = CHR 0x5C \<and> b = CHR ''u'' then (case u4 s' of
        Some lo \<Rightarrow> if 0xD800 \<le> hi \<and> hi < 0xDC00 \<and> 0xDC00 \<le> lo \<and> lo < 0xE000
          then Some ((hi - 0xD800) * 1024 + (lo - 0xDC00) + 0x10000) else None
      | None \<Rightarrow> None) else None) | _ \<Rightarrow> None)"

definition json_unescape :: "char \<Rightarrow> char" where
  "json_unescape c = (if c = CHR ''b'' then CHR 0x08 else if c = CHR ''f'' then CHR 0x0C else if c = CHR ''n'' then CHR 0x0A
     else if c = CHR ''r'' then CHR 0x0D else if c = CHR ''t'' then CHR 0x09 else c)"

text \<open>\<open>unquoteBytes\<close> on the text between the quotes, which the scanner has accepted.\<close>

function unquote :: "string \<Rightarrow> string" where
  "unquote [] = []"
| "unquote (c # s) =
     (if c = CHR 0x5C then (case s of
          [] \<Rightarrow> []
        | d # s' \<Rightarrow> if d = CHR ''u'' then (case u4 s' of
              None \<Rightarrow> []
            | Some n \<Rightarrow> if surrogate n then (case pair_rune n (drop 4 s') of
                  Some r \<Rightarrow> utf8_encode r @ unquote (drop 10 s')
                | None \<Rightarrow> replacement @ unquote (drop 4 s'))
              else utf8_encode n @ unquote (drop 4 s'))
          else json_unescape d # unquote s')
      else (case utf8_len (c # s) of
          None \<Rightarrow> replacement @ unquote s
        | Some n \<Rightarrow> take n (c # s) @ unquote (drop n (c # s))))"
  by pat_completeness auto
termination
  by (relation "measure length") (auto simp del: utf8_len.simps dest!: utf8_len_pos)

declare unquote.simps [simp del]

section \<open>Values and the scanner\<close>

text \<open>A value keeps the text of its numbers and, between the quotes, of its strings.\<close>

datatype json = JNull | JBool bool | JNumber string | JString string | JArray "json list" | JObject "(string \<times> json) list"

datatype json_error = EOFErr | UnexpectedEOF | ReadErr | SyntaxErr | DepthErr | UnknownField string | TypeMismatch | TimeErr

text \<open>Open containers, their contents in reverse; an object holds the key of the current member.\<close>

datatype frame = FArr "json list" | FObj "(string \<times> json) list" string

datatype num_state = NumNeg | NumZero | NumInt | NumDot | NumFrac | NumE | NumESign | NumExp

datatype scan_state =
    AtValue bool | AtKey bool | AtColon | AfterValue
  | InString bool string | InEscape bool string | InHex bool nat string
  | InLiteral string json | InNumber num_state string

datatype move = Move scan_state "frame list" | Finish json | Finish_before json

definition json_space :: "char \<Rightarrow> bool" where
  "json_space c \<longleftrightarrow> c = CHR 0x20 \<or> c = CHR 0x09 \<or> c = CHR 0x0A \<or> c = CHR 0x0D"

fun complete_value :: "json \<Rightarrow> frame list \<Rightarrow> move" where
  "complete_value v [] = Finish v"
| "complete_value v (FArr vs # fs) = Move AfterValue (FArr (v # vs) # fs)"
| "complete_value v (FObj ms k # fs) = Move AfterValue (FObj ((k, v) # ms) k # fs)"

definition maxNestingDepth :: nat where
  "maxNestingDepth = 10000"

definition push_frame :: "scan_state \<Rightarrow> frame \<Rightarrow> frame list \<Rightarrow> json_error + move" where
  "push_frame st f fs = (if length fs < maxNestingDepth then Inr (Move st (f # fs)) else Inl DepthErr)"

definition begin_value :: "bool \<Rightarrow> frame list \<Rightarrow> char \<Rightarrow> json_error + move" where
  "begin_value may_end fs c =
     (if json_space c then Inr (Move (AtValue may_end) fs)
      else if c = CHR 0x22 then Inr (Move (InString False []) fs)
      else if c = CHR ''{'' then push_frame (AtKey True) (FObj [] []) fs
      else if c = CHR ''['' then push_frame (AtValue True) (FArr []) fs
      else if c = CHR '']'' \<and> may_end then (case fs of FArr vs # fs' \<Rightarrow> Inr (complete_value (JArray (rev vs)) fs') | _ \<Rightarrow> Inl SyntaxErr)
      else if c = CHR ''-'' then Inr (Move (InNumber NumNeg [c]) fs)
      else if c = CHR ''0'' then Inr (Move (InNumber NumZero [c]) fs)
      else if is_digit c then Inr (Move (InNumber NumInt [c]) fs)
      else if c = CHR ''t'' then Inr (Move (InLiteral ''rue'' (JBool True)) fs)
      else if c = CHR ''f'' then Inr (Move (InLiteral ''alse'' (JBool False)) fs)
      else if c = CHR ''n'' then Inr (Move (InLiteral ''ull'' JNull) fs)
      else Inl SyntaxErr)"

definition begin_key :: "bool \<Rightarrow> frame list \<Rightarrow> char \<Rightarrow> json_error + move" where
  "begin_key may_end fs c =
     (if json_space c then Inr (Move (AtKey may_end) fs)
      else if c = CHR 0x22 then Inr (Move (InString True []) fs)
      else if c = CHR ''}'' \<and> may_end then (case fs of FObj ms k # fs' \<Rightarrow> Inr (complete_value (JObject (rev ms)) fs') | _ \<Rightarrow> Inl SyntaxErr)
      else Inl SyntaxErr)"

definition after_value :: "frame list \<Rightarrow> char \<Rightarrow> json_error + move" where
  "after_value fs c =
     (if json_space c then Inr (Move AfterValue fs)
      else (case fs of
          FArr vs # fs' \<Rightarrow> if c = CHR '','' then Inr (Move (AtValue False) fs)
            else if c = CHR '']'' then Inr (complete_value (JArray (rev vs)) fs') else Inl SyntaxErr
        | FObj ms k # fs' \<Rightarrow> if c = CHR '','' then Inr (Move (AtKey False) fs)
            else if c = CHR ''}'' then Inr (complete_value (JObject (rev ms)) fs') else Inl SyntaxErr
        | [] \<Rightarrow> Inl SyntaxErr))"

text \<open>The end of a string: of a key, or of a value.\<close>

definition end_string :: "bool \<Rightarrow> string \<Rightarrow> frame list \<Rightarrow> json_error + move" where
  "end_string key raw fs = (if key then (case fs of FObj ms _ # fs' \<Rightarrow> Inr (Move AtColon (FObj ms (unquote raw) # fs')) | _ \<Rightarrow> Inl SyntaxErr)
     else Inr (complete_value (JString raw) fs))"

definition num_step :: "num_state \<Rightarrow> char \<Rightarrow> num_state option" where
  "num_step st c = (let exp = (c = CHR ''e'' \<or> c = CHR ''E'') in case st of
      NumNeg \<Rightarrow> if c = CHR ''0'' then Some NumZero else if is_digit c then Some NumInt else None
    | NumZero \<Rightarrow> if c = CHR ''.'' then Some NumDot else if exp then Some NumE else None
    | NumInt \<Rightarrow> if is_digit c then Some NumInt else if c = CHR ''.'' then Some NumDot else if exp then Some NumE else None
    | NumDot \<Rightarrow> if is_digit c then Some NumFrac else None
    | NumFrac \<Rightarrow> if is_digit c then Some NumFrac else if exp then Some NumE else None
    | NumE \<Rightarrow> if c = CHR ''+'' \<or> c = CHR ''-'' then Some NumESign else if is_digit c then Some NumExp else None
    | NumESign \<Rightarrow> if is_digit c then Some NumExp else None
    | NumExp \<Rightarrow> if is_digit c then Some NumExp else None)"

definition num_final :: "num_state \<Rightarrow> bool" where
  "num_final st \<longleftrightarrow> st = NumZero \<or> st = NumInt \<or> st = NumFrac \<or> st = NumExp"

text \<open>A number ends at the first byte that does not continue it; that byte follows the value.\<close>

definition end_number :: "string \<Rightarrow> frame list \<Rightarrow> char \<Rightarrow> json_error + move" where
  "end_number t fs c = (case complete_value (JNumber t) fs of
      Move _ fs' \<Rightarrow> after_value fs' c
    | _ \<Rightarrow> Inr (Finish_before (JNumber t)))"

definition scan_step :: "scan_state \<Rightarrow> frame list \<Rightarrow> char \<Rightarrow> json_error + move" where
  "scan_step st fs c = (case st of
      AtValue may_end \<Rightarrow> begin_value may_end fs c
    | AtKey may_end \<Rightarrow> begin_key may_end fs c
    | AtColon \<Rightarrow> if json_space c then Inr (Move AtColon fs) else if c = CHR '':'' then Inr (Move (AtValue False) fs) else Inl SyntaxErr
    | AfterValue \<Rightarrow> after_value fs c
    | InString key raw \<Rightarrow> if c = CHR 0x22 then end_string key (rev raw) fs
        else if c = CHR 0x5C then Inr (Move (InEscape key (c # raw)) fs)
        else if (of_char c :: nat) < 0x20 then Inl SyntaxErr
        else Inr (Move (InString key (c # raw)) fs)
    | InEscape key raw \<Rightarrow> if c \<in> set [CHR ''b'', CHR ''f'', CHR ''n'', CHR ''r'', CHR ''t'', CHR 0x5C, CHR ''/'', CHR 0x22]
          then Inr (Move (InString key (c # raw)) fs)
        else if c = CHR ''u'' then Inr (Move (InHex key 4 (c # raw)) fs) else Inl SyntaxErr
    | InHex key n raw \<Rightarrow> if hex_value c = None then Inl SyntaxErr
        else Inr (Move (if n \<le> 1 then InString key (c # raw) else InHex key (n - 1) (c # raw)) fs)
    | InLiteral rest v \<Rightarrow> (case rest of
          [] \<Rightarrow> Inl SyntaxErr
        | d # ds \<Rightarrow> if c \<noteq> d then Inl SyntaxErr else if ds = [] then Inr (complete_value v fs) else Inr (Move (InLiteral ds v) fs))
    | InNumber ph t \<Rightarrow> (case num_step ph c of
          Some ph' \<Rightarrow> Inr (Move (InNumber ph' (c # t)) fs)
        | None \<Rightarrow> if num_final ph then end_number (rev t) fs c else Inl SyntaxErr))"

text \<open>The first value of a text, and what follows it.\<close>

fun scan :: "scan_state \<Rightarrow> frame list \<Rightarrow> string \<Rightarrow> json_error + json \<times> string" where
  "scan st fs [] = (case st of
      InNumber ph t \<Rightarrow> if num_final ph \<and> fs = [] then Inr (JNumber (rev t), []) else Inl UnexpectedEOF
    | _ \<Rightarrow> Inl UnexpectedEOF)"
| "scan st fs (c # cs) = (case scan_step st fs c of
      Inl e \<Rightarrow> Inl e
    | Inr (Move st' fs') \<Rightarrow> scan st' fs' cs
    | Inr (Finish v) \<Rightarrow> Inr (v, cs)
    | Inr (Finish_before v) \<Rightarrow> Inr (v, c # cs))"

definition scan_value :: "string \<Rightarrow> json_error + json \<times> string" where
  "scan_value s = scan (AtValue False) [] s"

text \<open>\<open>json.Unmarshal\<close> allows only white space after the value.\<close>

definition scan_all :: "string \<Rightarrow> json_error + json" where
  "scan_all s = (case scan_value s of
      Inl e \<Rightarrow> Inl e
    | Inr (v, rest) \<Rightarrow> if list_all json_space rest then Inr v else Inl SyntaxErr)"

section \<open>Times\<close>

definition leap :: "int \<Rightarrow> bool" where
  "leap y \<longleftrightarrow> y mod 4 = 0 \<and> (y mod 100 \<noteq> 0 \<or> y mod 400 = 0)"

definition month_days :: "int \<Rightarrow> int \<Rightarrow> int" where
  "month_days y m = (if m = 2 then (if leap y then 29 else 28) else if m \<in> {4, 6, 9, 11} then 30 else 31)"

text \<open>Days from 1 January 1970 to a date of the Gregorian calendar.\<close>

definition days_before_year :: "int \<Rightarrow> int" where
  "days_before_year y = 365 * y + (y + 3) div 4 - (y + 99) div 100 + (y + 399) div 400"

definition date_days :: "int \<Rightarrow> int \<Rightarrow> int \<Rightarrow> int" where
  "date_days y m d = days_before_year y - days_before_year 1970 + sum_list (map (month_days y) [1 .. m - 1]) + d - 1"

definition digit_value :: "char \<Rightarrow> int" where
  "digit_value c = of_char c - 48"

definition getnum :: "bool \<Rightarrow> string \<Rightarrow> (int \<times> string) option" where
  "getnum fixed s = (case s of
      a # s' \<Rightarrow> if \<not> is_digit a then None else (case s' of
          b # s'' \<Rightarrow> if is_digit b then Some (10 * digit_value a + digit_value b, s'') else if fixed then None else Some (digit_value a, s')
        | [] \<Rightarrow> if fixed then None else Some (digit_value a, s'))
    | [] \<Rightarrow> None)"

definition getyear :: "string \<Rightarrow> (int \<times> string) option" where
  "getyear s = (if 4 \<le> length s \<and> list_all is_digit (take 4 s) then Some (digits_value (take 4 s), drop 4 s) else None)"

definition expect :: "char \<Rightarrow> string \<Rightarrow> string option" where
  "expect c s = (case s of a # s' \<Rightarrow> if a = c then Some s' else None | [] \<Rightarrow> None)"

text \<open>A fraction of a second after a period or a comma, cut off after nine digits.\<close>

definition getfrac :: "string \<Rightarrow> int \<times> string" where
  "getfrac s = (case s of
      p # s' \<Rightarrow> (let ds = takeWhile is_digit s'; n = take 9 ds in
        if (p = CHR ''.'' \<or> p = CHR '','') \<and> ds \<noteq> [] then (digits_value n * 10 ^ (9 - length n), drop (length ds) s') else (0, s))
    | [] \<Rightarrow> (0, s))"

text \<open>The zone, in seconds east of UTC; it must end the text.\<close>

definition getzone :: "string \<Rightarrow> int option" where
  "getzone s = (case s of
      [] \<Rightarrow> None
    | c # s' \<Rightarrow> if c = CHR ''Z'' then (if s' = [] then Some 0 else None)
        else Option.bind (getnum True s') (\<lambda>(hh, s1). Option.bind (expect (CHR '':'') s1) (\<lambda>s2.
          Option.bind (getnum True s2) (\<lambda>(mm, s3).
            if s3 \<noteq> [] \<or> 24 < hh \<or> 60 < mm then None
            else if c = CHR ''+'' then Some ((hh * 60 + mm) * 60)
            else if c = CHR ''-'' then Some (- ((hh * 60 + mm) * 60)) else None))))"

text \<open>\<open>time.Parse(time.RFC3339, s)\<close>.\<close>

definition time_Parse :: "string \<Rightarrow> time option" where
  "time_Parse s =
     Option.bind (getyear s) (\<lambda>(y, s). Option.bind (expect (CHR ''-'') s) (\<lambda>s.
     Option.bind (getnum True s) (\<lambda>(m, s). Option.bind (expect (CHR ''-'') s) (\<lambda>s.
     Option.bind (getnum True s) (\<lambda>(d, s). Option.bind (expect (CHR ''T'') s) (\<lambda>s.
     Option.bind (getnum False s) (\<lambda>(hh, s). Option.bind (expect (CHR '':'') s) (\<lambda>s.
     Option.bind (getnum True s) (\<lambda>(mi, s). Option.bind (expect (CHR '':'') s) (\<lambda>s.
     Option.bind (getnum True s) (\<lambda>(sec, s).
       (case getfrac s of (ns, s) \<Rightarrow> Option.bind (getzone s) (\<lambda>zone.
         if m < 1 \<or> 12 < m \<or> d < 1 \<or> month_days y m < d \<or> 24 \<le> hh \<or> 60 \<le> mi \<or> 60 \<le> sec then None
         else Some (((date_days y m d * 24 + hh) * 3600 + mi * 60 + sec - zone) * 1000000000 + ns))))))))))))))"

section \<open>Decoding into structs\<close>

text \<open>
  How a value is stored into a field of a struct \<open>r\<close>: the error that ends the decoding, or the new
  struct and the error that \<open>saveError\<close> notes, if any. \<open>null\<close> leaves a plain field alone.
\<close>

type_synonym 'r slot = "json \<Rightarrow> 'r \<Rightarrow> json_error + 'r \<times> json_error option"

fun as_string :: "json \<Rightarrow> string option" where
  "as_string (JString raw) = Some (unquote raw)"
| "as_string _ = None"

fun as_bool :: "json \<Rightarrow> bool option" where
  "as_bool (JBool b) = Some b"
| "as_bool _ = None"

fun as_int :: "json \<Rightarrow> int option" where
  "as_int (JNumber t) = (case Atoi t of (ok, n) \<Rightarrow> if ok then Some n else None)"
| "as_int _ = None"

definition as_int64 :: "json \<Rightarrow> int64 option" where
  "as_int64 v = map_option word_of_int (as_int v)"

definition plain_field :: "(json \<Rightarrow> 'a option) \<Rightarrow> ('a \<Rightarrow> 'r \<Rightarrow> 'r) \<Rightarrow> 'r slot" where
  "plain_field as put v r = (if v = JNull then Inr (r, None)
     else case as v of None \<Rightarrow> Inr (r, Some TypeMismatch) | Some a \<Rightarrow> Inr (put a r, None))"

definition pointer_field :: "(json \<Rightarrow> 'a option) \<Rightarrow> ('a option \<Rightarrow> 'r \<Rightarrow> 'r) \<Rightarrow> 'r slot" where
  "pointer_field as put v r = (if v = JNull then Inr (put None r, None)
     else case as v of None \<Rightarrow> Inr (r, Some TypeMismatch) | Some a \<Rightarrow> Inr (put (Some a) r, None))"

text \<open>A pointer to a time: \<open>Time.UnmarshalJSON\<close> reads the text between the quotes as it is.\<close>

definition time_field :: "(time option \<Rightarrow> 'r \<Rightarrow> 'r) \<Rightarrow> 'r slot" where
  "time_field put v r = (case v of
      JNull \<Rightarrow> Inr (put None r, None)
    | JString raw \<Rightarrow> (case time_Parse raw of None \<Rightarrow> Inl TimeErr | Some t \<Rightarrow> Inr (put (Some t) r, None))
    | _ \<Rightarrow> Inl TimeErr)"

text \<open>A slice of strings; \<open>null\<close> among the elements leaves what was at its place.\<close>

fun fill_strings :: "json list \<Rightarrow> string list \<Rightarrow> string list \<times> json_error option" where
  "fill_strings [] old = ([], None)"
| "fill_strings (v # vs) old = (let cur = (case old of [] \<Rightarrow> [] | s # _ \<Rightarrow> s) in case fill_strings vs (tl old) of (ss, err) \<Rightarrow>
     if v = JNull then (cur # ss, err)
     else case as_string v of None \<Rightarrow> (cur # ss, Some TypeMismatch) | Some s \<Rightarrow> (s # ss, err))"

definition strings_field :: "('r \<Rightarrow> string list option) \<Rightarrow> (string list option \<Rightarrow> 'r \<Rightarrow> 'r) \<Rightarrow> 'r slot" where
  "strings_field get put v r = (case v of
      JNull \<Rightarrow> Inr (put None r, None)
    | JArray vs \<Rightarrow> (case fill_strings vs (case get r of None \<Rightarrow> [] | Some ss \<Rightarrow> ss) of (ss, err) \<Rightarrow> Inr (put (Some ss) r, err))
    | _ \<Rightarrow> Inr (r, Some TypeMismatch))"

text \<open>
  The names of fields are compared exactly, then without case; \<open>foldName\<close> maps the Kelvin sign to
  \<open>K\<close> and the long s to \<open>S\<close>, and no other rune outside ASCII to a letter of ASCII.
\<close>

fun foldName :: "string \<Rightarrow> string" where
  "foldName (a # b # c # s) =
     (if [a, b, c] = [CHR 0xE2, CHR 0x84, CHR 0xAA] then CHR ''K'' # foldName s
      else if [a, b] = [CHR 0xC5, CHR 0xBF] then CHR ''S'' # foldName (c # s)
      else (if CHR ''a'' \<le> a \<and> a \<le> CHR ''z'' then char_of ((of_char a :: nat) - 32) else a) # foldName (b # c # s))"
| "foldName [a, b] = (if [a, b] = [CHR 0xC5, CHR 0xBF] then ''S'' else (if CHR ''a'' \<le> a \<and> a \<le> CHR ''z'' then char_of ((of_char a :: nat) - 32) else a) # foldName [b])"
| "foldName [a] = [if CHR ''a'' \<le> a \<and> a \<le> CHR ''z'' then char_of ((of_char a :: nat) - 32) else a]"
| "foldName [] = []"

definition field_slot :: "(string \<times> 'r slot) list \<Rightarrow> string \<Rightarrow> 'r slot option" where
  "field_slot fields k = (case map_of fields k of
      Some s \<Rightarrow> Some s
    | None \<Rightarrow> map_of (map (\<lambda>(n, s). (foldName n, s)) fields) (foldName k))"

definition earlier_error :: "json_error option \<Rightarrow> json_error option \<Rightarrow> json_error option" where
  "earlier_error a b = (case a of None \<Rightarrow> b | Some e \<Rightarrow> Some e)"

text \<open>The members of an object, in order; \<open>strict\<close> is \<open>DisallowUnknownFields\<close>.\<close>

fun decode_members :: "bool \<Rightarrow> (string \<times> 'r slot) list \<Rightarrow> (string \<times> json) list \<Rightarrow> 'r \<Rightarrow> json_error + 'r \<times> json_error option" where
  "decode_members strict fields [] r = Inr (r, None)"
| "decode_members strict fields ((k, v) # ms) r =
     (case (case field_slot fields k of
          None \<Rightarrow> Inr (r, if strict then Some (UnknownField k) else None)
        | Some s \<Rightarrow> s v r) of
        Inl e \<Rightarrow> Inl e
      | Inr (r', err) \<Rightarrow> (case decode_members strict fields ms r' of
            Inl e \<Rightarrow> Inl e
          | Inr (r'', err') \<Rightarrow> Inr (r'', earlier_error err err')))"

text \<open>A pointer to a struct: a second object is decoded into the struct of the first.\<close>

definition struct_field :: "bool \<Rightarrow> (string \<times> 's slot) list \<Rightarrow> 's \<Rightarrow> ('r \<Rightarrow> 's option) \<Rightarrow> ('s option \<Rightarrow> 'r \<Rightarrow> 'r) \<Rightarrow> 'r slot" where
  "struct_field strict fields zero get put v r = (case v of
      JNull \<Rightarrow> Inr (put None r, None)
    | JObject ms \<Rightarrow> (case decode_members strict fields ms (case get r of None \<Rightarrow> zero | Some p \<Rightarrow> p) of
          Inl e \<Rightarrow> Inl e
        | Inr (p, err) \<Rightarrow> Inr (put (Some p) r, err))
    | _ \<Rightarrow> Inr (r, Some TypeMismatch))"

definition decode_struct :: "bool \<Rightarrow> (string \<times> 'r slot) list \<Rightarrow> 'r \<Rightarrow> json \<Rightarrow> json_error + 'r" where
  "decode_struct strict fields zero v = (case v of
      JNull \<Rightarrow> Inr zero
    | JObject ms \<Rightarrow> (case decode_members strict fields ms zero of
          Inl e \<Rightarrow> Inl e
        | Inr (r, None) \<Rightarrow> Inr r
        | Inr (r, Some e) \<Rightarrow> Inl e)
    | _ \<Rightarrow> Inl TypeMismatch)"

text \<open>
  \<open>Decoder.Decode\<close> with \<open>DisallowUnknownFields\<close>: the first value of the body; \<open>fails\<close> tells that
  reading beyond the text fails. \<open>json.Unmarshal\<close>: the whole text.
\<close>

definition json_Decode :: "(string \<times> 'r slot) list \<Rightarrow> 'r \<Rightarrow> string \<Rightarrow> bool \<Rightarrow> json_error + 'r" where
  "json_Decode fields zero body fails = (case scan_value body of
      Inr (v, rest) \<Rightarrow> decode_struct True fields zero v
    | Inl e \<Rightarrow> Inl (if e \<noteq> UnexpectedEOF then e else if fails then ReadErr else if list_all json_space body then EOFErr else e))"

definition json_Unmarshal :: "(string \<times> 'r slot) list \<Rightarrow> 'r \<Rightarrow> string \<Rightarrow> json_error + 'r" where
  "json_Unmarshal fields zero s = (case scan_all s of Inl e \<Rightarrow> Inl e | Inr v \<Rightarrow> decode_struct False fields zero v)"

section \<open>Encoded strings are read back\<close>

lemma hex_value_digit [simp]: "hex_value (hex_digit m) = Some (m mod 16)"
proof -
  have "\<forall>k \<in> {..<16}. hex_value (''0123456789abcdef'' ! k) = Some k" by code_simp
  then show ?thesis by (simp add: hex_digit_def)
qed

lemma u4_byte: "n < 256 \<Longrightarrow> u4 (CHR ''0'' # CHR ''0'' # hex_digit (n div 16) # hex_digit n # t) = Some n"
proof -
  assume "n < 256"
  then have "n div 16 mod 16 = n div 16" by simp
  moreover have "hex_value (CHR ''0'') = Some 0" by code_simp
  ultimately show ?thesis by (simp add: mult.commute)
qed

lemma utf8_encode_byte: "(of_char c :: nat) < 0x80 \<Longrightarrow> utf8_encode (of_char c) = [c]"
  by (simp add: utf8_encode_def)

lemma unquote_Nil [simp]: "unquote [] = []"
  by (simp add: unquote.simps)

lemma unquote_escape: "d \<noteq> CHR ''u'' \<Longrightarrow> unquote (CHR 0x5C # d # t) = json_unescape d # unquote t"
  by (simp add: unquote.simps)

lemma unquote_u4:
  "u4 t = Some n \<Longrightarrow> \<not> surrogate n \<Longrightarrow> unquote (CHR 0x5C # CHR ''u'' # t) = utf8_encode n @ unquote (drop 4 t)"
  by (simp add: unquote.simps)

lemma utf8_len_append:
  "utf8_len s = Some n \<Longrightarrow> n \<le> length s \<and> utf8_len (take n s @ t) = Some n \<and> (\<forall>c \<in> set (take n s). n = 1 \<or> 0x80 \<le> (of_char c :: nat))"
  by (cases s) (auto simp: Let_def continues_def split: if_splits list.splits)

lemma of_char_eq: "(of_char c :: nat) = of_char d \<longleftrightarrow> c = d"
  by simp

lemma unquote_rune:
  assumes "utf8_len s = Some n" and "hd s \<noteq> CHR 0x5C"
  shows "unquote (take n s @ t) = take n s @ unquote t"
proof -
  note u = utf8_len_append [OF assms(1), of t]
  obtain c s' where s: "s = c # s'" using assms(1) by (cases s) auto
  obtain m where n: "n = Suc m" using utf8_len_pos [OF assms(1)] by (cases n) auto
  have "take n s @ t = c # (take m s' @ t)" by (simp add: s n)
  then have "unquote (take n s @ t) = take n (take n s @ t) @ unquote (drop n (take n s @ t))"
    using u assms(2) by (simp add: unquote.simps s del: utf8_len.simps take_append)
  then show ?thesis using u by (simp add: min_absorb1)
qed

lemma json_byte_cases:
  assumes "(of_char c :: nat) < 0x80"
  obtains d where "json_byte c = [CHR 0x5C, d]" "json_unescape d = c" "d \<in> set [CHR ''b'', CHR ''f'', CHR ''n'', CHR ''r'', CHR ''t'', CHR 0x5C, CHR 0x22]"
    | "json_byte c = CHR 0x5C # ''u00'' @ [hex_digit (of_char c div 16), hex_digit (of_char c)]"
    | "json_byte c = [c]" "c \<noteq> CHR 0x5C" "c \<noteq> CHR 0x22" "0x20 \<le> (of_char c :: nat)"
proof -
  let ?special = "[CHR 0x22, CHR 0x5C, CHR 0x08, CHR 0x0C, CHR 0x0A, CHR 0x0D, CHR 0x09]"
  have short: "\<forall>c \<in> set ?special. \<exists>d \<in> set [CHR ''b'', CHR ''f'', CHR ''n'', CHR ''r'', CHR ''t'', CHR 0x5C, CHR 0x22].
      json_byte c = [CHR 0x5C, d] \<and> json_unescape d = c" by code_simp
  have codes: "c \<in> set ?special" if "(of_char c :: nat) \<in> {34, 92, 8, 12, 10, 13, 9}"
  proof -
    have "of_char c = n \<Longrightarrow> c = char_of n" for n :: nat by auto
    moreover have "\<forall>n \<in> set [34, 92, 8, 12, 10, 13, 9 :: nat]. char_of n \<in> set ?special" by code_simp
    ultimately show ?thesis using that by (metis insert_iff empty_iff list.set)
  qed
  consider "c \<in> set ?special" | "(of_char c :: nat) \<notin> {34, 92, 8, 12, 10, 13, 9}" "(of_char c :: nat) < 32 \<or> c \<in> set ''<>&''"
    | "c \<notin> set ?special" "(of_char c :: nat) \<notin> {34, 92, 8, 12, 10, 13, 9}" "\<not> ((of_char c :: nat) < 32 \<or> c \<in> set ''<>&'')"
    using codes by blast
  then show thesis
  proof cases
    case 1
    with short show thesis by (metis that(1))
  next
    case 2
    then show thesis by (intro that(2)) (simp add: json_byte_def Let_def)
  next
    case 3
    then show thesis by (intro that(3)) (simp_all add: json_byte_def Let_def)
  qed
qed

lemma scan_plain:
  "c \<noteq> CHR 0x22 \<Longrightarrow> c \<noteq> CHR 0x5C \<Longrightarrow> 0x20 \<le> (of_char c :: nat) \<Longrightarrow>
     scan (InString k raw) fs (c # cs) = scan (InString k (c # raw)) fs cs"
  by (simp add: scan_step_def)

lemma scan_plains:
  "\<forall>c \<in> set xs. 0x80 \<le> (of_char c :: nat) \<Longrightarrow> scan (InString k raw) fs (xs @ cs) = scan (InString k (rev xs @ raw)) fs cs"
proof (induction xs arbitrary: raw)
  case (Cons x xs)
  have "x \<noteq> CHR 0x22" "x \<noteq> CHR 0x5C" "0x20 \<le> (of_char x :: nat)" using Cons.prems by auto
  with Cons show ?case by (simp add: scan_plain del: scan.simps)
qed simp

lemma scan_u4:
  "list_all (\<lambda>c. hex_value c \<noteq> None) [a, b, c, d] \<Longrightarrow> scan (InString k raw) fs (CHR 0x5C # CHR ''u'' # a # b # c # d # cs)
     = scan (InString k (d # c # b # a # CHR ''u'' # CHR 0x5C # raw)) fs cs"
  by (clarsimp simp: scan_step_def)

lemma hex_value_zero: "hex_value (CHR ''0'') = Some 0"
  by code_simp

lemma scan_json_byte:
  assumes "(of_char c :: nat) < 0x80"
  shows "scan (InString k raw) fs (json_byte c @ cs) = scan (InString k (rev (json_byte c) @ raw)) fs cs"
  using assms
proof (cases rule: json_byte_cases)
  case (1 d)
  have "scan (InString k raw) fs ([CHR 0x5C, d] @ cs) = scan (InString k (d # CHR 0x5C # raw)) fs cs"
    using 1(3) by (auto simp: scan_step_def)
  with 1 show ?thesis by (simp del: scan.simps)
next
  case 2
  then show ?thesis by (simp add: scan_u4 hex_value_zero del: scan.simps)
next
  case 3
  then show ?thesis by (simp add: scan_plain del: scan.simps)
qed

lemma unquote_json_byte:
  assumes "(of_char c :: nat) < 0x80"
  shows "unquote (json_byte c @ t) = c # unquote t"
  using assms
proof (cases rule: json_byte_cases)
  case (1 d)
  have "d \<noteq> CHR ''u''" using 1(3) by auto
  with 1 show ?thesis by (simp add: unquote_escape)
next
  case 2
  have "unquote (CHR 0x5C # CHR ''u'' # CHR ''0'' # CHR ''0'' # hex_digit (of_char c div 16) # hex_digit (of_char c) # t)
      = utf8_encode (of_char c) @ unquote t"
    using assms by (subst unquote_u4 [OF u4_byte]) (simp_all add: surrogate_def)
  then show ?thesis using 2 assms by (simp add: utf8_encode_byte)
next
  case 3
  have "utf8_len [c] = Some 1" using assms by simp
  from unquote_rune [OF this, of t] 3 show ?thesis by simp
qed

text \<open>A text with every byte that is not part of a valid UTF-8 sequence replaced.\<close>

function utf8_clean :: "string \<Rightarrow> string" where
  "utf8_clean [] = []"
| "utf8_clean (c # s) = (case utf8_len (c # s) of
      None \<Rightarrow> replacement @ utf8_clean s
    | Some n \<Rightarrow> take n (c # s) @ utf8_clean (drop n (c # s)))"
  by pat_completeness auto
termination
  by (relation "measure length") (auto simp del: utf8_len.simps dest!: utf8_len_pos)

declare utf8_clean.simps [simp del] json_chars.simps [simp del]

lemma json_chars_wide:
  assumes "0x80 \<le> (of_char c :: nat)"
  shows "utf8_len (c # s) = None \<Longrightarrow> json_chars (c # s) = CHR 0x5C # ''ufffd'' @ json_chars s"
    "utf8_len (c # s) = Some n \<Longrightarrow> json_chars (c # s) = (if take n (c # s) = [CHR 0xE2, CHR 0x80, CHR 0xA8] then CHR 0x5C # ''u2028''
        else if take n (c # s) = [CHR 0xE2, CHR 0x80, CHR 0xA9] then CHR 0x5C # ''u2029''
        else take n (c # s)) @ json_chars (drop n (c # s))"
proof -
  have "\<not> (of_char c :: nat) < 0x80" using assms by simp
  then show "utf8_len (c # s) = None \<Longrightarrow> json_chars (c # s) = CHR 0x5C # ''ufffd'' @ json_chars s"
    "utf8_len (c # s) = Some n \<Longrightarrow> json_chars (c # s) = (if take n (c # s) = [CHR 0xE2, CHR 0x80, CHR 0xA8] then CHR 0x5C # ''u2028''
        else if take n (c # s) = [CHR 0xE2, CHR 0x80, CHR 0xA9] then CHR 0x5C # ''u2029''
        else take n (c # s)) @ json_chars (drop n (c # s))"
    unfolding json_chars.simps(2) by (simp_all only: if_False option.case)
qed

lemma utf8_clean_wide:
  "utf8_len (c # s) = None \<Longrightarrow> utf8_clean (c # s) = replacement @ utf8_clean s"
  "utf8_len (c # s) = Some n \<Longrightarrow> utf8_clean (c # s) = take n (c # s) @ utf8_clean (drop n (c # s))"
  unfolding utf8_clean.simps(2) by (simp_all only: option.case)

lemma utf8_clean_ascii: "(of_char c :: nat) < 0x80 \<Longrightarrow> utf8_clean (c # s) = c # utf8_clean s"
  by (subst utf8_clean_wide(2) [of _ _ 1]) simp_all

lemma separators_encode: "utf8_encode 0x2028 = [CHR 0xE2, CHR 0x80, CHR 0xA8]" "utf8_encode 0x2029 = [CHR 0xE2, CHR 0x80, CHR 0xA9]"
  "utf8_encode 0xFFFD = replacement"
proof -
  have "\<forall>(n, c) \<in> set [(0xE2 :: nat, CHR 0xE2), (0x80, CHR 0x80), (0xA8, CHR 0xA8), (0xA9, CHR 0xA9), (0xEF, CHR 0xEF), (0xBF, CHR 0xBF), (0xBD, CHR 0xBD)].
      char_of n = c" by code_simp
  then show "utf8_encode 0x2028 = [CHR 0xE2, CHR 0x80, CHR 0xA8]" "utf8_encode 0x2029 = [CHR 0xE2, CHR 0x80, CHR 0xA9]"
    "utf8_encode 0xFFFD = replacement"
    by (simp_all add: utf8_encode_def replacement_def)
qed

lemma u4_specials: "u4 (''fffd'' @ t) = Some 0xFFFD" "u4 (''2028'' @ t) = Some 0x2028" "u4 (''2029'' @ t) = Some 0x2029"
proof -
  have "hex_value (CHR ''f'') = Some 15" "hex_value (CHR ''d'') = Some 13" "hex_value (CHR ''2'') = Some 2"
    "hex_value (CHR ''0'') = Some 0" "hex_value (CHR ''8'') = Some 8" "hex_value (CHR ''9'') = Some 9" by code_simp+
  then show "u4 (''fffd'' @ t) = Some 0xFFFD" "u4 (''2028'' @ t) = Some 0x2028" "u4 (''2029'' @ t) = Some 0x2029" by simp_all
qed

lemma unquote_special:
  "unquote (CHR 0x5C # ''ufffd'' @ t) = replacement @ unquote t"
  "unquote (CHR 0x5C # ''u2028'' @ t) = [CHR 0xE2, CHR 0x80, CHR 0xA8] @ unquote t"
  "unquote (CHR 0x5C # ''u2029'' @ t) = [CHR 0xE2, CHR 0x80, CHR 0xA9] @ unquote t"
  using u4_specials [of t, THEN unquote_u4] by (simp_all add: surrogate_def separators_encode)

lemma scan_special:
  "h \<in> set [''fffd'', ''2028'', ''2029''] \<Longrightarrow> scan (InString k raw) fs (CHR 0x5C # CHR ''u'' # h @ cs)
     = scan (InString k (rev (CHR 0x5C # CHR ''u'' # h) @ raw)) fs cs"
proof -
  have "\<forall>h \<in> set [''fffd'', ''2028'', ''2029'']. list_all (\<lambda>c. hex_value c \<noteq> None) h" by code_simp
  then show "h \<in> set [''fffd'', ''2028'', ''2029''] \<Longrightarrow> ?thesis"
    by (auto simp: scan_u4 simp del: scan.simps)
qed

text \<open>The encoder's text of a string: the scanner accepts it up to the closing quote, and it is read back.\<close>

lemma scan_json_chars: "scan (InString k raw) fs (json_chars s @ cs) = scan (InString k (rev (json_chars s) @ raw)) fs cs"
proof (induction "length s" arbitrary: s raw rule: less_induct)
  case less
  show ?case
  proof (cases s)
    case (Cons c t)
    show ?thesis
    proof (cases "(of_char c :: nat) < 0x80")
      case True
      then have "json_chars s = json_byte c @ json_chars t" unfolding Cons json_chars.simps(2) by (simp only: if_True)
      with less [of t] Cons True show ?thesis by (simp add: scan_json_byte del: scan.simps)
    next
      case False
      then have wide: "0x80 \<le> (of_char c :: nat)" by simp
      show ?thesis
      proof (cases "utf8_len s")
        case None
        with less [of t] Cons wide scan_special [of "''fffd''"] show ?thesis by (simp add: json_chars_wide(1) del: scan.simps utf8_len.simps)
      next
        case (Some n)
        let ?r = "if take n s = [CHR 0xE2, CHR 0x80, CHR 0xA8] then CHR 0x5C # ''u2028''
          else if take n s = [CHR 0xE2, CHR 0x80, CHR 0xA9] then CHR 0x5C # ''u2029'' else take n s"
        have json: "json_chars s = ?r @ json_chars (drop n s)" using json_chars_wide(2) [OF wide] Some unfolding Cons by blast
        have "length (drop n s) < length s" using utf8_len_pos [OF Some] Cons by simp
        note IH = less [OF this]
        have "\<forall>d \<in> set (take n s). 0x80 \<le> (of_char d :: nat)" using utf8_len_append [OF Some] Some wide False
          by (cases "n = 1") (auto simp: Cons simp del: utf8_len.simps)
        then have "scan (InString k raw) fs (?r @ zs) = scan (InString k (rev ?r @ raw)) fs zs" for zs
          using scan_special [of "''2028''"] scan_special [of "''2029''"] by (simp add: scan_plains del: scan.simps)
        then show ?thesis unfolding json by (simp add: IH del: scan.simps)
      qed
    qed
  qed (simp add: json_chars.simps)
qed

lemma unquote_json_chars: "unquote (json_chars s) = utf8_clean s"
proof (induction "length s" arbitrary: s rule: less_induct)
  case less
  show ?case
  proof (cases s)
    case (Cons c t)
    show ?thesis
    proof (cases "(of_char c :: nat) < 0x80")
      case True
      then have "json_chars s = json_byte c @ json_chars t" unfolding Cons json_chars.simps(2) by (simp only: if_True)
      with less [of t] Cons True show ?thesis by (simp add: unquote_json_byte utf8_clean_ascii)
    next
      case False
      then have wide: "0x80 \<le> (of_char c :: nat)" by simp
      show ?thesis
      proof (cases "utf8_len s")
        case None
        with less [of t] Cons wide unquote_special(1) show ?thesis
          by (simp add: json_chars_wide(1) utf8_clean_wide(1) del: utf8_len.simps)
      next
        case (Some n)
        have "length (drop n s) < length s" using utf8_len_pos [OF Some] Cons by simp
        note IH = less [OF this]
        have "c \<noteq> CHR 0x5C" using wide by auto
        then have "unquote (take n s @ z) = take n s @ unquote z" for z using unquote_rune [OF Some] Cons by simp
        moreover have "json_chars s = (if take n s = [CHR 0xE2, CHR 0x80, CHR 0xA8] then CHR 0x5C # ''u2028''
          else if take n s = [CHR 0xE2, CHR 0x80, CHR 0xA9] then CHR 0x5C # ''u2029'' else take n s) @ json_chars (drop n s)"
          using json_chars_wide(2) [OF wide] Some unfolding Cons by blast
        moreover have "utf8_clean s = take n s @ utf8_clean (drop n s)" using utf8_clean_wide(2) Some unfolding Cons by blast
        ultimately show ?thesis using IH unquote_special(2,3) by (simp add: Cons [symmetric] split: if_splits)
      qed
    qed
  qed (simp add: json_chars.simps utf8_clean.simps)
qed

lemma utf8_clean_id: "list_all (\<lambda>c. (of_char c :: nat) < 0x80) s \<Longrightarrow> utf8_clean s = s"
  by (induction s) (simp_all add: utf8_clean_ascii, simp add: utf8_clean.simps)

interpretation json_text: codec json_chars "\<lambda>t. Some (unquote t)" "\<lambda>s. utf8_clean s = s"
  by unfold_locales (simp add: unquote_json_chars)

lemma scan_member:
  "scan (AtKey b) (FObj ms x # fs) (json_string k @ '':'' @ json_string v @ cs)
     = scan AfterValue (FObj ((utf8_clean k, JString (json_chars v)) # ms) (utf8_clean k) # fs) cs"
proof -
  have q: "scan (AtKey b) (FObj ms x # fs) (CHR 0x22 # zs) = scan (InString True []) (FObj ms x # fs) zs" for zs
    by (simp add: scan_step_def begin_key_def json_space_def)
  have k: "scan (InString True (rev (json_chars k))) (FObj ms x # fs) (CHR 0x22 # CHR '':'' # CHR 0x22 # zs)
      = scan (InString False []) (FObj ms (utf8_clean k) # fs) zs" for zs
    by (simp add: scan_step_def end_string_def begin_value_def json_space_def unquote_json_chars)
  have v: "scan (InString False (rev (json_chars v))) (FObj ms y # fs) (CHR 0x22 # zs)
      = scan AfterValue (FObj ((y, JString (json_chars v)) # ms) y # fs) zs" for y zs
    by (simp add: scan_step_def end_string_def)
  show ?thesis by (simp add: json_string_def q scan_json_chars k v del: scan.simps)
qed

abbreviation json_members :: "(string \<times> string) list \<Rightarrow> string list" where
  "json_members m \<equiv> map (\<lambda>(k, v). json_string k @ '':'' @ json_string v) m"

lemma scan_members:
  "m \<noteq> [] \<Longrightarrow> scan (AtKey b) [FObj ms x] (Join (json_members m) '','' @ ''}'' @ cs)
     = Inr (JObject (rev ms @ map (\<lambda>(k, v). (utf8_clean k, JString (json_chars v))) m), cs)"
proof (induction m arbitrary: b ms x)
  case (Cons e m)
  obtain k v where e: "e = (k, v)" by force
  show ?case
  proof (cases m)
    case Nil
    then show ?thesis using scan_member [of b ms x "[]" k v "CHR ''}'' # cs"]
      by (simp add: e scan_step_def after_value_def json_space_def)
  next
    case (Cons e' m')
    have "scan AfterValue (FObj ns y # fs) (CHR '','' # zs) = scan (AtKey False) (FObj ns y # fs) zs" for ns y fs zs
      by (simp add: scan_step_def after_value_def json_space_def)
    then show ?thesis using Cons.IH Cons by (simp add: e scan_member [simplified] del: scan.simps)
  qed
qed simp

text \<open>A marshalled map of strings is read back: its members in the order of their keys.\<close>

lemma scan_json_object:
  "scan_all (json_object m) = Inr (JObject (map (\<lambda>(k, v). (utf8_clean k, JString (json_chars v))) (sort_key fst m)))"
proof -
  have "scan_value (json_object m) = Inr (JObject (map (\<lambda>(k, v). (utf8_clean k, JString (json_chars v))) (sort_key fst m)), [])"
  proof (cases "sort_key fst m")
    case Nil
    then show ?thesis
      by (simp add: scan_value_def json_object_def scan_step_def begin_value_def begin_key_def json_space_def push_frame_def maxNestingDepth_def)
  next
    case (Cons e m')
    have "scan_value (CHR ''{'' # zs) = scan (AtKey True) [FObj [] []] zs" for zs
      by (simp add: scan_value_def scan_step_def begin_value_def json_space_def push_frame_def maxNestingDepth_def)
    then show ?thesis using scan_members [of "sort_key fst m" True "[]" "[]" "[]"] Cons by (simp add: json_object_def)
  qed
  then show ?thesis by (simp add: scan_all_def)
qed

section \<open>Unknown fields are refused\<close>

lemma decode_members_unknown:
  "k \<in> fst ` set ms \<Longrightarrow> field_slot fields k = None \<Longrightarrow> decode_members True fields ms r = Inr (r', err) \<Longrightarrow> err \<noteq> None"
proof (induction ms arbitrary: r r' err)
  case (Cons m ms)
  obtain k' v where m: "m = (k', v)" by force
  obtain r1 e1 e2 where first: "(case field_slot fields k' of None \<Rightarrow> Inr (r, if True then Some (UnknownField k') else None) | Some s \<Rightarrow> s v r) = Inr (r1, e1)"
    and rest: "decode_members True fields ms r1 = Inr (r', e2)" and err: "err = earlier_error e1 e2"
    using Cons.prems(3) by (auto simp: m split: sum.splits prod.splits)
  show ?case
  proof (cases "k' = k")
    case True
    then have "e1 \<noteq> None" using first Cons.prems(2) by auto
    then show ?thesis by (auto simp: err earlier_error_def)
  next
    case False
    then have "e2 \<noteq> None" using Cons.prems(1,2) by (intro Cons.IH [OF _ _ rest]) (auto simp: m)
    then show ?thesis by (auto simp: err earlier_error_def split: option.splits)
  qed
qed simp

lemma decode_struct_unknown:
  assumes "k \<in> fst ` set ms" and "field_slot fields k = None"
  shows "\<exists>e. decode_struct True fields zero (JObject ms) = Inl e"
  using decode_members_unknown [OF assms, of zero]
  by (fastforce simp: decode_struct_def split: sum.splits option.splits prod.splits)

lemma field_slot_None: "foldName k \<notin> foldName ` fst ` set fields \<Longrightarrow> field_slot fields k = None"
  by (force simp: field_slot_def map_of_eq_None_iff split: option.splits dest!: map_of_SomeD)

end
