(* ===== verification/Billing.thy ===== *)
theory Billing
  imports Invariants Users_Provisioning Json
begin

text \<open>
  \<open>internal/service/billing.go\<close>: billing webhooks. The payload is decoded by \<open>json.Unmarshal\<close>
  with the tables of tagged fields of the event and its two payloads; the text of a decoding error
  is an argument of \<open>Process\<close>.
\<close>

section \<open>Signatures\<close>

definition hmac_Equal :: "byte list \<Rightarrow> byte list \<Rightarrow> bool" where
  "hmac_Equal a b \<longleftrightarrow> ConstantTimeCompare a b = 1"

definition VerifySignature :: "string \<Rightarrow> byte list \<Rightarrow> string \<Rightarrow> bool" where
  "VerifySignature secret body signature =
     (if secret = [] \<or> signature = [] then False
      else hmac_Equal (bytes (hex_EncodeToString (hmac_Sum (bytes secret) body))) (bytes signature))"

section \<open>Events\<close>

record provision_payload =
  pp_Email :: string
  pp_PlanID :: "string option"
  pp_InboundIDs :: slice
  pp_DataLimitBytes :: "int64 option"
  pp_ExpiresAt :: "time option"
  pp_Note :: string

record renew_payload =
  rp_Days :: int
  rp_ResetTraffic :: bool
  rp_PlanID :: "string option"

record billing_event =
  be_EventID :: string
  be_Action :: string
  be_ExternalID :: string
  be_Email :: string
  be_Provision :: "provision_payload option"
  be_Renew :: "renew_payload option"

record billing_result =
  br_Duplicate :: bool
  br_Action :: string
  br_User :: "user option"

text \<open>The tagged fields of the structs and their zero values.\<close>

definition provision_zero :: provision_payload where
  "provision_zero = \<lparr>pp_Email = [], pp_PlanID = None, pp_InboundIDs = None, pp_DataLimitBytes = None, pp_ExpiresAt = None, pp_Note = []\<rparr>"

definition provision_fields :: "(string \<times> provision_payload slot) list" where
  "provision_fields =
     [(''email'', plain_field as_string (\<lambda>s p. p\<lparr>pp_Email := s\<rparr>)),
      (''plan_id'', pointer_field as_string (\<lambda>s p. p\<lparr>pp_PlanID := s\<rparr>)),
      (''inbound_ids'', strings_field pp_InboundIDs (\<lambda>ss p. p\<lparr>pp_InboundIDs := ss\<rparr>)),
      (''data_limit_bytes'', pointer_field as_int64 (\<lambda>n p. p\<lparr>pp_DataLimitBytes := n\<rparr>)),
      (''expires_at'', time_field (\<lambda>t p. p\<lparr>pp_ExpiresAt := t\<rparr>)),
      (''note'', plain_field as_string (\<lambda>s p. p\<lparr>pp_Note := s\<rparr>))]"

definition renew_zero :: renew_payload where
  "renew_zero = \<lparr>rp_Days = 0, rp_ResetTraffic = False, rp_PlanID = None\<rparr>"

definition renew_fields :: "(string \<times> renew_payload slot) list" where
  "renew_fields =
     [(''days'', plain_field as_int (\<lambda>n p. p\<lparr>rp_Days := n\<rparr>)),
      (''reset_traffic'', plain_field as_bool (\<lambda>b p. p\<lparr>rp_ResetTraffic := b\<rparr>)),
      (''plan_id'', pointer_field as_string (\<lambda>s p. p\<lparr>rp_PlanID := s\<rparr>))]"

definition event_zero :: billing_event where
  "event_zero = \<lparr>be_EventID = [], be_Action = [], be_ExternalID = [], be_Email = [], be_Provision = None, be_Renew = None\<rparr>"

definition event_fields :: "(string \<times> billing_event slot) list" where
  "event_fields =
     [(''event_id'', plain_field as_string (\<lambda>s e. e\<lparr>be_EventID := s\<rparr>)),
      (''action'', plain_field as_string (\<lambda>s e. e\<lparr>be_Action := s\<rparr>)),
      (''external_id'', plain_field as_string (\<lambda>s e. e\<lparr>be_ExternalID := s\<rparr>)),
      (''email'', plain_field as_string (\<lambda>s e. e\<lparr>be_Email := s\<rparr>)),
      (''provision'', struct_field False provision_fields provision_zero be_Provision (\<lambda>p e. e\<lparr>be_Provision := p\<rparr>)),
      (''renew'', struct_field False renew_fields renew_zero be_Renew (\<lambda>p e. e\<lparr>be_Renew := p\<rparr>))]"

definition decode_event :: "byte list \<Rightarrow> json_error + billing_event" where
  "decode_event raw = json_Unmarshal event_fields event_zero (text_of raw)"

definition billing_actions :: "string list" where
  "billing_actions = [''provision'', ''renew'', ''suspend'', ''resume'', ''cancel'']"

definition resolveUser :: "billing_event \<Rightarrow> ('x, user) io" where
  "resolveUser ev =
     (if be_ExternalID ev \<noteq> [] then
        onErr (UserRef (''user with external_id '' @ quote (be_ExternalID ev))) (GetUserByExternalID (be_ExternalID ev))
      else if be_Email ev \<noteq> [] then
        onErr (UserRef (''user with email '' @ quote (be_Email ev))) (GetUserByEmail (be_Email ev))
      else raise (Validationf ''external_id or email is required''))"

definition withUser :: "billing_event \<Rightarrow> (string \<Rightarrow> ('x, user) io) \<Rightarrow> ('x, user) io" where
  "withUser ev fn = bindE (resolveUser ev) (\<lambda>u. fn (u_ID u))"

definition billing_provision :: "billing_event \<Rightarrow> ('x, user) io" where
  "billing_provision ev = (case be_Provision ev of
      None \<Rightarrow> raise (Validationf ''provision payload is required'')
    | Some p \<Rightarrow>
        if be_ExternalID ev = [] then raise (Validationf ''external_id is required for provision'')
        else bindE (attempt (GetUserByExternalID (be_ExternalID ev))) (\<lambda>r. case r of
            Inr u \<Rightarrow> ret u
          | Inl err \<Rightarrow> if \<not> errors_Is err NotFoundS then raise err
              else UserService_Create \<lparr>ci_Email = pp_Email p, ci_PlanID = pp_PlanID p, ci_InboundIDs = elems (pp_InboundIDs p),
                ci_DataLimitBytes = pp_DataLimitBytes p, ci_ExpiresAt = pp_ExpiresAt p, ci_Note = pp_Note p,
                ci_ExternalID = Some (be_ExternalID ev)\<rparr>))"

definition billing_renew :: "billing_event \<Rightarrow> ('x, user) io" where
  "billing_renew ev = (case be_Renew ev of
      None \<Rightarrow> raise (Validationf ''renew payload is required'')
    | Some r \<Rightarrow> bindE (resolveUser ev) (\<lambda>u. UserService_Renew (u_ID u)
        \<lparr>rn_Days = rp_Days r, rn_ResetTraffic = rp_ResetTraffic r, rn_PlanID = rp_PlanID r\<rparr>))"

definition billing_cancel :: "billing_event \<Rightarrow> ('x, unit) io" where
  "billing_cancel ev = bindE (resolveUser ev) (\<lambda>u. bindE (UserService_Suspend (u_ID u)) (\<lambda>_. ret ()))"

text \<open>The second \<open>switch\<close> of \<open>Process\<close>.\<close>

definition execute :: "billing_event \<Rightarrow> ('x, user option) io" where
  "execute ev =
     (if be_Action ev = ''provision'' then bindE (billing_provision ev) (\<lambda>u. ret (Some u))
      else if be_Action ev = ''renew'' then bindE (billing_renew ev) (\<lambda>u. ret (Some u))
      else if be_Action ev = ''suspend'' then bindE (withUser ev UserService_Suspend) (\<lambda>u. ret (Some u))
      else if be_Action ev = ''resume'' then bindE (withUser ev UserService_Resume) (\<lambda>u. ret (Some u))
      else bindE (billing_cancel ev) (\<lambda>_. ret None))"

definition process_event :: "billing_event \<Rightarrow> ('x, billing_result) io" where
  "process_event ev =
     (if be_EventID ev = [] then raise (Validationf ''event_id is required'')
      else if be_Action ev \<notin> set billing_actions
        then raise (Validationf ''action must be provision|renew|suspend|resume|cancel'')
      else bindE (RecordWebhookEvent (be_EventID ev) (be_Action ev)) (\<lambda>fresh.
        if \<not> fresh then ret \<lparr>br_Duplicate = True, br_Action = be_Action ev, br_User = None\<rparr>
        else bindE (execute ev) (\<lambda>u. ret \<lparr>br_Duplicate = False, br_Action = be_Action ev, br_User = u\<rparr>)))"

definition BillingService_Process :: "(json_error \<Rightarrow> string) \<Rightarrow> byte list \<Rightarrow> ('x, billing_result) io" where
  "BillingService_Process err_text raw = (case decode_event raw of
      Inl err \<Rightarrow> raise (Validationf (''invalid JSON: '' @ err_text err))
    | Inr ev \<Rightarrow> process_event ev)"

section \<open>Signatures are checked exactly\<close>

lemma hex_EncodeToString_Nil: "hex_EncodeToString bs = [] \<longleftrightarrow> bs = []"
  by (cases bs) (auto simp: hex_EncodeToString_def hex_byte_def)

lemma VerifySignature_iff:
  "VerifySignature secret body signature \<longleftrightarrow>
     secret \<noteq> [] \<and> signature \<noteq> [] \<and> signature = hex_EncodeToString (hmac_Sum (bytes secret) body)"
  unfolding VerifySignature_def hmac_Equal_def ConstantTimeCompare_iff by (auto dest: arg_cong [where f = text_of])

text \<open>A webhook's signature is accepted exactly when a secret is configured and the signature is
  the lower-case hexadecimal HMAC-SHA256 of the body under it.\<close>

lemma VerifySignature_exact:
  "VerifySignature secret body signature \<longleftrightarrow> secret \<noteq> [] \<and> signature = hex_EncodeToString (hmac_Sum (bytes secret) body)"
proof -
  have "hex_EncodeToString (hmac_Sum (bytes secret) body) \<noteq> []"
    using length_hmac [of "bytes secret" body] by (auto simp: hex_EncodeToString_Nil)
  then show ?thesis by (auto simp: VerifySignature_iff)
qed


section \<open>An event is executed at most once\<close>

lemma keeps_execute [pres]: "preserves (recorded e) (execute ev)" "keeps idle (execute ev)"
proof -
  have lookups: "keeps idle (GetUserByExternalID x)" "keeps idle (GetUserByEmail x)" for x
    unfolding store_defs by (intro pres)+
  show "preserves (recorded e) (execute ev)"
    unfolding execute_def billing_provision_def billing_renew_def billing_cancel_def withUser_def resolveUser_def
    by (intro pres)
  show "keeps idle (execute ev)"
    unfolding execute_def billing_provision_def billing_renew_def billing_cancel_def withUser_def resolveUser_def
    by (intro pres lookups)
qed

lemma RecordWebhookEvent_quiet:
  assumes "w_sched w = []"
  shows "RecordWebhookEvent e x w = (if recorded e (w_db w) then (Inr False, w)
    else (Inr True, w\<lparr>w_db := (w_db w)\<lparr>db_webhook_events := db_webhook_events (w_db w)
       @ [\<lparr>we_ID = e, we_Action = x, we_ReceivedAt = w_now w\<rparr>]\<rparr>\<rparr>))"
  using assms by (auto simp: RecordWebhookEvent_def bindE_def exec_quiet insert_webhook_event_def recorded_def ret_def)

definition accepted :: "billing_event \<Rightarrow> bool" where
  "accepted ev \<longleftrightarrow> be_EventID ev \<noteq> [] \<and> be_Action ev \<in> set billing_actions"

lemma process_event_quiet:
  assumes "w_sched w = []" and "accepted ev"
  shows "process_event ev w = (if recorded (be_EventID ev) (w_db w)
    then (Inr \<lparr>br_Duplicate = True, br_Action = be_Action ev, br_User = None\<rparr>, w)
    else bindE (execute ev) (\<lambda>u. ret \<lparr>br_Duplicate = False, br_Action = be_Action ev, br_User = u\<rparr>)
      (w\<lparr>w_db := (w_db w)\<lparr>db_webhook_events := db_webhook_events (w_db w)
         @ [\<lparr>we_ID = be_EventID ev, we_Action = be_Action ev, we_ReceivedAt = w_now w\<rparr>]\<rparr>\<rparr>))"
  using assms by (simp add: process_event_def accepted_def bindE_def RecordWebhookEvent_quiet ret_def)

lemma process_event_records:
  assumes q: "w_sched w = []" and ev: "accepted ev" and run: "process_event ev w = (r, w1)"
  shows "w_sched w1 = [] \<and> recorded (be_EventID ev) (w_db w1)"
proof (cases "recorded (be_EventID ev) (w_db w)")
  case True
  with q ev run show ?thesis by (simp add: process_event_quiet)
next
  case False
  let ?w = "w\<lparr>w_db := (w_db w)\<lparr>db_webhook_events := db_webhook_events (w_db w)
         @ [\<lparr>we_ID = be_EventID ev, we_Action = be_Action ev, we_ReceivedAt = w_now w\<rparr>]\<rparr>\<rparr>"
  let ?m = "bindE (execute ev) (\<lambda>u. ret \<lparr>br_Duplicate = False, br_Action = be_Action ev, br_User = u\<rparr>)"
  have w: "holdsW (recorded (be_EventID ev)) ?w" "idle ?w"
    using q by (simp_all add: holdsW_def rely_def recorded_def idle_def)
  have m: "preserves (recorded (be_EventID ev)) ?m" "keeps idle ?m" by (intro pres)+
  have "snd (?m ?w) = w1" using run unfolding process_event_quiet [OF q ev] if_not_P [OF False] by simp
  with keepsD [OF m(1) w(1)] keepsD [OF m(2) w(2)] show ?thesis by (simp add: holdsW_def idle_def)
qed

text \<open>C30: Once an event has been delivered, a second delivery with the same event id is answered as a
  duplicate and changes nothing at all, whatever the first delivery did. That includes a first
  delivery that failed: the event is recorded before it is executed, so its retry is not executed.\<close>

theorem Process_at_most_once:
  assumes q: "w_sched w = []" and first: "decode_event raw = Inr ev" "accepted ev" and run: "BillingService_Process err_text raw w = (r, w1)"
    and again: "decode_event raw' = Inr ev'" "accepted ev'" "be_EventID ev' = be_EventID ev"
  shows "BillingService_Process err_text raw' w1 = (Inr \<lparr>br_Duplicate = True, br_Action = be_Action ev', br_User = None\<rparr>, w1)"
proof -
  have "process_event ev w = (r, w1)" using run first by (simp add: BillingService_Process_def)
  from process_event_records [OF q first(2) this] again show ?thesis
    by (simp add: BillingService_Process_def process_event_quiet)
qed

text \<open>A suspension of a user that does not exist: the first delivery fails, the retry is a duplicate.\<close>

definition lost_event :: billing_event where
  "lost_event = \<lparr>be_EventID = ''e1'', be_Action = ''suspend'', be_ExternalID = ''nobody'', be_Email = '''',
     be_Provision = None, be_Renew = None\<rparr>"

definition lost_body :: "byte list" where
  "lost_body = bytes (json_object [(''event_id'', ''e1''), (''action'', ''suspend''), (''external_id'', ''nobody'')])"

lemma lost_body_event: "decode_event lost_body = Inr lost_event"
proof -
  have "json_Unmarshal event_fields event_zero (json_object [(''event_id'', ''e1''), (''action'', ''suspend''), (''external_id'', ''nobody'')])
    = Inr lost_event" by code_simp
  then show ?thesis by (simp add: decode_event_def lost_body_def)
qed

theorem Process_at_most_once_witness:
  "\<exists>e w1. BillingService_Process (\<lambda>_. []) lost_body (sample_world (\<lambda>_. ())) = (Inl e, w1) \<and> errors_Is e NotFoundS \<and>
     BillingService_Process (\<lambda>_. []) lost_body w1 = (Inr \<lparr>br_Duplicate = True, br_Action = ''suspend'', br_User = None\<rparr>, w1)"
proof -
  let ?p = "BillingService_Process (\<lambda>_. []) lost_body"
  let ?r = "?p (sample_world (\<lambda>_. ()))"
  have q: "w_sched (sample_world (\<lambda>_. ())) = []" and ok: "accepted lost_event" and act: "be_Action lost_event = ''suspend''"
    and new: "\<not> recorded (be_EventID lost_event) (w_db (sample_world (\<lambda>_. ())))"
    and none: "find (\<lambda>u. u_ExternalID u = Some ''nobody'') (db_users (w_db (sample_world (\<lambda>_. ())))) = None"
    by code_simp+
  have "\<exists>e w1. ?r = (Inl e, w1) \<and> errors_Is e NotFoundS"
    using q none unfolding BillingService_Process_def lost_body_event sum.case process_event_quiet [OF q ok] if_not_P [OF new]
    by (simp add: execute_def act withUser_def resolveUser_def lost_event_def GetUserByExternalID_def scanUser_def
        bindE_def onErr_def db_query_quiet mapErr_def)
  then have run: "?r = (Inl (projl (fst ?r)), snd ?r)" and e: "errors_Is (projl (fst ?r)) NotFoundS"
    by (metis fst_conv snd_conv sum.sel(1))+
  have "?p (snd ?r) = (Inr \<lparr>br_Duplicate = True, br_Action = ''suspend'', br_User = None\<rparr>, snd ?r)"
    using Process_at_most_once [OF q lost_body_event ok run lost_body_event ok refl] unfolding act .
  with run e show ?thesis by blast
qed


section \<open>Provisioning twice\<close>

abbreviation find_external :: "string \<Rightarrow> db \<Rightarrow> user option" where
  "find_external x d \<equiv> find (\<lambda>u. u_ExternalID u = Some x) (db_users d)"

definition note_event :: "billing_event \<Rightarrow> 'x world \<Rightarrow> 'x world" where
  "note_event ev w = w\<lparr>w_db := (w_db w)\<lparr>db_webhook_events := db_webhook_events (w_db w)
     @ [\<lparr>we_ID = be_EventID ev, we_Action = be_Action ev, we_ReceivedAt = w_now w\<rparr>]\<rparr>\<rparr>"

lemma note_event_simps [simp]:
  "w_sched (note_event ev w) = w_sched w" "db_users (w_db (note_event ev w)) = db_users (w_db w)" "w_now (note_event ev w) = w_now w"
  "find_user k (w_db (note_event ev w)) = find_user k (w_db w)"
  by (simp_all add: note_event_def find_user_def)

lemma process_fresh:
  "w_sched w = [] \<Longrightarrow> accepted ev \<Longrightarrow> \<not> recorded (be_EventID ev) (w_db w) \<Longrightarrow> process_event ev w =
     bindE (execute ev) (\<lambda>u. ret \<lparr>br_Duplicate = False, br_Action = be_Action ev, br_User = u\<rparr>) (note_event ev w)"
  by (simp add: process_event_quiet note_event_def)

lemma GetUserByExternalID_quiet [quiet]:
  "w_sched w = [] \<Longrightarrow> GetUserByExternalID x w = (case find_external x (w_db w) of None \<Rightarrow> Inl ErrNotFound | Some u \<Rightarrow> Inr u, w)"
  unfolding GetUserByExternalID_def scanUser_def by (rule find_row_quiet)

lemma find_external_wf:
  assumes "wf_db d" and "find_user uid d = Some u" and "u_ExternalID u = Some x"
  shows "find_external x d = Some u"
proof -
  have u: "u \<in> set (db_users d)" "u_ID u = uid" using find_user_in [OF assms(2)] by auto
  then obtain v where v: "find_external x d = Some v" using assms(3) by (cases "find_external x d") (auto simp: find_None_iff)
  then have "v \<in> set (db_users d)" "u_ExternalID v = Some x" by (auto dest: find_SomeD)
  then have "u_ID v = u_ID u"
    using ext_uniqueD [OF _ _ u(1) _ assms(3)] wf_dbD(4) [OF assms(1)] by (auto simp: wf_users_def)
  then have "u = v"
    using u \<open>v \<in> _\<close> wf_db_distinct(6) [OF assms(1)] by (metis distinct_map inj_onD)
  with v show ?thesis by simp
qed


lemma note_event_wf:
  assumes "wf_db (w_db w)" and "w_sched w = []" and "\<not> recorded (be_EventID ev) (w_db w)"
  shows "wf_db (w_db (note_event ev w))"
proof -
  have "snd (RecordWebhookEvent (be_EventID ev) (be_Action ev) w) = note_event ev w"
    using assms(2,3) by (simp add: RecordWebhookEvent_quiet note_event_def)
  moreover have "holdsW wf_db w" using assms(1,2) by (simp add: holdsW_def rely_def)
  ultimately show ?thesis
    using keepsD [OF schema.catalog(12), of w "be_EventID ev" "be_Action ev"] by (simp add: holdsW_def)
qed

lemma provision_known:
  assumes "w_sched w = []" and "be_Provision ev = Some p" and "be_ExternalID ev \<noteq> []"
    and "find_external (be_ExternalID ev) (w_db w) = Some u"
  shows "billing_provision ev w = (Inr u, w)"
  using assms by (simp add: billing_provision_def bindE_def attempt_def GetUserByExternalID_quiet ret_def)

lemma provision_finds:
  assumes wf: "wf_db (w_db w)" and q: "w_sched w = []" and run: "billing_provision ev w = (Inr u, w1)"
  shows "be_ExternalID ev \<noteq> [] \<and> w_sched w1 = [] \<and> find_external (be_ExternalID ev) (w_db w1) = Some u"
proof -
  obtain p where p: "be_Provision ev = Some p" and x: "be_ExternalID ev \<noteq> []"
    using run by (auto simp: billing_provision_def raise_def split: option.splits if_splits)
  show ?thesis
  proof (cases "find_external (be_ExternalID ev) (w_db w)")
    case (Some v)
    with run provision_known [OF q p x Some] q x show ?thesis by simp
  next
    case None
    let ?inp = "\<lparr>ci_Email = pp_Email p, ci_PlanID = pp_PlanID p, ci_InboundIDs = elems (pp_InboundIDs p),
       ci_DataLimitBytes = pp_DataLimitBytes p, ci_ExpiresAt = pp_ExpiresAt p, ci_Note = pp_Note p,
       ci_ExternalID = Some (be_ExternalID ev)\<rparr>"
    have create: "UserService_Create ?inp w = (Inr u, w1)"
      using run p x None q by (simp add: billing_provision_def bindE_def attempt_def GetUserByExternalID_quiet)
    have "holdsW wf_db w1" "idle w1"
      using keepsD [OF schema.user_service(1), of w ?inp] keepsD [OF idle_user_service(1), of w ?inp] wf q create
      by (simp_all add: holdsW_def rely_def idle_def)
    then have w1: "wf_db (w_db w1)" "w_sched w1 = []" by (simp_all add: holdsW_def idle_def)
    obtain v n d' w0 where "create_stmt v (filter (\<lambda>i. ib_ID i \<in> set (ci_InboundIDs ?inp)) (db_inbounds (w_db w))) n (w_db w) = Inr ((), d')"
      and d': "find_user (u_ID v) d' = Some u" "w1 = trigger_nodes (nodes_of_user (u_ID v) d') (w0\<lparr>w_db := d'\<rparr>)"
      and x': "u_ExternalID v = ci_ExternalID ?inp"
      by (rule Create_run [OF q create]) blast
    then have "u = new_user_row n v" using create_stmt_effect(2) [OF wf] by (metis option.inject)
    then have "u_ExternalID u = Some (be_ExternalID ev)" using x' by (simp add: new_user_row_def)
    with d' w1 x show ?thesis using find_external_wf [of "w_db w1"] by simp
  qed
qed

text \<open>C31: Provisioning is idempotent per external id. When a provision event has succeeded, a later
  provision event for the same external id, with another event id and any payload, returns the
  user of the first one and changes nothing but the list of received events.\<close>

theorem provision_idempotent:
  assumes wf: "wf_db (w_db w)" and q: "w_sched w = []"
    and first: "process_event ev w = (Inr res, w1)" "be_Action ev = ''provision''" "\<not> recorded (be_EventID ev) (w_db w)"
    and again: "accepted ev'" "be_Action ev' = ''provision''" "be_Provision ev' \<noteq> None" "be_ExternalID ev' = be_ExternalID ev"
      "\<not> recorded (be_EventID ev') (w_db w1)"
  shows "\<exists>u. br_User res = Some u \<and> u_ExternalID u = Some (be_ExternalID ev) \<and> process_event ev' w1 =
    (Inr \<lparr>br_Duplicate = False, br_Action = ''provision'', br_User = Some u\<rparr>, note_event ev' w1)"
proof -
  have acc: "accepted ev"
    using first(1,2) by (auto simp: process_event_def accepted_def raise_def split: if_splits)
  obtain u where run: "billing_provision ev (note_event ev w) = (Inr u, w1)" and u: "br_User res = Some u"
    using first unfolding process_fresh [OF q acc first(3)]
    by (auto simp: execute_def bindE_def ret_def split: prod.splits sum.splits)
  have known: "be_ExternalID ev \<noteq> []" "w_sched w1 = []" "find_external (be_ExternalID ev) (w_db w1) = Some u"
    using provision_finds [OF note_event_wf [OF wf q first(3)] _ run] q by auto
  obtain p where p: "be_Provision ev' = Some p" using again(3) by auto
  have "billing_provision ev' (note_event ev' w1) = (Inr u, note_event ev' w1)"
    by (rule provision_known [OF _ p]) (use known again(4) in simp_all)
  then have "process_event ev' w1 = (Inr \<lparr>br_Duplicate = False, br_Action = ''provision'', br_User = Some u\<rparr>, note_event ev' w1)"
    using again(2) by (simp add: process_fresh [OF known(2) again(1,5)] execute_def bindE_def ret_def)
  moreover have "u_ExternalID u = Some (be_ExternalID ev)" using find_SomeD [OF known(3)] by simp
  ultimately show ?thesis using u by blast
qed


definition provision_event :: "string \<Rightarrow> billing_event" where
  "provision_event e = \<lparr>be_EventID = e, be_Action = ''provision'', be_ExternalID = ''ext1'', be_Email = '''',
     be_Provision = Some \<lparr>pp_Email = ''c@x'', pp_PlanID = None, pp_InboundIDs = None, pp_DataLimitBytes = None,
       pp_ExpiresAt = None, pp_Note = ''''\<rparr>, be_Renew = None\<rparr>"

theorem provision_idempotent_witness:
  "\<exists>w2. process_event (provision_event ''e2'') (note_event (provision_event ''e1'') (sample_world (\<lambda>_. ())))
     = (Inr \<lparr>br_Duplicate = False, br_Action = ''provision'', br_User = Some sample_user\<rparr>, w2)"
proof -
  let ?w = "sample_world (\<lambda>_. ())" and ?e = provision_event
  have q: "w_sched ?w = []" and acc: "accepted (?e ''e1'')" "accepted (?e ''e2'')"
    and new: "\<not> recorded (be_EventID (?e ''e1'')) (w_db ?w)" "\<not> recorded (be_EventID (?e ''e2'')) (w_db (note_event (?e ''e1'') ?w))"
    and u: "find_external ''ext1'' (w_db ?w) = Some sample_user"
    by code_simp+
  have fields: "be_Provision (?e k) \<noteq> None" "be_ExternalID (?e k) = ''ext1''" "be_Action (?e k) = ''provision''" for k
    by (simp_all add: provision_event_def)
  then obtain p where p: "be_Provision (?e ''e1'') = Some p" by blast
  have "billing_provision (?e ''e1'') (note_event (?e ''e1'') ?w) = (Inr sample_user, note_event (?e ''e1'') ?w)"
    by (rule provision_known [OF _ p]) (use q u in \<open>simp_all add: fields\<close>)
  then have run: "process_event (?e ''e1'') ?w =
      (Inr \<lparr>br_Duplicate = False, br_Action = ''provision'', br_User = Some sample_user\<rparr>, note_event (?e ''e1'') ?w)"
    unfolding process_fresh [OF q acc(1) new(1)] by (simp add: execute_def fields bindE_def ret_def)
  have wf: "wf_db (w_db ?w)" by (simp add: wf_sample_db)
  show ?thesis
    using provision_idempotent [OF wf q run fields(3) new(1) acc(2) fields(3) fields(1) _ new(2)] by (auto simp: fields)
qed

section \<open>Cancelling and renewing\<close>

lemma resolve_external:
  "w_sched w = [] \<Longrightarrow> be_ExternalID ev \<noteq> [] \<Longrightarrow> find_external (be_ExternalID ev) (w_db w) = Some u \<Longrightarrow> resolveUser ev w = (Inr u, w)"
  by (simp add: resolveUser_def onErr_def GetUserByExternalID_quiet)

lemma external_id_found:
  assumes "wf_db d" and "find_external x d = Some u" shows "find_user (u_ID u) d = Some u"
proof -
  have u: "u \<in> set (db_users d)" using find_SomeD [OF assms(2)] by simp
  then obtain v where v: "find_user (u_ID u) d = Some v" by (cases "find_user (u_ID u) d") (auto simp: find_user_None)
  then have "v \<in> set (db_users d)" "u_ID v = u_ID u" by (auto dest: find_user_in)
  then have "v = u" using u wf_db_distinct(6) [OF assms(1)] by (metis distinct_map inj_onD)
  with v show ?thesis by simp
qed

lemma cancel_disables:
  assumes wf: "wf_db (w_db w)" and q: "w_sched w = []" and c: "accepted c" "be_Action c = ''cancel''" "be_ExternalID c \<noteq> []"
    and new: "\<not> recorded (be_EventID c) (w_db w)" and u: "find_external (be_ExternalID c) (w_db w) = Some u"
  shows "\<exists>w1 v. process_event c w = (Inr \<lparr>br_Duplicate = False, br_Action = ''cancel'', br_User = None\<rparr>, w1) \<and>
    wf_db (w_db w1) \<and> w_sched w1 = [] \<and> find_external (be_ExternalID c) (w_db w1) = Some v \<and> u_ID v = u_ID u \<and>
    u_Status v = UserStatusDisabled \<and> u_ExpiresAt v = u_ExpiresAt u \<and>
    db_webhook_events (w_db w1) = db_webhook_events (w_db (note_event c w))"
proof -
  let ?w = "note_event c w" and ?f = "with_status UserStatusDisabled (w_now w)"
  have wf': "wf_db (w_db ?w)" by (rule note_event_wf [OF wf q new])
  have found: "find_user (u_ID u) (w_db ?w) = Some u" using external_id_found [OF wf u] by simp
  have run: "process_event c w = (Inr \<lparr>br_Duplicate = False, br_Action = ''cancel'', br_User = None\<rparr>, put_user (u_ID u) ?f ?w)"
    unfolding process_fresh [OF q c(1) new]
    using q c u found by (simp add: execute_def bindE_def billing_cancel_def resolve_external Suspend_quiet ret_def)
  have wf1: "wf_db (set_user (u_ID u) ?f (w_db ?w))"
    using wf' by (rule set_user_wf) (simp_all add: with_status_def)
  have "find_user (u_ID u) (set_user (u_ID u) ?f (w_db ?w)) = Some (?f u)" using found by (simp add: find_set_user)
  from find_external_wf [OF wf1 this, of "be_ExternalID c"] find_SomeD [OF u]
  have "find_external (be_ExternalID c) (set_user (u_ID u) ?f (w_db ?w)) = Some (?f u)" by (simp add: with_status_def)
  with run wf1 q show ?thesis
    by (intro exI [of _ "put_user (u_ID u) ?f ?w"] exI [of _ "?f u"]) (simp add: with_status_def)
qed

text \<open>C32: A renewal does not undo a cancellation: after a cancel event and a later renew event for the
  same user, both of them successful, the expiry is extended but the user is still disabled.\<close>

theorem renew_keeps_cancelled:
  assumes wf: "wf_db (w_db w)" and q: "w_sched w = []" and u: "find_external x (w_db w) = Some u" and x: "x \<noteq> []"
    and c: "accepted c" "be_Action c = ''cancel''" "be_ExternalID c = x" "\<not> recorded (be_EventID c) (w_db w)"
    and r: "accepted r" "be_Action r = ''renew''" "be_ExternalID r = x" "\<not> recorded (be_EventID r) (w_db w)"
    and ids: "be_EventID r \<noteq> be_EventID c"
    and p: "be_Renew r = Some p" "0 < rp_Days p" "rp_PlanID p = None"
  shows "\<exists>w1 w2 v t. process_event c w = (Inr \<lparr>br_Duplicate = False, br_Action = ''cancel'', br_User = None\<rparr>, w1) \<and>
    process_event r w1 = (Inr \<lparr>br_Duplicate = False, br_Action = ''renew'', br_User = Some v\<rparr>, w2) \<and>
    u_ID v = u_ID u \<and> u_Status v = UserStatusDisabled \<and> u_ExpiresAt v = Some (extend_from t (rp_Days p) (u_ExpiresAt u))"
proof -
  obtain w1 v1 where run: "process_event c w = (Inr \<lparr>br_Duplicate = False, br_Action = ''cancel'', br_User = None\<rparr>, w1)"
    and w1: "wf_db (w_db w1)" "w_sched w1 = []" "find_external x (w_db w1) = Some v1"
      "db_webhook_events (w_db w1) = db_webhook_events (w_db (note_event c w))"
    and v1: "u_ID v1 = u_ID u" "u_Status v1 = UserStatusDisabled" "u_ExpiresAt v1 = u_ExpiresAt u"
    using cancel_disables [OF wf q c(1,2) _ c(4)] u x c(3) by auto
  have new: "\<not> recorded (be_EventID r) (w_db w1)" using r(4) ids w1(4) by (auto simp: recorded_def note_event_def)
  let ?w = "note_event r w1"
  let ?inp = "\<lparr>rn_Days = rp_Days p, rn_ResetTraffic = rp_ResetTraffic p, rn_PlanID = rp_PlanID p\<rparr>"
  let ?v = "renew_terms ?inp None (w_now ?w) v1"
  have st: "u_Status ?v = UserStatusDisabled" and ex: "u_ExpiresAt ?v = Some (extend_from (w_now ?w) (rp_Days p) (u_ExpiresAt u))"
    using v1 p by (simp_all add: renew_terms_defs)
  have w: "wf_db (w_db ?w)" "w_sched ?w = []" "find_user (u_ID v1) (w_db ?w) = Some v1" "renew_accepts ?inp (w_db ?w) None"
    using note_event_wf [OF w1(1,2) new] w1 external_id_found [OF w1(1,3)] p by (simp_all add: renew_accepts_def)
  obtain s w2 y where renew: "UserService_Renew (u_ID v1) ?inp ?w = (Inr (assign_user s (?v\<lparr>u_Status := UserStatusDisabled\<rparr>) y), w2)"
    and y: "u_ID y = u_ID v1"
    using Renew_quiet [OF w] st by (auto simp: renew_status_def reset_row_def)
  have "process_event r w1 = (Inr \<lparr>br_Duplicate = False, br_Action = ''renew'',
      br_User = Some (assign_user s (?v\<lparr>u_Status := UserStatusDisabled\<rparr>) y)\<rparr>, w2)"
    unfolding process_fresh [OF w1(2) r(1) new]
    using r w1 x p(1) renew by (simp add: execute_def bindE_def billing_renew_def resolve_external ret_def)
  with run show ?thesis using y v1 ex by (fastforce simp: assign_user_def)
qed


definition simple_event :: "string \<Rightarrow> string \<Rightarrow> billing_event" where
  "simple_event e action = \<lparr>be_EventID = e, be_Action = action, be_ExternalID = ''ext1'', be_Email = '''',
     be_Provision = None, be_Renew = Some \<lparr>rp_Days = 30, rp_ResetTraffic = True, rp_PlanID = None\<rparr>\<rparr>"

theorem renew_keeps_cancelled_witness:
  "\<exists>w1 w2 v. process_event (simple_event ''e1'' ''cancel'') (sample_world (\<lambda>_. ()))
      = (Inr \<lparr>br_Duplicate = False, br_Action = ''cancel'', br_User = None\<rparr>, w1) \<and>
    process_event (simple_event ''e2'' ''renew'') w1 = (Inr \<lparr>br_Duplicate = False, br_Action = ''renew'', br_User = Some v\<rparr>, w2) \<and>
    u_ID v = ''u1'' \<and> u_Status v = UserStatusDisabled"
proof -
  let ?w = "sample_world (\<lambda>_. ())"
  have u: "find_external ''ext1'' (w_db ?w) = Some sample_user" by code_simp
  have e: "accepted (simple_event ''e1'' ''cancel'')" "accepted (simple_event ''e2'' ''renew'')"
    "\<not> recorded (be_EventID (simple_event ''e1'' ''cancel'')) (w_db ?w)" "\<not> recorded (be_EventID (simple_event ''e2'' ''renew'')) (w_db ?w)"
    by code_simp+
  have id: "u_ID sample_user = ''u1''" by code_simp
  define p where "p = \<lparr>rp_Days = 30, rp_ResetTraffic = True, rp_PlanID = None\<rparr>"
  have f: "be_Action (simple_event k a) = a" "be_ExternalID (simple_event k a) = ''ext1''" "be_EventID (simple_event k a) = k"
    "be_Renew (simple_event k a) = Some p" "0 < rp_Days p" "rp_PlanID p = None" for k a
    by (simp_all add: simple_event_def p_def)
  have "wf_db (w_db ?w)" "w_sched ?w = []" by (simp_all add: wf_sample_db)
  from renew_keeps_cancelled [OF this u _ e(1) f(1,2) e(3) e(2) f(1,2) e(4) _ f(4-6)]
  show ?thesis unfolding id f by blast
qed

end
