(* ===== verification/Sublink.thy ===== *)
theory Sublink
  imports Nodes_Service Json
begin

text \<open>
  \<open>internal/sublink\<close>: share links, the V2Ray bundle, the Clash configuration and the usage
  header. From the standard library: \<open>url.Values\<close>, \<open>url.URL.String\<close> and \<open>net.JoinHostPort\<close>.
  The YAML library is an argument of \<open>Clash\<close>.
\<close>

section \<open>Query parameters and URLs\<close>

type_synonym url_values = "(string \<times> string) list"

definition values_Set :: "string \<Rightarrow> string \<Rightarrow> url_values \<Rightarrow> url_values" where
  "values_Set k v q = filter (\<lambda>e. fst e \<noteq> k) q @ [(k, v)]"

definition QueryEscape :: "string \<Rightarrow> string" where
  "QueryEscape s = escape s encodeQueryComponent"

definition encodeSorted :: "url_values \<Rightarrow> string" where
  "encodeSorted q = Join (map (\<lambda>(k, v). QueryEscape k @ ''='' @ QueryEscape v) (sort_key fst q)) ''&''"

record url =
  url_Scheme :: string
  url_User :: string
  url_Host :: string
  url_RawQuery :: string
  url_Fragment :: string

text \<open>\<open>url.URL.String\<close> for URLs with scheme, user name and host, and no path.\<close>

definition url_String :: "url \<Rightarrow> string" where
  "url_String u = url_Scheme u @ ''://'' @ escape (url_User u) encodeUserPassword @ ''@'' @ escape (url_Host u) encodeHost
     @ (if url_RawQuery u \<noteq> [] then ''?'' @ url_RawQuery u else [])
     @ (if url_Fragment u \<noteq> [] then ''#'' @ escape (url_Fragment u) encodeFragment else [])"

definition JoinHostPort :: "string \<Rightarrow> string \<Rightarrow> string" where
  "JoinHostPort host port = (if CHR '':'' \<in> set host then ''['' @ host @ '']:'' @ port else host @ '':'' @ port)"

section \<open>Links\<close>

definition remark :: "user \<Rightarrow> inbound \<Rightarrow> string" where
  "remark u ib = (let label = (if ib_Remark ib = [] then ib_Tag ib else ib_Remark ib) in u_Email u @ ''@'' @ label)"

definition hostPort :: "inbound \<Rightarrow> string" where
  "hostPort ib = JoinHostPort (ib_PublicHost ib) (Itoa (ib_PublicPort ib))"

definition set_nonempty :: "string \<Rightarrow> string \<Rightarrow> url_values \<Rightarrow> url_values" where
  "set_nonempty k v q = (if v \<noteq> [] then values_Set k v q else q)"

definition network_params :: "inbound \<Rightarrow> url_values \<Rightarrow> url_values" where
  "network_params ib q =
     (if ib_Network ib \<in> {NetworkWS, NetworkHTTPUpgrade}
        then set_nonempty ''host'' (ib_HostHeader ib) (set_nonempty ''path'' (ib_WSPath ib) q)
      else if ib_Network ib = NetworkGRPC then set_nonempty ''serviceName'' (ib_GRPCServiceName ib) q
      else if ib_Network ib = NetworkXHTTP
        then set_nonempty ''mode'' (ib_XHTTPMode ib) (set_nonempty ''host'' (ib_HostHeader ib) (set_nonempty ''path'' (ib_WSPath ib) q))
      else q)"

definition security_params :: "inbound \<Rightarrow> url_values \<Rightarrow> url_values" where
  "security_params ib q =
     (if ib_Security ib = SecurityTLS then set_nonempty ''fp'' (ib_Fingerprint ib) (set_nonempty ''sni'' (ib_SNI ib) q)
      else if ib_Security ib = SecurityReality
        then set_nonempty ''sid'' (ib_RealityShortID ib) (set_nonempty ''pbk'' (ib_RealityPublicKey ib)
          (set_nonempty ''fp'' (ib_Fingerprint ib) (set_nonempty ''sni'' (ib_SNI ib) q)))
      else q)"

definition streamParams :: "inbound \<Rightarrow> url_values" where
  "streamParams ib = security_params ib (network_params ib
     (values_Set ''security'' (ib_Security ib) (values_Set ''type'' (ib_Network ib) [])))"

definition vless_params :: "inbound \<Rightarrow> url_values" where
  "vless_params ib = set_nonempty ''flow'' (ib_Flow ib) (values_Set ''encryption'' ''none'' (streamParams ib))"

definition vlessLink :: "user \<Rightarrow> inbound \<Rightarrow> string" where
  "vlessLink u ib = url_String \<lparr>url_Scheme = ''vless'', url_User = u_UUID u, url_Host = hostPort ib,
     url_RawQuery = encodeSorted (vless_params ib), url_Fragment = remark u ib\<rparr>"

definition trojanLink :: "user \<Rightarrow> inbound \<Rightarrow> string" where
  "trojanLink u ib = url_String \<lparr>url_Scheme = ''trojan'', url_User = u_TrojanPassword u, url_Host = hostPort ib,
     url_RawQuery = encodeSorted (streamParams ib), url_Fragment = remark u ib\<rparr>"

definition ss_method :: "inbound \<Rightarrow> string" where
  "ss_method ib = (if ib_Method ib = [] then ''aes-256-gcm'' else ib_Method ib)"

definition shadowsocksLink :: "user \<Rightarrow> inbound \<Rightarrow> string" where
  "shadowsocksLink u ib = ''ss://'' @ b64_EncodeToString RawURLEncoding (bytes (ss_method ib @ '':'' @ u_TrojanPassword u))
     @ ''@'' @ hostPort ib @ ''#'' @ escape (remark u ib) encodePathSegment"

definition tlsField :: "string \<Rightarrow> string" where
  "tlsField s = (if s = SecurityNone then [] else s)"

definition vmess_fields :: "user \<Rightarrow> inbound \<Rightarrow> (string \<times> string) list" where
  "vmess_fields u ib =
     [(''v'', ''2''), (''ps'', remark u ib), (''add'', ib_PublicHost ib), (''port'', Itoa (ib_PublicPort ib)),
      (''id'', u_UUID u), (''aid'', ''0''), (''scy'', ''auto''), (''net'', ib_Network ib), (''type'', ''none''),
      (''tls'', tlsField (ib_Security ib))]
     @ (if ib_Network ib \<in> {NetworkWS, NetworkHTTPUpgrade} then [(''path'', ib_WSPath ib), (''host'', ib_HostHeader ib)]
        else if ib_Network ib = NetworkGRPC then [(''path'', ib_GRPCServiceName ib)] else [])
     @ (if ib_Security ib \<noteq> SecurityNone \<and> ib_SNI ib \<noteq> [] then [(''sni'', ib_SNI ib)] else [])"

definition vmessLink :: "user \<Rightarrow> inbound \<Rightarrow> string" where
  "vmessLink u ib = ''vmess://'' @ b64_EncodeToString StdEncoding (bytes (json_object (vmess_fields u ib)))"

definition Link :: "user \<Rightarrow> inbound \<Rightarrow> error + string" where
  "Link u ib =
     (if ib_Protocol ib = ProtocolVLESS then Inr (vlessLink u ib)
      else if ib_Protocol ib = ProtocolTrojan then Inr (trojanLink u ib)
      else if ib_Protocol ib = ProtocolVMess then Inr (vmessLink u ib)
      else if ib_Protocol ib = ProtocolShadowsocks then Inr (shadowsocksLink u ib)
      else Inl (LinkError (''unsupported protocol '' @ quote (ib_Protocol ib))))"

fun links :: "user \<Rightarrow> inbound list \<Rightarrow> error + string list" where
  "links u [] = Inr []"
| "links u (ib # ibs) = (case Link u ib of
      Inl e \<Rightarrow> Inl e
    | Inr l \<Rightarrow> (case links u ibs of Inl e \<Rightarrow> Inl e | Inr ls \<Rightarrow> Inr (l # ls)))"

definition V2Ray :: "user \<Rightarrow> inbound list \<Rightarrow> error + string" where
  "V2Ray u inbounds = (case links u inbounds of
      Inl e \<Rightarrow> Inl e
    | Inr ls \<Rightarrow> Inr (b64_EncodeToString StdEncoding (bytes (Join ls [CHR 0x0A]))))"

definition UserInfoHeader :: "user \<Rightarrow> string" where
  "UserInfoHeader u =
     (let total = (case u_DataLimitBytes u of None \<Rightarrow> 0 | Some l \<Rightarrow> sint l);
          expire = (case u_ExpiresAt u of None \<Rightarrow> 0 | Some t \<Rightarrow> t div 1000000000) in
      ''upload='' @ Itoa (sint (u_UsedUploadBytes u)) @ ''; download='' @ Itoa (sint (u_UsedDownloadBytes u))
      @ ''; total='' @ Itoa total @ ''; expire='' @ Itoa expire)"

section \<open>Clash\<close>

datatype any = AnyString string | AnyMap "(string \<times> string) list"

record clash_proxy =
  cp_Name :: string
  cp_Type :: string
  cp_Server :: string
  cp_Port :: int
  cp_UUID :: string
  cp_Password :: string
  cp_AlterID :: "int option"
  cp_Cipher :: string
  cp_Flow :: string
  cp_UDP :: bool
  cp_TLS :: bool
  cp_Servername :: string
  cp_SNI :: string
  cp_Network :: string
  cp_ClientFP :: string
  cp_RealityOpts :: "(string \<times> string) list option"
  cp_WSOpts :: "(string \<times> any) list option"
  cp_GRPCOpts :: "(string \<times> string) list option"
  cp_XHTTPOpts :: "(string \<times> any) list option"

record clash_config =
  cc_Proxies :: "clash_proxy list"
  cc_ProxyGroups :: "(string \<times> string \<times> string list) list"
  cc_Rules :: "string list"

definition entry :: "string \<Rightarrow> (string \<Rightarrow> 'a) \<Rightarrow> string \<Rightarrow> (string \<times> 'a) list" where
  "entry k f v = (if v \<noteq> [] then [(k, f v)] else [])"

definition nonempty_map :: "'a list \<Rightarrow> 'a list option" where
  "nonempty_map m = (if m = [] then None else Some m)"

definition clash_base :: "user \<Rightarrow> inbound \<Rightarrow> clash_proxy" where
  "clash_base u ib = \<lparr>cp_Name = remark u ib, cp_Type = [], cp_Server = ib_PublicHost ib, cp_Port = ib_PublicPort ib,
     cp_UUID = [], cp_Password = [], cp_AlterID = None, cp_Cipher = [], cp_Flow = [], cp_UDP = True, cp_TLS = False,
     cp_Servername = [], cp_SNI = [], cp_Network = ib_Network ib, cp_ClientFP = [], cp_RealityOpts = None,
     cp_WSOpts = None, cp_GRPCOpts = None, cp_XHTTPOpts = None\<rparr>"

definition clash_account :: "user \<Rightarrow> inbound \<Rightarrow> clash_proxy \<Rightarrow> clash_proxy" where
  "clash_account u ib p =
     (if ib_Protocol ib = ProtocolVLESS then p\<lparr>cp_Type := ''vless'', cp_UUID := u_UUID u, cp_Flow := ib_Flow ib\<rparr>
      else if ib_Protocol ib = ProtocolVMess
        then p\<lparr>cp_Type := ''vmess'', cp_UUID := u_UUID u, cp_AlterID := Some 0, cp_Cipher := ''auto''\<rparr>
      else if ib_Protocol ib = ProtocolTrojan then p\<lparr>cp_Type := ''trojan'', cp_Password := u_TrojanPassword u\<rparr>
      else if ib_Protocol ib = ProtocolShadowsocks
        then p\<lparr>cp_Type := ''ss'', cp_Password := u_TrojanPassword u, cp_Cipher := ss_method ib, cp_Network := []\<rparr>
      else p)"

definition clash_security :: "inbound \<Rightarrow> clash_proxy \<Rightarrow> clash_proxy" where
  "clash_security ib p =
     (if ib_Security ib = SecurityTLS
        then p\<lparr>cp_TLS := True, cp_SNI := ib_SNI ib, cp_Servername := ib_SNI ib, cp_ClientFP := ib_Fingerprint ib\<rparr>
      else if ib_Security ib = SecurityReality
        then p\<lparr>cp_TLS := True, cp_Servername := ib_SNI ib, cp_ClientFP := ib_Fingerprint ib,
          cp_RealityOpts := Some (entry ''public-key'' id (ib_RealityPublicKey ib) @ entry ''short-id'' id (ib_RealityShortID ib))\<rparr>
      else p)"

definition clash_network :: "inbound \<Rightarrow> clash_proxy \<Rightarrow> clash_proxy" where
  "clash_network ib p =
     (if ib_Network ib \<in> {NetworkWS, NetworkHTTPUpgrade}
        then p\<lparr>cp_WSOpts := nonempty_map (entry ''path'' AnyString (ib_WSPath ib)
          @ entry ''headers'' (\<lambda>h. AnyMap [(''Host'', h)]) (ib_HostHeader ib))\<rparr>
      else if ib_Network ib = NetworkGRPC
        then p\<lparr>cp_GRPCOpts := nonempty_map (entry ''grpc-service-name'' id (ib_GRPCServiceName ib))\<rparr>
      else if ib_Network ib = NetworkXHTTP
        then p\<lparr>cp_XHTTPOpts := nonempty_map (entry ''path'' AnyString (ib_WSPath ib)
          @ entry ''host'' AnyString (ib_HostHeader ib) @ entry ''mode'' AnyString (ib_XHTTPMode ib))\<rparr>
      else p)"

definition clashProxyFor :: "user \<Rightarrow> inbound \<Rightarrow> clash_proxy" where
  "clashProxyFor u ib = (let p = clash_account u ib (clash_base u ib) in
     if ib_Protocol ib = ProtocolShadowsocks then p else clash_network ib (clash_security ib p))"

definition Clash :: "(clash_config \<Rightarrow> error + string) \<Rightarrow> user \<Rightarrow> inbound list \<Rightarrow> error + string" where
  "Clash yaml_Marshal u inbounds =
     (let ps = map (clashProxyFor u) inbounds;
          names = (if inbounds = [] then [''DIRECT''] else map cp_Name ps) in
      yaml_Marshal \<lparr>cc_Proxies = ps, cc_ProxyGroups = [(''PROXY'', ''select'', names)], cc_Rules = [''MATCH,PROXY'']\<rparr>)"


section \<open>Reading links back\<close>

text \<open>How a client takes a link apart: at the first separator of each kind.\<close>

definition cut :: "char \<Rightarrow> string \<Rightarrow> string \<times> string" where
  "cut c s = (takeWhile (\<lambda>x. x \<noteq> c) s, drop 1 (dropWhile (\<lambda>x. x \<noteq> c) s))"

function split_on :: "char \<Rightarrow> string \<Rightarrow> string list" where
  "split_on c s = (if c \<in> set s then fst (cut c s) # split_on c (snd (cut c s)) else [s])"
  by pat_completeness auto
termination
proof (relation "measure (length \<circ> snd)")
  fix c :: char and s :: string assume "c \<in> set s"
  then obtain xs ys where "s = xs @ c # ys" "c \<notin> set xs" by (meson split_list_first)
  then have "dropWhile (\<lambda>x. x \<noteq> c) s = c # ys" by (simp add: dropWhile_append)
  with \<open>s = _\<close> show "((c, snd (cut c s)), c, s) \<in> measure (length \<circ> snd)" by (simp add: cut_def)
qed simp

declare split_on.simps [simp del]

definition parse_query :: "string \<Rightarrow> (string option \<times> string option) list" where
  "parse_query s = map (\<lambda>e. case cut (CHR ''='') e of (k, v) \<Rightarrow>
     (unescape encodeQueryComponent k, unescape encodeQueryComponent v)) (split_on (CHR ''&'') s)"

record parsed_link =
  pl_Scheme :: string
  pl_User :: "string option"
  pl_Host :: "string option"
  pl_Query :: "(string option \<times> string option) list"
  pl_Fragment :: "string option"

definition parse_link :: "string \<Rightarrow> parsed_link" where
  "parse_link s = (case cut (CHR '':'') s of (scheme, rest) \<Rightarrow>
     case cut (CHR ''#'') (drop 2 rest) of (body, frag) \<Rightarrow>
     case cut (CHR ''?'') body of (auth, query) \<Rightarrow>
     case cut (CHR ''@'') auth of (user, host) \<Rightarrow>
       \<lparr>pl_Scheme = scheme, pl_User = unescape encodeUserPassword user, pl_Host = unescape encodeHost host,
        pl_Query = parse_query query, pl_Fragment = unescape encodeFragment frag\<rparr>)"

lemma cut_append [simp]: "c \<notin> set s \<Longrightarrow> cut c (s @ c # t) = (s, t)"
  by (induction s) (auto simp: cut_def)

lemma split_on_Join: "ss \<noteq> [] \<Longrightarrow> \<forall>s \<in> set ss. c \<notin> set s \<Longrightarrow> split_on c (Join ss [c]) = ss"
  by (induction ss "[c]" rule: Join.induct) (simp_all add: split_on.simps [of c])

lemma set_escape:
  "set (escape s mode) \<subseteq> {c. \<not> shouldEscape mode c} \<union> set (CHR ''%'' # CHR ''+'' # upper_hex)"
proof -
  have "set (escape_char mode c) \<subseteq> {c. \<not> shouldEscape mode c} \<union> set (CHR ''%'' # CHR ''+'' # upper_hex)" for c
    using unat_drop_bit_less [of "byte_of c"] unat_nibble_less [of "byte_of c"]
    by (auto simp: escape_char_def upper_hex_distinct)
  then show ?thesis by (fastforce simp: escape_def)
qed

definition separators :: "encoding_mode \<Rightarrow> string" where
  "separators mode = (case mode of
      encodeUserPassword \<Rightarrow> ''#?@'' | encodeHost \<Rightarrow> ''#?@'' | encodeQueryComponent \<Rightarrow> ''#?@&='' | encodeFragment \<Rightarrow> ''#''
    | encodePathSegment \<Rightarrow> ''#?'') @ [CHR 0x0A]"

lemma separators_escaped: "list_all (\<lambda>m. list_all (\<lambda>c. shouldEscape m c \<and> c \<notin> set (CHR ''%'' # CHR ''+'' # upper_hex)) (separators m))
   [encodePathSegment, encodeHost, encodeUserPassword, encodeQueryComponent, encodeFragment]"
  by code_simp

lemma escape_no_separator: "c \<in> set (separators mode) \<Longrightarrow> c \<notin> set (escape s mode)"
proof
  assume c: "c \<in> set (separators mode)" "c \<in> set (escape s mode)"
  have "shouldEscape mode c \<and> c \<notin> set (CHR ''%'' # CHR ''+'' # upper_hex)"
    using separators_escaped c(1) by (cases mode) (auto simp: list_all_iff)
  with set_escape [of s mode] c(2) show False by blast
qed

lemma set_Join: "set (Join ss sep) \<subseteq> (\<Union>s \<in> set ss. set s) \<union> set sep"
  by (induction ss sep rule: Join.induct) auto

lemma parse_encodeSorted:
  assumes "q \<noteq> []" shows "parse_query (encodeSorted q) = map (\<lambda>(k, v). (Some k, Some v)) (sort_key fst q)"
proof -
  have "CHR ''&'' \<notin> set (QueryEscape s)" "CHR ''='' \<notin> set (QueryEscape s)" for s
    unfolding QueryEscape_def by (rule escape_no_separator; simp add: separators_def)+
  moreover from assms have "sort_key fst q \<noteq> []" by (metis length_0_conv length_sort)
  ultimately show ?thesis
    unfolding parse_query_def encodeSorted_def
    by (subst split_on_Join) (auto simp: QueryEscape_def unescape_escape)
qed

lemma encodeSorted_clean: "c \<in> set (''#?@'' @ [CHR 0x0A]) \<Longrightarrow> c \<notin> set (encodeSorted q)"
proof -
  assume c: "c \<in> set (''#?@'' @ [CHR 0x0A])"
  then have "c \<notin> set (QueryEscape s)" for s
    unfolding QueryEscape_def by (intro escape_no_separator) (auto simp: separators_def)
  with c show ?thesis using set_Join [of _ "''&''"] by (fastforce simp: encodeSorted_def)
qed

lemma parse_url:
  assumes "CHR '':'' \<notin> set (url_Scheme u)" "url_RawQuery u = encodeSorted q" "url_RawQuery u \<noteq> []" "q \<noteq> []" "url_Fragment u \<noteq> []"
  shows "parse_link (url_String u) = \<lparr>pl_Scheme = url_Scheme u, pl_User = Some (url_User u), pl_Host = Some (url_Host u),
    pl_Query = map (\<lambda>(k, v). (Some k, Some v)) (sort_key fst q), pl_Fragment = Some (url_Fragment u)\<rparr>"
proof -
  let ?u = "escape (url_User u) encodeUserPassword" and ?h = "escape (url_Host u) encodeHost"
  have clean: "CHR ''#'' \<notin> set ?u" "CHR ''?'' \<notin> set ?u" "CHR ''@'' \<notin> set ?u" "CHR ''#'' \<notin> set ?h" "CHR ''?'' \<notin> set ?h"
    "CHR ''#'' \<notin> set (encodeSorted q)"
    by (auto simp: escape_no_separator separators_def encodeSorted_clean)
  have s: "url_String u = url_Scheme u @ CHR '':'' # ''//'' @ ((?u @ CHR ''@'' # ?h) @ CHR ''?'' # encodeSorted q)
     @ CHR ''#'' # escape (url_Fragment u) encodeFragment"
    using assms by (simp add: url_String_def)
  have "cut (CHR ''#'') (((?u @ CHR ''@'' # ?h) @ CHR ''?'' # encodeSorted q) @ CHR ''#'' # escape (url_Fragment u) encodeFragment)
     = ((?u @ CHR ''@'' # ?h) @ CHR ''?'' # encodeSorted q, escape (url_Fragment u) encodeFragment)"
    by (rule cut_append) (use clean in auto)
  moreover have "cut (CHR ''?'') ((?u @ CHR ''@'' # ?h) @ CHR ''?'' # encodeSorted q) = (?u @ CHR ''@'' # ?h, encodeSorted q)"
    by (rule cut_append) (use clean in auto)
  ultimately show ?thesis
    unfolding s parse_link_def cut_append [OF assms(1)] using clean(3)
    by (simp add: unescape_escape parse_encodeSorted [OF assms(4)])
qed


lemma params_nonempty: "streamParams ib \<noteq> []" "vless_params ib \<noteq> []" "q \<noteq> [] \<Longrightarrow> encodeSorted q \<noteq> []"
proof -
  have "values_Set k v q \<noteq> []" "q \<noteq> [] \<Longrightarrow> set_nonempty k v q \<noteq> []" for k v q
    by (simp_all add: values_Set_def set_nonempty_def)
  then show "streamParams ib \<noteq> []" "vless_params ib \<noteq> []"
    by (simp_all add: streamParams_def vless_params_def security_params_def network_params_def)
  show "encodeSorted q \<noteq> []" if "q \<noteq> []"
  proof -
    from that obtain e es where "sort_key fst q = e # es" by (metis length_0_conv length_sort list.exhaust)
    then show ?thesis by (cases e; cases es) (simp_all add: encodeSorted_def)
  qed
qed

text \<open>C34: A VLESS or Trojan link is read back exactly by a client that splits it at the URL
  separators and undoes the escapes: the credential, the address, every transport parameter and
  the label come out unchanged, whatever characters they contain.\<close>

theorem Link_roundtrip:
  assumes "Link u ib = Inr l" and "ib_Protocol ib = ProtocolVLESS \<or> ib_Protocol ib = ProtocolTrojan"
  shows "parse_link l = \<lparr>pl_Scheme = ib_Protocol ib,
    pl_User = Some (if ib_Protocol ib = ProtocolVLESS then u_UUID u else u_TrojanPassword u), pl_Host = Some (hostPort ib),
    pl_Query = map (\<lambda>(k, v). (Some k, Some v))
      (sort_key fst (if ib_Protocol ib = ProtocolVLESS then vless_params ib else streamParams ib)),
    pl_Fragment = Some (remark u ib)\<rparr>"
proof (cases "ib_Protocol ib = ProtocolVLESS")
  case True
  then have l: "l = vlessLink u ib" using assms(1) by (simp add: Link_def)
  show ?thesis
    unfolding l vlessLink_def
    by (subst parse_url [where q = "vless_params ib"]) (simp_all add: True protocol_defs remark_def Let_def params_nonempty)
next
  case False
  then have p: "ib_Protocol ib = ProtocolTrojan" and l: "l = trojanLink u ib" using assms by (simp_all add: Link_def)
  show ?thesis
    unfolding l trojanLink_def
    by (subst parse_url [where q = "streamParams ib"]) (simp_all add: p protocol_defs remark_def Let_def params_nonempty)
qed

theorem Link_roundtrip_witness:
  "\<exists>l. Link sample_user sample_inbound = Inr l \<and> pl_User (parse_link l) = Some ''uuid1'' \<and> pl_Fragment (parse_link l) = Some (remark sample_user sample_inbound)"
proof -
  have p: "ib_Protocol sample_inbound = ProtocolVLESS" by code_simp
  then obtain l where l: "Link sample_user sample_inbound = Inr l" by (simp add: Link_def)
  have "u_UUID sample_user = ''uuid1''" by code_simp
  with Link_roundtrip [OF l] p l show ?thesis by simp
qed

lemma char_digit: "0 \<le> n \<Longrightarrow> n < 10 \<Longrightarrow> char_of (48 + n :: int) \<noteq> CHR 0x0A"
proof -
  assume "0 \<le> n" "n < 10"
  then have "n \<in> set [0, 1, 2, 3, 4, 5, 6, 7, 8, 9]" unfolding set_simps insert_iff empty_iff by presburger
  moreover have "list_all (\<lambda>n. char_of (48 + n :: int) \<noteq> CHR 0x0A) [0, 1, 2, 3, 4, 5, 6, 7, 8, 9]" by code_simp
  ultimately show ?thesis unfolding list_all_iff by blast
qed

lemma digits_clean: "0 \<le> n \<Longrightarrow> CHR 0x0A \<notin> set (digits n)"
proof (induction n rule: digits.induct)
  case (1 n)
  show ?case
  proof (cases "n < 10")
    case True
    then show ?thesis using char_digit [of n] "1.prems" by (simp add: digits.simps [of n])
  next
    case False
    then show ?thesis using "1.IH" char_digit [of "n mod 10"] by (simp add: digits.simps [of n])
  qed
qed

lemma Itoa_clean: "CHR 0x0A \<notin> set (Itoa n)"
  by (simp add: Itoa_def digits_clean)

lemma b64_clean: "CHR 0x0A \<notin> set (b64_EncodeToString StdEncoding bs)" "CHR 0x0A \<notin> set (b64_EncodeToString RawURLEncoding bs)"
proof -
  have *: "CHR 0x0A \<notin> set (b64_EncodeToString e bs)" if e: "b64_wf e" "CHR 0x0A \<notin> set (fst e)" "snd e \<noteq> Some (CHR 0x0A)" for e
  proof -
    obtain n where enc: "b64_EncodeToString e bs = map (\<lambda>s. fst e ! unat s) (b64_sextets bs) @ b64_pad e n"
      using b64_EncodeToString_sextets by blast
    have "\<forall>s \<in> set (b64_sextets bs). unat s < length (fst e)"
      using e(1) b64_sextets_small small_byte by (auto simp: b64_wf_def)
    with e show ?thesis by (auto simp: enc b64_pad_def split: option.splits dest!: nth_mem)
  qed
  have "CHR 0x0A \<notin> set (fst StdEncoding)" "snd StdEncoding \<noteq> Some (CHR 0x0A)"
    "CHR 0x0A \<notin> set (fst RawURLEncoding)" "snd RawURLEncoding \<noteq> Some (CHR 0x0A)" by code_simp+
  with * b64_wf_encodings show "CHR 0x0A \<notin> set (b64_EncodeToString StdEncoding bs)" "CHR 0x0A \<notin> set (b64_EncodeToString RawURLEncoding bs)"
    by blast+
qed

lemma Link_one_line:
  assumes "Link u ib = Inr l" and "CHR 0x0A \<notin> set (ib_PublicHost ib)"
  shows "CHR 0x0A \<notin> set l"
proof -
  have esc: "CHR 0x0A \<notin> set (escape s mode)" for s mode
    by (rule escape_no_separator) (simp add: separators_def)
  have "CHR 0x0A \<notin> set (hostPort ib)" using assms(2) Itoa_clean by (auto simp: hostPort_def JoinHostPort_def)
  moreover have "CHR 0x0A \<notin> set (encodeSorted q)" for q by (rule encodeSorted_clean) simp
  ultimately show ?thesis
    using assms(1) esc b64_clean
    by (auto simp: Link_def vlessLink_def trojanLink_def vmessLink_def shadowsocksLink_def url_String_def split: if_splits)
qed

lemma links_all: "links u ibs = Inr ls \<Longrightarrow> list_all2 (\<lambda>ib l. Link u ib = Inr l) ibs ls"
  by (induction ibs arbitrary: ls) (auto split: sum.splits)

text \<open>C35: The V2Ray subscription is read back exactly: decoding the base64 text and splitting it into
  lines gives one link per inbound, in order. Hosts must not contain a line break, which nothing
  in the program checks and which only the Shadowsocks link does not escape.\<close>

theorem V2Ray_roundtrip:
  assumes "V2Ray u ibs = Inr s" and "ibs \<noteq> []" and hosts: "\<forall>ib \<in> set ibs. CHR 0x0A \<notin> set (ib_PublicHost ib)"
  shows "\<exists>ls. list_all2 (\<lambda>ib l. Link u ib = Inr l) ibs ls \<and>
    map_option (\<lambda>bs. split_on (CHR 0x0A) (text_of bs)) (b64_decode StdEncoding s) = Some ls"
proof -
  obtain ls where ls: "links u ibs = Inr ls" and s: "s = b64_EncodeToString StdEncoding (bytes (Join ls [CHR 0x0A]))"
    using assms(1) by (auto simp: V2Ray_def split: sum.splits)
  note all = links_all [OF ls]
  have "\<forall>l \<in> set ls. CHR 0x0A \<notin> set l"
    using all hosts by (induction rule: list_all2_induct) (simp_all add: Link_one_line)
  moreover have "ls \<noteq> []" using all assms(2) by auto
  ultimately have "split_on (CHR 0x0A) (Join ls [CHR 0x0A]) = ls" by (intro split_on_Join)
  with all show ?thesis by (intro exI [of _ ls]) (simp add: s base64std.dec_enc)
qed

theorem V2Ray_roundtrip_witness:
  "\<exists>s l1 l2. V2Ray sample_user [sample_inbound, sample_trojan] = Inr s \<and>
    map_option (\<lambda>bs. split_on (CHR 0x0A) (text_of bs)) (b64_decode StdEncoding s) = Some [l1, l2]"
proof -
  let ?ibs = "[sample_inbound, sample_trojan]"
  have "ib_Protocol sample_inbound = ProtocolVLESS" "ib_Protocol sample_trojan = ProtocolTrojan" by code_simp+
  then obtain s where s: "V2Ray sample_user ?ibs = Inr s" by (auto simp: V2Ray_def Link_def protocol_defs)
  have "\<forall>ib \<in> set ?ibs. CHR 0x0A \<notin> set (ib_PublicHost ib)" by code_simp
  with V2Ray_roundtrip [OF s] s show ?thesis by (auto simp: list_all2_Cons1)
qed


section \<open>Subscriptions and nodes agree\<close>

text \<open>The credentials a proxy entry of Clash presents, against an account on the node.\<close>

definition presents :: "clash_proxy \<Rightarrow> proto_account \<Rightarrow> bool" where
  "presents p acc = (case acc of
      VlessAccount uuid flow \<Rightarrow> cp_Type p = ''vless'' \<and> cp_UUID p = uuid \<and> cp_Flow p = flow
    | VmessAccount uuid \<Rightarrow> cp_Type p = ''vmess'' \<and> cp_UUID p = uuid
    | TrojanAccount pass \<Rightarrow> cp_Type p = ''trojan'' \<and> cp_Password p = pass
    | ShadowsocksAccount pass c \<Rightarrow> cp_Type p = ''ss'' \<and> cp_Password p = pass \<and> shadowsocksCipher (cp_Cipher p) = Inr c)"

text \<open>The same for a share link: what a client decodes from it.\<close>

definition link_presents :: "string \<Rightarrow> proto_account \<Rightarrow> bool" where
  "link_presents l acc = (case acc of
      VlessAccount uuid flow \<Rightarrow> pl_Scheme (parse_link l) = ''vless'' \<and> pl_User (parse_link l) = Some uuid
        \<and> (flow \<noteq> [] \<longrightarrow> (Some ''flow'', Some flow) \<in> set (pl_Query (parse_link l)))
    | VmessAccount uuid \<Rightarrow> (case b64_decode StdEncoding (drop (length ''vmess://'') l) of
          None \<Rightarrow> False
        | Some bs \<Rightarrow> (case scan_all (text_of bs) of
              Inr (JObject ms) \<Rightarrow> Option.bind (map_of ms ''id'') as_string = Some uuid
            | _ \<Rightarrow> False))
    | TrojanAccount pass \<Rightarrow> pl_Scheme (parse_link l) = ''trojan'' \<and> pl_User (parse_link l) = Some pass
    | ShadowsocksAccount pass c \<Rightarrow> \<exists>m. shadowsocksCipher m = Inr c
        \<and> map_option text_of (b64_decode RawURLEncoding (fst (cut (CHR ''@'') (drop (length ''ss://'') l)))) = Some (m @ '':'' @ pass))"

lemma link_parts:
  "pl_Scheme (parse_link (vlessLink u ib)) = ''vless''" "pl_User (parse_link (vlessLink u ib)) = Some (u_UUID u)"
  "pl_Query (parse_link (vlessLink u ib)) = map (\<lambda>(k, v). (Some k, Some v)) (sort_key fst (vless_params ib))"
  "pl_Scheme (parse_link (trojanLink u ib)) = ''trojan''" "pl_User (parse_link (trojanLink u ib)) = Some (u_TrojanPassword u)"
proof -
  let ?v = "\<lparr>url_Scheme = ''vless'', url_User = u_UUID u, url_Host = hostPort ib,
     url_RawQuery = encodeSorted (vless_params ib), url_Fragment = remark u ib\<rparr>"
  have "parse_link (vlessLink u ib) = \<lparr>pl_Scheme = url_Scheme ?v, pl_User = Some (url_User ?v), pl_Host = Some (url_Host ?v),
      pl_Query = map (\<lambda>(k, v). (Some k, Some v)) (sort_key fst (vless_params ib)), pl_Fragment = Some (url_Fragment ?v)\<rparr>"
    unfolding vlessLink_def by (rule parse_url) (simp_all add: params_nonempty remark_def Let_def)
  then show "pl_Scheme (parse_link (vlessLink u ib)) = ''vless''" "pl_User (parse_link (vlessLink u ib)) = Some (u_UUID u)"
    "pl_Query (parse_link (vlessLink u ib)) = map (\<lambda>(k, v). (Some k, Some v)) (sort_key fst (vless_params ib))" by simp_all
  let ?t = "\<lparr>url_Scheme = ''trojan'', url_User = u_TrojanPassword u, url_Host = hostPort ib,
     url_RawQuery = encodeSorted (streamParams ib), url_Fragment = remark u ib\<rparr>"
  have "parse_link (trojanLink u ib) = \<lparr>pl_Scheme = url_Scheme ?t, pl_User = Some (url_User ?t), pl_Host = Some (url_Host ?t),
      pl_Query = map (\<lambda>(k, v). (Some k, Some v)) (sort_key fst (streamParams ib)), pl_Fragment = Some (url_Fragment ?t)\<rparr>"
    unfolding trojanLink_def by (rule parse_url) (simp_all add: params_nonempty remark_def Let_def)
  then show "pl_Scheme (parse_link (trojanLink u ib)) = ''trojan''" "pl_User (parse_link (trojanLink u ib)) = Some (u_TrojanPassword u)"
    by simp_all
qed

text \<open>What a JSON decoder finds in a vmess link.\<close>

lemma map_of_sorted: "distinct (map fst m) \<Longrightarrow> map_of (sort_key f m) = map_of m"
proof -
  assume d: "distinct (map fst m)"
  then have "distinct (map fst (sort_key f m))" by (simp add: distinct_map)
  with d show ?thesis by (intro map_of_inject_set [THEN iffD2]) simp_all
qed

lemma vmess_id:
  assumes "utf8_clean (u_UUID u) = u_UUID u"
  shows "\<exists>ms. scan_all (json_object (vmess_fields u ib)) = Inr (JObject ms) \<and> Option.bind (map_of ms ''id'') as_string = Some (u_UUID u)"
proof -
  let ?m = "vmess_fields u ib" and ?f = "\<lambda>(k, v). (utf8_clean k, JString (json_chars v))"
  have ascii: "\<forall>k \<in> fst ` set ?m. utf8_clean k = k"
  proof -
    have "fst ` set ?m \<subseteq> set [''v'', ''ps'', ''add'', ''port'', ''id'', ''aid'', ''scy'', ''net'', ''type'', ''tls'', ''path'', ''host'', ''sni'']"
      by (auto simp: vmess_fields_def)
    moreover have "\<forall>k \<in> set [''v'', ''ps'', ''add'', ''port'', ''id'', ''aid'', ''scy'', ''net'', ''type'', ''tls'', ''path'', ''host'', ''sni''].
        list_all (\<lambda>c. (of_char c :: nat) < 0x80) k" by code_simp
    ultimately show ?thesis using utf8_clean_id by blast
  qed
  have "map ?f (sort_key fst ?m) = map (\<lambda>(k, v). (k, JString (json_chars v))) (sort_key fst ?m)"
    using ascii by (intro map_cong) (auto simp: image_iff)
  then have "map_of (map ?f (sort_key fst ?m)) ''id'' = map_option (\<lambda>v. JString (json_chars v)) (map_of (sort_key fst ?m) ''id'')"
    by (simp only: map_of_map comp_def)
  moreover have "distinct (map fst ?m)" "map_of ?m ''id'' = Some (u_UUID u)" by (simp_all add: vmess_fields_def)
  ultimately show ?thesis
    using assms by (intro exI conjI) (rule scan_json_object, simp add: map_of_sorted unquote_json_chars)
qed

lemma b64url_no_at: "CHR ''@'' \<notin> set (b64_EncodeToString RawURLEncoding bs)"
proof -
  obtain n where enc: "b64_EncodeToString RawURLEncoding bs = map (\<lambda>s. fst RawURLEncoding ! unat s) (b64_sextets bs) @ b64_pad RawURLEncoding n"
    using b64_EncodeToString_sextets by blast
  have "\<forall>s \<in> set (b64_sextets bs). unat s < length (fst RawURLEncoding)"
    using b64_wf_encodings(2) b64_sextets_small small_byte by (auto simp: b64_wf_def)
  moreover have "CHR ''@'' \<notin> set (fst RawURLEncoding)" "snd RawURLEncoding = None" by code_simp+
  ultimately show ?thesis by (auto simp: enc b64_pad_def dest!: nth_mem)
qed

lemma ss_link_parts:
  "fst (cut (CHR ''@'') (drop (length ''ss://'') (shadowsocksLink u ib))) =
     b64_EncodeToString RawURLEncoding (bytes (ss_method ib @ '':'' @ u_TrojanPassword u))"
  using cut_append [OF b64url_no_at] by (simp add: shadowsocksLink_def)

text \<open>C33: For a valid inbound the share link and the Clash entry carry exactly the credentials of the
  account that a reconcile pass puts on the node, so a subscription works once the pass has run. The
  link is read as a client does: URL escapes, base64 and, for vmess, the JSON object are decoded.
  The user's UUID must be valid UTF-8, which the database enforces.\<close>

theorem subscription_matches_node:
  assumes "valid_inbound ib" and utf: "utf8_clean (u_UUID u) = u_UUID u"
  shows "\<exists>pu l. buildUser (accountFor (desired_row r ib u)) = Inr pu \<and> pu_Email pu = u_Email u \<and> Link u ib = Inr l \<and>
    link_presents l (pu_Account pu) \<and> presents (clashProxyFor u ib) (pu_Account pu)"
proof -
  let ?acc = "accountFor (desired_row r ib u)"
  have acc: "acc_Protocol ?acc = ib_Protocol ib" "acc_Email ?acc = u_Email u" "acc_UUID ?acc = u_UUID u"
    "acc_Password ?acc = u_TrojanPassword u" "acc_Flow ?acc = ib_Flow ib" "acc_Method ?acc = ib_Method ib"
    by (simp_all add: accountFor_def desired_row_def)
  have kept: "cp_Type (clash_network ib (clash_security ib p)) = cp_Type p" "cp_UUID (clash_network ib (clash_security ib p)) = cp_UUID p"
    "cp_Flow (clash_network ib (clash_security ib p)) = cp_Flow p" "cp_Password (clash_network ib (clash_security ib p)) = cp_Password p" for p
    by (simp_all add: clash_network_def clash_security_def)
  have flow: "ib_Flow ib \<noteq> [] \<Longrightarrow> (Some ''flow'', Some (ib_Flow ib)) \<in> set (pl_Query (parse_link (vlessLink u ib)))"
    by (force simp: link_parts vless_params_def set_nonempty_def values_Set_def)
  consider "ib_Protocol ib = ''vless''" | "ib_Protocol ib = ''vmess''" | "ib_Protocol ib = ''trojan''"
    | "ib_Protocol ib = ''shadowsocks''" "ib_Method ib \<in> set ShadowsocksMethods"
    using assms(1) by (auto simp: valid_inbound_def Protocol_Valid_def protocol_defs)
  then show ?thesis
  proof cases
    case 1
    then show ?thesis using flow
      by (simp add: buildUser_def acc Let_def Link_def protocol_defs link_presents_def presents_def link_parts clashProxyFor_def kept clash_account_def)
  next
    case 2
    have "link_presents (vmessLink u ib) (VmessAccount (u_UUID u))"
      using vmess_id [OF utf, of ib] by (auto simp: link_presents_def vmessLink_def base64std.dec_enc)
    with 2 show ?thesis
      by (auto simp: buildUser_def acc Let_def Link_def protocol_defs presents_def clashProxyFor_def kept clash_account_def)
  next
    case 3
    then show ?thesis
      by (simp add: buildUser_def acc Let_def Link_def protocol_defs link_presents_def presents_def link_parts clashProxyFor_def kept clash_account_def)
  next
    case 4
    then obtain c where c: "shadowsocksCipher (ib_Method ib) = Inr c" and ne: "ib_Method ib \<noteq> []"
      by (auto simp: ShadowsocksMethods_def shadowsocksCipher_def)
    have m: "ss_method ib = ib_Method ib" using ne by (simp add: ss_method_def)
    have "link_presents (shadowsocksLink u ib) (ShadowsocksAccount (u_TrojanPassword u) c)"
      unfolding link_presents_def proto_account.case ss_link_parts m base64url.dec_enc [OF TrueI] using c
      by (intro exI [of _ "ib_Method ib"]) simp
    with 4(1) c m show ?thesis
      by (simp add: buildUser_def acc Let_def Link_def protocol_defs presents_def clashProxyFor_def clash_account_def)
  qed
qed

theorem subscription_matches_node_witness:
  "\<exists>(pu :: proto_user) l. Link sample_user sample_inbound = Inr l \<and> pu_Email pu = ''a@x'' \<and> link_presents l (pu_Account pu)"
proof -
  have "valid_inbound sample_inbound" "u_Email sample_user = ''a@x''" "utf8_clean (u_UUID sample_user) = u_UUID sample_user" by code_simp+
  then show ?thesis
    using subscription_matches_node [of sample_inbound sample_user \<open>\<lparr>ui_UserID = '''', ui_InboundID = '''', ui_SyncStatus = SyncPending,
      ui_LastSyncedAt = None, ui_LastError = ''''\<rparr>\<close>] by metis
qed

end
