(* ===== verification/Store_Reads.thy ===== *)
theory Store_Reads
  imports Service_Common "HOL-Library.List_Lexorder" "HOL-Library.Char_ord"
begin

text \<open>
  The two reading queries with parameters: the filtered, paged list of users
  (\<open>Store.ListUsers\<close>) and the aggregated traffic (\<open>Store.UserUsage\<close>).
\<close>

section \<open>Listing users\<close>

record user_filter =
  uf_Status :: string
  uf_PlanID :: string
  uf_Query :: string
  uf_Limit :: int
  uf_Offset :: int

text \<open>SQL's \<open>LIKE\<close> on texts in lower case: \<open>%\<close> any text, \<open>_\<close> one character, backslash takes the next one literally.\<close>

fun sql_like :: "string \<Rightarrow> string \<Rightarrow> bool" where
  "sql_like [] t = (t = [])"
| "sql_like (p # ps) t =
     (if p = CHR ''%'' then sql_like ps t \<or> (case t of [] \<Rightarrow> False | _ # t' \<Rightarrow> sql_like (p # ps) t')
      else if p = CHR ''_'' then (case t of [] \<Rightarrow> False | _ # t' \<Rightarrow> sql_like ps t')
      else if p = CHR 0x5C then (case ps of [] \<Rightarrow> False | q # ps' \<Rightarrow> (case t of [] \<Rightarrow> False | c # t' \<Rightarrow> c = q \<and> sql_like ps' t'))
      else (case t of [] \<Rightarrow> False | c # t' \<Rightarrow> c = p \<and> sql_like ps t'))"

definition ILIKE :: "string \<Rightarrow> string \<Rightarrow> bool" where
  "ILIKE t pat = sql_like (ToLower pat) (ToLower t)"

text \<open>The \<open>WHERE\<close> clause that \<open>ListUsers\<close> assembles.\<close>

definition user_clause :: "user_filter \<Rightarrow> user \<Rightarrow> bool" where
  "user_clause f u \<longleftrightarrow>
     (uf_Status f = [] \<or> u_Status u = uf_Status f) \<and>
     (uf_PlanID f = [] \<or> u_PlanID u = Some (uf_PlanID f)) \<and>
     (uf_Query f = [] \<or> (let p = ''%'' @ uf_Query f @ ''%'' in ILIKE (u_Email u) p \<or> ILIKE (u_Note u) p))"

definition select_users :: "user_filter \<Rightarrow> db \<Rightarrow> error + user list" where
  "select_users f d =
     (if uf_Offset f < 0 then Inl (PgError ''2201X'' [])
      else Inr (take (nat (if uf_Limit f \<le> 0 then 50 else uf_Limit f))
        (drop (nat (uf_Offset f)) (sort_key (\<lambda>u. - u_CreatedAt u) (filter (user_clause f) (db_users d))))))"

definition ListUsers :: "user_filter \<Rightarrow> ('x, user list \<times> nat) io" where
  "ListUsers f = bindE (onErr mapErr (db_query (\<lambda>d. Inr (length (filter (user_clause f) (db_users d)))))) (\<lambda>total.
     bindE (onErr mapErr (db_query (select_users f))) (\<lambda>out. ret (out, total)))"

section \<open>Usage\<close>

record usage_bucket =
  ub_Key :: string
  ub_Uplink :: int64
  ub_Downlink :: int64

text \<open>\<open>to_char(date_trunc('day', t), 'YYYY-MM-DD')\<close>, PostgreSQL's text of a day, is the argument \<open>day\<close>.\<close>

definition usage_key :: "(time \<Rightarrow> string) \<Rightarrow> string \<Rightarrow> traffic_snapshot \<Rightarrow> string" where
  "usage_key day groupBy s = (if groupBy = ''node'' then ts_NodeID s else day (ts_CollectedAt s))"

definition snapshots_between :: "string \<Rightarrow> time \<Rightarrow> time \<Rightarrow> db \<Rightarrow> traffic_snapshot list" where
  "snapshots_between userID from until d =
     filter (\<lambda>s. ts_UserID s = userID \<and> from \<le> ts_CollectedAt s \<and> ts_CollectedAt s < until) (db_snapshots d)"

text \<open>The sums are of type \<open>numeric\<close>; reading one that exceeds 64 bits fails.\<close>

definition usage_row :: "(traffic_snapshot \<Rightarrow> string) \<Rightarrow> traffic_snapshot list \<Rightarrow> string \<Rightarrow> string \<times> int \<times> int" where
  "usage_row key ss k = (let g = filter (\<lambda>s. key s = k) ss in
     (k, sum_list (map (\<lambda>s. sint (ts_UplinkBytes s)) g), sum_list (map (\<lambda>s. sint (ts_DownlinkBytes s)) g)))"

definition usage_rows :: "(traffic_snapshot \<Rightarrow> string) \<Rightarrow> traffic_snapshot list \<Rightarrow> (string \<times> int \<times> int) list" where
  "usage_rows key ss = map (usage_row key ss) (sort (remdups (map key ss)))"

definition scan_usage :: "(string \<times> int \<times> int) list \<Rightarrow> error + usage_bucket list" where
  "scan_usage rows = (if \<exists>(k, up, down) \<in> set rows. \<not> int64_range up \<or> \<not> int64_range down
     then Inl (DriverErr ''value out of range'')
     else Inr (map (\<lambda>(k, up, down). \<lparr>ub_Key = k, ub_Uplink = of_int up, ub_Downlink = of_int down\<rparr>) rows))"

definition UserUsage :: "(time \<Rightarrow> string) \<Rightarrow> string \<Rightarrow> time \<Rightarrow> time \<Rightarrow> string \<Rightarrow> ('x, usage_bucket list) io" where
  "UserUsage day userID from until groupBy = onErr mapErr (db_query (\<lambda>d.
     scan_usage (usage_rows (usage_key day groupBy) (snapshots_between userID from until d))))"

definition UserService_Usage :: "(time \<Rightarrow> string) \<Rightarrow> string \<Rightarrow> time \<Rightarrow> time \<Rightarrow> string \<Rightarrow> ('x, usage_bucket list) io" where
  "UserService_Usage day uid from until groupBy = bindE (GetUser uid) (\<lambda>_. UserUsage day uid from until groupBy)"

definition UserService_Get :: "string \<Rightarrow> ('x, user) io" where
  "UserService_Get uid = GetUser uid"

definition UserService_List :: "user_filter \<Rightarrow> ('x, user list \<times> nat) io" where
  "UserService_List f = ListUsers f"

lemma keeps_reads [pres]:
  "preserves I (ListUsers f)" "preserves I (UserUsage day uid a b g)" "preserves I (UserService_Usage day uid a b g)"
  "preserves I (UserService_Get uid)" "preserves I (UserService_List f)"
  unfolding ListUsers_def UserUsage_def UserService_Usage_def UserService_Get_def UserService_List_def by (intro pres)+


section \<open>Nothing is lost between the groups and the pages\<close>

lemma sum_by_key:
  fixes f :: "'a \<Rightarrow> int"
  assumes "distinct ks" and "key ` set ss \<subseteq> set ks"
  shows "(\<Sum>k \<leftarrow> ks. \<Sum>s \<leftarrow> filter (\<lambda>s. key s = k) ss. f s) = (\<Sum>s \<leftarrow> ss. f s)"
  using assms(2)
proof (induction ss)
  case (Cons s ss)
  have "(\<Sum>k \<leftarrow> ks. \<Sum>s \<leftarrow> filter (\<lambda>s. key s = k) (s # ss). f s)
      = (\<Sum>k \<leftarrow> ks. (if key s = k then f s else 0) + (\<Sum>s \<leftarrow> filter (\<lambda>s. key s = k) ss. f s))"
    by (rule arg_cong [where f = sum_list]) simp
  also have "\<dots> = (\<Sum>k \<in> set ks. if key s = k then f s else 0) + (\<Sum>s \<leftarrow> ss. f s)"
    using Cons assms(1) by (simp add: sum_list_addf sum_list_distinct_conv_sum_set)
  also have "(\<Sum>k \<in> set ks. if key s = k then f s else 0) = f s" using Cons.prems by simp
  finally show ?case by simp
qed (simp add: sum_list_0)

lemma usage_rows_total:
  "(\<Sum>(k, up, down) \<leftarrow> usage_rows key ss. up) = (\<Sum>s \<leftarrow> ss. sint (ts_UplinkBytes s))"
  "(\<Sum>(k, up, down) \<leftarrow> usage_rows key ss. down) = (\<Sum>s \<leftarrow> ss. sint (ts_DownlinkBytes s))"
  using sum_by_key [of "sort (remdups (map key ss))" key ss] by (simp_all add: usage_rows_def usage_row_def Let_def comp_def)

lemma scan_usage_total:
  assumes "scan_usage rows = Inr bs"
  shows "map (\<lambda>b. (ub_Key b, sint (ub_Uplink b), sint (ub_Downlink b))) bs = rows"
proof -
  have bs: "bs = map (\<lambda>(k, up, down). \<lparr>ub_Key = k, ub_Uplink = of_int up, ub_Downlink = of_int down\<rparr>) rows"
    and small: "\<forall>(k, up, down) \<in> set rows. int64_range up \<and> int64_range down"
    using assms by (auto simp: scan_usage_def split: if_splits)
  show ?thesis unfolding bs using small by (auto simp: sint_of_int_int64 intro!: map_idI)
qed

lemma UserUsage_quiet:
  "w_sched w = [] \<Longrightarrow> UserUsage day uid a b g w =
    (case scan_usage (usage_rows (usage_key day g) (snapshots_between uid a b (w_db w))) of
      Inl e \<Rightarrow> Inl (mapErr e) | Inr bs \<Rightarrow> Inr bs, w)"
  by (simp add: UserUsage_def onErr_def db_query_quiet split: sum.splits)

text \<open>C36: The usage report accounts for every byte exactly once: by day or by node, in any way the
  database writes a day, the buckets have distinct keys, in order, and sum up to the traffic of
  the user's snapshots in the interval.\<close>

theorem UserUsage_conserves:
  assumes "w_sched w = []" and run: "UserService_Usage day uid a b g w = (Inr bs, w')"
  shows "w' = w \<and> sorted (map ub_Key bs) \<and> distinct (map ub_Key bs) \<and>
    (\<Sum>x \<leftarrow> bs. sint (ub_Uplink x)) = (\<Sum>s \<leftarrow> snapshots_between uid a b (w_db w). sint (ts_UplinkBytes s)) \<and>
    (\<Sum>x \<leftarrow> bs. sint (ub_Downlink x)) = (\<Sum>s \<leftarrow> snapshots_between uid a b (w_db w). sint (ts_DownlinkBytes s))"
proof -
  let ?rows = "usage_rows (usage_key day g) (snapshots_between uid a b (w_db w))"
  have bs: "scan_usage ?rows = Inr bs" and w': "w' = w"
    using assms by (auto simp: UserService_Usage_def quiet UserUsage_quiet split: option.splits sum.splits)
  note rows = scan_usage_total [OF bs]
  have "map ub_Key bs = map fst ?rows" "map (sint \<circ> ub_Uplink) bs = map (\<lambda>(k, up, down). up) ?rows"
    "map (sint \<circ> ub_Downlink) bs = map (\<lambda>(k, up, down). down) ?rows"
    unfolding rows [symmetric] by simp_all
  moreover have "map fst ?rows = sort (remdups (map (usage_key day g) (snapshots_between uid a b (w_db w))))"
    by (simp add: usage_rows_def usage_row_def Let_def comp_def)
  ultimately show ?thesis using usage_rows_total w' by (simp add: comp_def)
qed


definition usage_db :: db where
  "usage_db = sample_db\<lparr>db_snapshots := map (\<lambda>(i, t, up). \<lparr>ts_ID = i, ts_UserID = ''u1'', ts_NodeID = ''n1'',
     ts_UplinkBytes = up, ts_DownlinkBytes = 1, ts_CollectedAt = t\<rparr>) [(1, 10, 5), (2, 20, 6), (3, 30, 7)]\<rparr>"

theorem UserUsage_conserves_witness:
  "\<exists>bs w'. UserService_Usage (\<lambda>_. ''1970-01-01'') ''u1'' 0 25 ''day'' ((sample_world (\<lambda>_. ()))\<lparr>w_db := usage_db\<rparr>) = (Inr bs, w') \<and>
     (\<Sum>x \<leftarrow> bs. sint (ub_Uplink x)) = 11"
proof -
  let ?w = "(sample_world (\<lambda>_. ()))\<lparr>w_db := usage_db\<rparr>"
  let ?r = "UserService_Usage (\<lambda>_. ''1970-01-01'') ''u1'' 0 25 ''day'' ?w"
  have "\<not> isl (fst ?r)" by code_simp
  then have run: "?r = (Inr (projr (fst ?r)), snd ?r)" by (simp add: prod_eq_iff)
  have "w_sched ?w = []" "(\<Sum>s \<leftarrow> snapshots_between ''u1'' 0 25 (w_db ?w). sint (ts_UplinkBytes s)) = 11" by code_simp+
  with UserUsage_conserves [OF _ run] run show ?thesis by metis
qed

section \<open>Paging\<close>

definition matching :: "user_filter \<Rightarrow> db \<Rightarrow> user list" where
  "matching f d = sort_key (\<lambda>u. - u_CreatedAt u) (filter (user_clause f) (db_users d))"

lemma ListUsers_quiet:
  "w_sched w = [] \<Longrightarrow> 0 \<le> uf_Offset f \<Longrightarrow> 0 < uf_Limit f \<Longrightarrow>
    ListUsers f w = (Inr (take (nat (uf_Limit f)) (drop (nat (uf_Offset f)) (matching f (w_db w))), length (matching f (w_db w))), w)"
  by (simp add: ListUsers_def bindE_def onErr_def db_query_quiet select_users_def matching_def ret_def)

lemma concat_pages: "length xs \<le> k * n \<Longrightarrow> concat (map (\<lambda>i. take n (drop (i * n) xs)) [0 ..< k]) = xs"
proof (induction k arbitrary: xs)
  case (Suc k)
  have "[0 ..< Suc k] = 0 # map Suc [0 ..< k]" by (simp add: upt_conv_Cons map_Suc_upt del: upt_Suc)
  then have "concat (map (\<lambda>i. take n (drop (i * n) xs)) [0 ..< Suc k])
      = take n xs @ concat (map (\<lambda>i. take n (drop (i * n) (drop n xs))) [0 ..< k])"
    by (simp add: comp_def add.commute)
  also have "concat (map (\<lambda>i. take n (drop (i * n) (drop n xs))) [0 ..< k]) = drop n xs"
    using Suc.prems by (intro Suc.IH) simp
  also have "take n xs @ drop n xs = xs" by simp
  finally show ?case .
qed simp



end
