(* ===== verification/HttpApi.thy ===== *)
theory HttpApi
  imports Billing Sublink Store_Reads
begin

text \<open>
  \<open>internal/httpapi\<close>: the handlers, the two middlewares and the error mapping. A request has
  been routed by chi to an endpoint of the route tree in \<open>router.go\<close>; its header fields and query
  values are texts, empty when absent. A response body is a value, before its JSON encoding; an
  error body keeps the error whose text becomes the message.
\<close>

section \<open>Requests, responses and libraries\<close>

record request =
  rq_Authorization :: string
  rq_XAPIKey :: string
  rq_XWebhookSignature :: string
  rq_UserAgent :: string
  rq_RemoteAddr :: string
  rq_Query :: "(string \<times> string) list"
  rq_Body :: string
  rq_BodyFails :: bool

definition query_Get :: "request \<Rightarrow> string \<Rightarrow> string" where
  "query_Get r k = (case map_of (rq_Query r) k of None \<Rightarrow> [] | Some v \<Rightarrow> v)"

datatype payload =
    NoBody
  | ErrorBody string "error + string"
  | StatusBody string
  | UserBody user string
  | UsersBody "(user \<times> string) list" nat int int
  | UsageBody time time string "usage_bucket list"
  | NodeBody node
  | NodesBody "node list"
  | InboundBody inbound
  | InboundsBody "inbound list"
  | PlanBody plan
  | PlansBody "plan list"
  | KeysBody "api_key list"
  | CreatedKeyBody string string string
  | StatsBody nat nat nat nat nat
  | SubscriptionBody string
  | SubscriptionInfoBody string string int int int int
  | BillingBody string bool "(user \<times> string) option"
  | OpenAPIBody
  | MetricsBody
  | NotFoundBody

record response =
  rs_Status :: nat
  rs_Headers :: "(string \<times> string) list"
  rs_Body :: payload

record create_user_request =
  cur_Email :: string
  cur_PlanID :: "string option"
  cur_InboundIDs :: slice
  cur_DataLimitBytes :: "int64 option"
  cur_ExpiresAt :: "time option"
  cur_Note :: string

record update_user_request =
  uur_PlanID :: "string option"
  uur_DataLimitBytes :: "int64 option"
  uur_ExpiresAt :: "time option"
  uur_ClearExpiry :: bool
  uur_Note :: "string option"
  uur_Status :: "string option"

record set_inbounds_request =
  sir_InboundIDs :: slice

record renew_user_request =
  rur_Days :: int
  rur_ResetTraffic :: bool
  rur_PlanID :: "string option"

record node_request =
  nr_Name :: string
  nr_APIAddress :: string
  nr_APIPort :: int
  nr_APITLS :: bool
  nr_APITLSServerName :: string
  nr_APITLSInsecure :: bool
  nr_APICACert :: "string option"
  nr_APIClientCert :: "string option"
  nr_APIClientKey :: "string option"

record inbound_request =
  ir_Tag :: string
  ir_Protocol :: string
  ir_ListenPort :: int
  ir_PublicHost :: string
  ir_PublicPort :: int
  ir_Network :: string
  ir_Security :: string
  ir_WSPath :: string
  ir_HostHeader :: string
  ir_GRPCServiceName :: string
  ir_SNI :: string
  ir_Fingerprint :: string
  ir_RealityPublicKey :: string
  ir_RealityShortID :: string
  ir_Flow :: string
  ir_Method :: string
  ir_XHTTPMode :: string
  ir_Remark :: string

record plan_request =
  pr_Name :: string
  pr_DataLimitBytes :: "int64 option"
  pr_DurationDays :: "int option"

record create_api_key_request =
  car_Name :: string

text \<open>The tagged fields of the request structs and their zero values, for \<open>decodeJSON\<close>.\<close>

definition createUserRequest :: create_user_request where
  "createUserRequest = \<lparr>cur_Email = [], cur_PlanID = None, cur_InboundIDs = None, cur_DataLimitBytes = None,
     cur_ExpiresAt = None, cur_Note = []\<rparr>"

definition createUserRequest_fields :: "(string \<times> create_user_request slot) list" where
  "createUserRequest_fields =
     [(''email'', plain_field as_string (\<lambda>s q. q\<lparr>cur_Email := s\<rparr>)),
      (''plan_id'', pointer_field as_string (\<lambda>s q. q\<lparr>cur_PlanID := s\<rparr>)),
      (''inbound_ids'', strings_field cur_InboundIDs (\<lambda>ss q. q\<lparr>cur_InboundIDs := ss\<rparr>)),
      (''data_limit_bytes'', pointer_field as_int64 (\<lambda>n q. q\<lparr>cur_DataLimitBytes := n\<rparr>)),
      (''expires_at'', time_field (\<lambda>t q. q\<lparr>cur_ExpiresAt := t\<rparr>)),
      (''note'', plain_field as_string (\<lambda>s q. q\<lparr>cur_Note := s\<rparr>))]"

definition updateUserRequest :: update_user_request where
  "updateUserRequest = \<lparr>uur_PlanID = None, uur_DataLimitBytes = None, uur_ExpiresAt = None, uur_ClearExpiry = False,
     uur_Note = None, uur_Status = None\<rparr>"

definition updateUserRequest_fields :: "(string \<times> update_user_request slot) list" where
  "updateUserRequest_fields =
     [(''plan_id'', pointer_field as_string (\<lambda>s q. q\<lparr>uur_PlanID := s\<rparr>)),
      (''data_limit_bytes'', pointer_field as_int64 (\<lambda>n q. q\<lparr>uur_DataLimitBytes := n\<rparr>)),
      (''expires_at'', time_field (\<lambda>t q. q\<lparr>uur_ExpiresAt := t\<rparr>)),
      (''clear_expiry'', plain_field as_bool (\<lambda>b q. q\<lparr>uur_ClearExpiry := b\<rparr>)),
      (''note'', pointer_field as_string (\<lambda>s q. q\<lparr>uur_Note := s\<rparr>)),
      (''status'', pointer_field as_string (\<lambda>s q. q\<lparr>uur_Status := s\<rparr>))]"

definition setInboundsRequest :: set_inbounds_request where
  "setInboundsRequest = \<lparr>sir_InboundIDs = None\<rparr>"

definition setInboundsRequest_fields :: "(string \<times> set_inbounds_request slot) list" where
  "setInboundsRequest_fields = [(''inbound_ids'', strings_field sir_InboundIDs (\<lambda>ss q. q\<lparr>sir_InboundIDs := ss\<rparr>))]"

definition renewUserRequest :: renew_user_request where
  "renewUserRequest = \<lparr>rur_Days = 0, rur_ResetTraffic = False, rur_PlanID = None\<rparr>"

definition renewUserRequest_fields :: "(string \<times> renew_user_request slot) list" where
  "renewUserRequest_fields =
     [(''days'', plain_field as_int (\<lambda>n q. q\<lparr>rur_Days := n\<rparr>)),
      (''reset_traffic'', plain_field as_bool (\<lambda>b q. q\<lparr>rur_ResetTraffic := b\<rparr>)),
      (''plan_id'', pointer_field as_string (\<lambda>s q. q\<lparr>rur_PlanID := s\<rparr>))]"

definition nodeRequest :: node_request where
  "nodeRequest = \<lparr>nr_Name = [], nr_APIAddress = [], nr_APIPort = 0, nr_APITLS = False, nr_APITLSServerName = [],
     nr_APITLSInsecure = False, nr_APICACert = None, nr_APIClientCert = None, nr_APIClientKey = None\<rparr>"

definition nodeRequest_fields :: "(string \<times> node_request slot) list" where
  "nodeRequest_fields =
     [(''name'', plain_field as_string (\<lambda>s q. q\<lparr>nr_Name := s\<rparr>)),
      (''api_address'', plain_field as_string (\<lambda>s q. q\<lparr>nr_APIAddress := s\<rparr>)),
      (''api_port'', plain_field as_int (\<lambda>n q. q\<lparr>nr_APIPort := n\<rparr>)),
      (''api_tls'', plain_field as_bool (\<lambda>b q. q\<lparr>nr_APITLS := b\<rparr>)),
      (''api_tls_server_name'', plain_field as_string (\<lambda>s q. q\<lparr>nr_APITLSServerName := s\<rparr>)),
      (''api_tls_insecure'', plain_field as_bool (\<lambda>b q. q\<lparr>nr_APITLSInsecure := b\<rparr>)),
      (''api_ca_cert'', pointer_field as_string (\<lambda>s q. q\<lparr>nr_APICACert := s\<rparr>)),
      (''api_client_cert'', pointer_field as_string (\<lambda>s q. q\<lparr>nr_APIClientCert := s\<rparr>)),
      (''api_client_key'', pointer_field as_string (\<lambda>s q. q\<lparr>nr_APIClientKey := s\<rparr>))]"

definition inboundRequest :: inbound_request where
  "inboundRequest = \<lparr>ir_Tag = [], ir_Protocol = [], ir_ListenPort = 0, ir_PublicHost = [], ir_PublicPort = 0, ir_Network = [],
     ir_Security = [], ir_WSPath = [], ir_HostHeader = [], ir_GRPCServiceName = [], ir_SNI = [], ir_Fingerprint = [],
     ir_RealityPublicKey = [], ir_RealityShortID = [], ir_Flow = [], ir_Method = [], ir_XHTTPMode = [], ir_Remark = []\<rparr>"

definition inboundRequest_fields :: "(string \<times> inbound_request slot) list" where
  "inboundRequest_fields =
     [(''tag'', plain_field as_string (\<lambda>s q. q\<lparr>ir_Tag := s\<rparr>)),
      (''protocol'', plain_field as_string (\<lambda>s q. q\<lparr>ir_Protocol := s\<rparr>)),
      (''listen_port'', plain_field as_int (\<lambda>n q. q\<lparr>ir_ListenPort := n\<rparr>)),
      (''public_host'', plain_field as_string (\<lambda>s q. q\<lparr>ir_PublicHost := s\<rparr>)),
      (''public_port'', plain_field as_int (\<lambda>n q. q\<lparr>ir_PublicPort := n\<rparr>)),
      (''network'', plain_field as_string (\<lambda>s q. q\<lparr>ir_Network := s\<rparr>)),
      (''security'', plain_field as_string (\<lambda>s q. q\<lparr>ir_Security := s\<rparr>)),
      (''ws_path'', plain_field as_string (\<lambda>s q. q\<lparr>ir_WSPath := s\<rparr>)),
      (''host_header'', plain_field as_string (\<lambda>s q. q\<lparr>ir_HostHeader := s\<rparr>)),
      (''grpc_service_name'', plain_field as_string (\<lambda>s q. q\<lparr>ir_GRPCServiceName := s\<rparr>)),
      (''sni'', plain_field as_string (\<lambda>s q. q\<lparr>ir_SNI := s\<rparr>)),
      (''fingerprint'', plain_field as_string (\<lambda>s q. q\<lparr>ir_Fingerprint := s\<rparr>)),
      (''reality_public_key'', plain_field as_string (\<lambda>s q. q\<lparr>ir_RealityPublicKey := s\<rparr>)),
      (''reality_short_id'', plain_field as_string (\<lambda>s q. q\<lparr>ir_RealityShortID := s\<rparr>)),
      (''flow'', plain_field as_string (\<lambda>s q. q\<lparr>ir_Flow := s\<rparr>)),
      (''method'', plain_field as_string (\<lambda>s q. q\<lparr>ir_Method := s\<rparr>)),
      (''xhttp_mode'', plain_field as_string (\<lambda>s q. q\<lparr>ir_XHTTPMode := s\<rparr>)),
      (''remark'', plain_field as_string (\<lambda>s q. q\<lparr>ir_Remark := s\<rparr>))]"

definition planRequest :: plan_request where
  "planRequest = \<lparr>pr_Name = [], pr_DataLimitBytes = None, pr_DurationDays = None\<rparr>"

definition planRequest_fields :: "(string \<times> plan_request slot) list" where
  "planRequest_fields =
     [(''name'', plain_field as_string (\<lambda>s q. q\<lparr>pr_Name := s\<rparr>)),
      (''data_limit_bytes'', pointer_field as_int64 (\<lambda>n q. q\<lparr>pr_DataLimitBytes := n\<rparr>)),
      (''duration_days'', pointer_field as_int (\<lambda>n q. q\<lparr>pr_DurationDays := n\<rparr>))]"

definition createAPIKeyRequest :: create_api_key_request where
  "createAPIKeyRequest = \<lparr>car_Name = []\<rparr>"

definition createAPIKeyRequest_fields :: "(string \<times> create_api_key_request slot) list" where
  "createAPIKeyRequest_fields = [(''name'', plain_field as_string (\<lambda>s q. q\<lparr>car_Name := s\<rparr>))]"

text \<open>
  What lies outside: Xray, the YAML encoder, the database's text of a day, and the text of a
  decoding error, for the name of the struct and the body.
\<close>

record 'x env =
  env_Xray :: "'x xray_api"
  env_yaml :: "clash_config \<Rightarrow> error + string"
  env_day :: "time \<Rightarrow> string"
  env_json_text :: "string \<Rightarrow> string \<Rightarrow> json_error \<Rightarrow> string"

record server =
  srv_publicBaseURL :: string
  srv_bootstrapKey :: string
  srv_billingSecret :: string
  srv_metricsEnabled :: bool
  srv_updateIntervalHours :: int
  srv_profileTitle :: string

section \<open>Responses\<close>

definition writeJSON :: "nat \<Rightarrow> payload \<Rightarrow> response" where
  "writeJSON status v = \<lparr>rs_Status = status, rs_Headers = [(''Content-Type'', ''application/json'')], rs_Body = v\<rparr>"

definition writeError :: "error \<Rightarrow> response" where
  "writeError err =
     (if errors_Is err NotFoundS then writeJSON 404 (ErrorBody ''not_found'' (Inl err))
      else if errors_Is err ConflictS then writeJSON 409 (ErrorBody ''conflict'' (Inl err))
      else if errors_Is err ValidationS then writeJSON 400 (ErrorBody ''validation_error'' (Inl err))
      else writeJSON 500 (ErrorBody ''internal_error'' (Inl err)))"

definition badRequest :: "string \<Rightarrow> response" where
  "badRequest msg = writeJSON 400 (ErrorBody ''validation_error'' (Inr msg))"

definition noContent :: response where
  "noContent = \<lparr>rs_Status = 204, rs_Headers = [], rs_Body = NoBody\<rparr>"

text \<open>The common shape of the handlers: decode the body, call the service, render the result or the error.\<close>

definition decodeJSON :: "'x env \<Rightarrow> string \<Rightarrow> (string \<times> 'r slot) list \<Rightarrow> 'r \<Rightarrow> request \<Rightarrow> ('r \<Rightarrow> ('x, response) io) \<Rightarrow> ('x, response) io" where
  "decodeJSON env type tags zero r k = (case json_Decode tags zero (rq_Body r) (rq_BodyFails r) of
      Inl err \<Rightarrow> ret (badRequest (env_json_text env type (rq_Body r) err))
    | Inr v \<Rightarrow> k v)"

definition render :: "('x, 'a) io \<Rightarrow> ('a \<Rightarrow> response) \<Rightarrow> ('x, response) io" where
  "render m f = bindE (attempt m) (\<lambda>res. ret (case res of Inl e \<Rightarrow> writeError e | Inr a \<Rightarrow> f a))"

section \<open>Users\<close>

definition userResponse :: "server \<Rightarrow> nat \<Rightarrow> user \<Rightarrow> response" where
  "userResponse srv status u = writeJSON status (UserBody u (SubURL (srv_publicBaseURL srv) u))"

definition handleCreateUser :: "'x env \<Rightarrow> server \<Rightarrow> request \<Rightarrow> ('x, response) io" where
  "handleCreateUser env srv r = decodeJSON env ''createUserRequest'' createUserRequest_fields createUserRequest r (\<lambda>q.
     render (UserService_Create \<lparr>ci_Email = cur_Email q, ci_PlanID = cur_PlanID q, ci_InboundIDs = elems (cur_InboundIDs q),
       ci_DataLimitBytes = cur_DataLimitBytes q, ci_ExpiresAt = cur_ExpiresAt q, ci_Note = cur_Note q, ci_ExternalID = None\<rparr>)
     (userResponse srv 201))"

definition go_int :: "int \<Rightarrow> int" where
  "go_int n = sint (word_of_int n :: 64 word)"

definition handleListUsers :: "server \<Rightarrow> request \<Rightarrow> ('x, response) io" where
  "handleListUsers srv r =
     (let p = snd (Atoi (query_Get r ''page'')); page = (if p < 1 then 1 else p);
          pp = snd (Atoi (query_Get r ''per_page'')); perPage = (if pp < 1 \<or> 200 < pp then 50 else pp) in
      render (UserService_List \<lparr>uf_Status = query_Get r ''status'', uf_PlanID = query_Get r ''plan_id'', uf_Query = query_Get r ''q'',
        uf_Limit = perPage, uf_Offset = go_int ((page - 1) * perPage)\<rparr>)
      (\<lambda>(users, total). writeJSON 200 (UsersBody (map (\<lambda>u. (u, SubURL (srv_publicBaseURL srv) u)) users) total page perPage)))"

definition userAction :: "server \<Rightarrow> ('x, user) io \<Rightarrow> ('x, response) io" where
  "userAction srv m = render m (userResponse srv 200)"

definition handleGetUser :: "server \<Rightarrow> string \<Rightarrow> ('x, response) io" where
  "handleGetUser srv uid = render (UserService_Get uid) (userResponse srv 200)"

definition handleUpdateUser :: "'x env \<Rightarrow> server \<Rightarrow> string \<Rightarrow> request \<Rightarrow> ('x, response) io" where
  "handleUpdateUser env srv uid r = decodeJSON env ''updateUserRequest'' updateUserRequest_fields updateUserRequest r (\<lambda>q.
     userAction srv (UserService_Update uid \<lparr>up_PlanID = uur_PlanID q, up_DataLimitBytes = uur_DataLimitBytes q,
       up_ExpiresAt = uur_ExpiresAt q, up_ClearExpiry = uur_ClearExpiry q, up_Note = uur_Note q, up_Status = uur_Status q\<rparr>))"

definition handleDeleteUser :: "string \<Rightarrow> ('x, response) io" where
  "handleDeleteUser uid = render (UserService_Delete uid) (\<lambda>_. noContent)"

definition handleSetUserInbounds :: "'x env \<Rightarrow> server \<Rightarrow> string \<Rightarrow> request \<Rightarrow> ('x, response) io" where
  "handleSetUserInbounds env srv uid r = decodeJSON env ''setInboundsRequest'' setInboundsRequest_fields setInboundsRequest r (\<lambda>q.
     userAction srv (UserService_SetInbounds uid (sir_InboundIDs q)))"

definition handleSuspendUser :: "server \<Rightarrow> string \<Rightarrow> ('x, response) io" where
  "handleSuspendUser srv uid = userAction srv (UserService_Suspend uid)"

definition handleResumeUser :: "server \<Rightarrow> string \<Rightarrow> ('x, response) io" where
  "handleResumeUser srv uid = userAction srv (UserService_Resume uid)"

definition handleResetTraffic :: "server \<Rightarrow> string \<Rightarrow> ('x, response) io" where
  "handleResetTraffic srv uid = userAction srv (UserService_ResetTraffic uid)"

definition handleRotateSubToken :: "server \<Rightarrow> string \<Rightarrow> ('x, response) io" where
  "handleRotateSubToken srv uid = userAction srv (UserService_RotateSubToken uid)"

definition handleRenewUser :: "'x env \<Rightarrow> server \<Rightarrow> string \<Rightarrow> request \<Rightarrow> ('x, response) io" where
  "handleRenewUser env srv uid r = decodeJSON env ''renewUserRequest'' renewUserRequest_fields renewUserRequest r (\<lambda>q.
     userAction srv (UserService_Renew uid \<lparr>rn_Days = rur_Days q, rn_ResetTraffic = rur_ResetTraffic q, rn_PlanID = rur_PlanID q\<rparr>))"

definition parse_time :: "string \<Rightarrow> time \<Rightarrow> time option" where
  "parse_time v dflt = (if v = [] then Some dflt else time_Parse v)"

definition handleUserUsage :: "'x env \<Rightarrow> string \<Rightarrow> request \<Rightarrow> ('x, response) io" where
  "handleUserUsage env uid r = bindE time_Now (\<lambda>now.
     case parse_time (query_Get r ''from'') (AddDays now (- 30)) of
       None \<Rightarrow> ret (badRequest ''invalid from (want RFC3339)'')
     | Some from \<Rightarrow> (case parse_time (query_Get r ''to'') now of
           None \<Rightarrow> ret (badRequest ''invalid to (want RFC3339)'')
         | Some until \<Rightarrow> (let groupBy = (if query_Get r ''group_by'' \<noteq> ''node'' then ''day'' else ''node'') in
             render (UserService_Usage (env_day env) uid from until groupBy)
               (\<lambda>bs. writeJSON 200 (UsageBody from until groupBy bs)))))"

section \<open>Nodes, inbounds, plans and keys\<close>

definition node_toInput :: "node_request \<Rightarrow> node_input" where
  "node_toInput q = \<lparr>ni_Name = nr_Name q, ni_APIAddress = nr_APIAddress q, ni_APIPort = nr_APIPort q, ni_APITLS = nr_APITLS q,
     ni_APITLSServerName = nr_APITLSServerName q, ni_APITLSInsecure = nr_APITLSInsecure q, ni_APICACert = nr_APICACert q,
     ni_APIClientCert = nr_APIClientCert q, ni_APIClientKey = nr_APIClientKey q\<rparr>"

definition handleListNodes :: "('x, response) io" where
  "handleListNodes = render NodeService_List (\<lambda>ns. writeJSON 200 (NodesBody ns))"

definition handleCreateNode :: "'x env \<Rightarrow> request \<Rightarrow> ('x, response) io" where
  "handleCreateNode env r = decodeJSON env ''nodeRequest'' nodeRequest_fields nodeRequest r (\<lambda>q.
     render (NodeService_Create (env_Xray env) (node_toInput q)) (\<lambda>n. writeJSON 201 (NodeBody n)))"

definition handleGetNode :: "string \<Rightarrow> ('x, response) io" where
  "handleGetNode uid = render (NodeService_Get uid) (\<lambda>n. writeJSON 200 (NodeBody n))"

definition handleUpdateNode :: "'x env \<Rightarrow> string \<Rightarrow> request \<Rightarrow> ('x, response) io" where
  "handleUpdateNode env uid r = decodeJSON env ''nodeRequest'' nodeRequest_fields nodeRequest r (\<lambda>q.
     render (NodeService_Update (env_Xray env) uid (node_toInput q)) (\<lambda>n. writeJSON 200 (NodeBody n)))"

definition handleDeleteNode :: "string \<Rightarrow> ('x, response) io" where
  "handleDeleteNode uid = render (NodeService_Delete uid) (\<lambda>_. noContent)"

definition handleReconcileNode :: "string \<Rightarrow> ('x, response) io" where
  "handleReconcileNode uid = render (NodeService_Reconcile uid) (\<lambda>_. writeJSON 202 (StatusBody ''reconcile_triggered''))"

definition inbound_toInput :: "inbound_request \<Rightarrow> inbound_input" where
  "inbound_toInput q = \<lparr>ii_Tag = ir_Tag q, ii_Protocol = ir_Protocol q, ii_ListenPort = ir_ListenPort q, ii_PublicHost = ir_PublicHost q,
     ii_PublicPort = ir_PublicPort q, ii_Network = ir_Network q, ii_Security = ir_Security q, ii_WSPath = ir_WSPath q,
     ii_HostHeader = ir_HostHeader q, ii_GRPCServiceName = ir_GRPCServiceName q, ii_SNI = ir_SNI q, ii_Fingerprint = ir_Fingerprint q,
     ii_RealityPublicKey = ir_RealityPublicKey q, ii_RealityShortID = ir_RealityShortID q, ii_Flow = ir_Flow q,
     ii_Method = ir_Method q, ii_XHTTPMode = ir_XHTTPMode q, ii_Remark = ir_Remark q\<rparr>"

definition handleListInbounds :: "string \<Rightarrow> ('x, response) io" where
  "handleListInbounds nid = render (NodeService_ListInbounds nid) (\<lambda>is. writeJSON 200 (InboundsBody is))"

definition handleCreateInbound :: "'x env \<Rightarrow> string \<Rightarrow> request \<Rightarrow> ('x, response) io" where
  "handleCreateInbound env nid r = decodeJSON env ''inboundRequest'' inboundRequest_fields inboundRequest r (\<lambda>q.
     render (NodeService_CreateInbound nid (inbound_toInput q)) (\<lambda>i. writeJSON 201 (InboundBody i)))"

definition handleGetInbound :: "string \<Rightarrow> ('x, response) io" where
  "handleGetInbound iid = render (NodeService_GetInbound iid) (\<lambda>i. writeJSON 200 (InboundBody i))"

definition handleUpdateInbound :: "'x env \<Rightarrow> string \<Rightarrow> request \<Rightarrow> ('x, response) io" where
  "handleUpdateInbound env iid r = decodeJSON env ''inboundRequest'' inboundRequest_fields inboundRequest r (\<lambda>q.
     render (NodeService_UpdateInbound iid (inbound_toInput q)) (\<lambda>i. writeJSON 200 (InboundBody i)))"

definition handleDeleteInbound :: "string \<Rightarrow> ('x, response) io" where
  "handleDeleteInbound iid = render (NodeService_DeleteInbound iid) (\<lambda>_. noContent)"

definition plan_toInput :: "plan_request \<Rightarrow> plan_input" where
  "plan_toInput q = \<lparr>pi_Name = pr_Name q, pi_DataLimitBytes = pr_DataLimitBytes q, pi_DurationDays = pr_DurationDays q\<rparr>"

definition handleListPlans :: "('x, response) io" where
  "handleListPlans = render PlanService_List (\<lambda>ps. writeJSON 200 (PlansBody ps))"

definition handleCreatePlan :: "'x env \<Rightarrow> request \<Rightarrow> ('x, response) io" where
  "handleCreatePlan env r = decodeJSON env ''planRequest'' planRequest_fields planRequest r (\<lambda>q.
     render (PlanService_Create (plan_toInput q)) (\<lambda>p. writeJSON 201 (PlanBody p)))"

definition handleGetPlan :: "string \<Rightarrow> ('x, response) io" where
  "handleGetPlan pid = render (PlanService_Get pid) (\<lambda>p. writeJSON 200 (PlanBody p))"

definition handleUpdatePlan :: "'x env \<Rightarrow> string \<Rightarrow> request \<Rightarrow> ('x, response) io" where
  "handleUpdatePlan env pid r = decodeJSON env ''planRequest'' planRequest_fields planRequest r (\<lambda>q.
     render (PlanService_Update pid (plan_toInput q)) (\<lambda>p. writeJSON 200 (PlanBody p)))"

definition handleDeletePlan :: "string \<Rightarrow> ('x, response) io" where
  "handleDeletePlan pid = render (PlanService_Delete pid) (\<lambda>_. noContent)"

definition handleListAPIKeys :: "('x, response) io" where
  "handleListAPIKeys = render APIKeyService_List (\<lambda>ks. writeJSON 200 (KeysBody ks))"

definition handleCreateAPIKey :: "'x env \<Rightarrow> request \<Rightarrow> ('x, response) io" where
  "handleCreateAPIKey env r = decodeJSON env ''createAPIKeyRequest'' createAPIKeyRequest_fields createAPIKeyRequest r (\<lambda>q.
     render (APIKeyService_Create (car_Name q)) (\<lambda>c. writeJSON 201 (CreatedKeyBody (k_ID (ck_Key c)) (k_Name (ck_Key c)) (ck_Plaintext c))))"

definition handleRevokeAPIKey :: "string \<Rightarrow> ('x, response) io" where
  "handleRevokeAPIKey uid = render (APIKeyService_Revoke uid) (\<lambda>_. noContent)"

definition handleSystemStats :: "('x, response) io" where
  "handleSystemStats = render NodeService_List (\<lambda>ns. let n = (\<lambda>st. length (filter (\<lambda>n. n_Status n = st) ns)) in
     writeJSON 200 (StatsBody (length ns) (n NodeStatusOnline) (n NodeStatusOffline) (n NodeStatusUnknown) (n NodeStatusDisabled)))"


section \<open>Subscriptions and webhooks\<close>

definition RenderV2Ray :: "subscription \<Rightarrow> error + string" where
  "RenderV2Ray sub = V2Ray (sub_User sub) (sub_Inbounds sub)"

definition RenderClash :: "'x env \<Rightarrow> subscription \<Rightarrow> error + string" where
  "RenderClash env sub = Clash (env_yaml env) (sub_User sub) (sub_Inbounds sub)"

definition sniffFormat :: "string \<Rightarrow> string" where
  "sniffFormat ua = (let ua = ToLower ua in
     if Contains ua ''clash'' \<or> Contains ua ''mihomo'' \<or> Contains ua ''meta'' then ''clash'' else ''v2ray'')"

definition setSubHeaders :: "server \<Rightarrow> user \<Rightarrow> (string \<times> string) list" where
  "setSubHeaders srv u = [(''Subscription-Userinfo'', UserInfoHeader u)]
     @ (if 0 < srv_updateIntervalHours srv then [(''Profile-Update-Interval'', Itoa (srv_updateIntervalHours srv))] else [])
     @ [(''Profile-Title'', ''base64:'' @ b64_EncodeToString StdEncoding
           (bytes (if srv_profileTitle srv = [] then u_Email u else srv_profileTitle srv))),
        (''Content-Disposition'', ''inline; filename='' @ [CHR 0x22] @ u_Email u @ [CHR 0x22])]"

definition subscription_response :: "'x env \<Rightarrow> server \<Rightarrow> request \<Rightarrow> subscription \<Rightarrow> response" where
  "subscription_response env srv r sub =
     (let hs = setSubHeaders srv (sub_User sub);
          f = query_Get r ''format''; format = (if f = [] then sniffFormat (rq_UserAgent r) else f);
          clash = (format = ''clash'') in
      case (if clash then RenderClash env sub else RenderV2Ray sub) of
        Inl e \<Rightarrow> (writeError e)\<lparr>rs_Headers := hs @ rs_Headers (writeError e)\<rparr>
      | Inr body \<Rightarrow> \<lparr>rs_Status = 200, rs_Headers = hs @ [(''Content-Type'',
            if clash then ''text/yaml; charset=utf-8'' else ''text/plain; charset=utf-8'')], rs_Body = SubscriptionBody body\<rparr>)"

definition handleSubscription :: "'x env \<Rightarrow> server \<Rightarrow> string \<Rightarrow> request \<Rightarrow> ('x, response) io" where
  "handleSubscription env srv token r = render (SubscriptionByToken token) (subscription_response env srv r)"

definition handleSubscriptionInfo :: "string \<Rightarrow> ('x, response) io" where
  "handleSubscriptionInfo token = render (SubscriptionByToken token) (\<lambda>sub. let u = sub_User sub in
     writeJSON 200 (SubscriptionInfoBody (u_Email u) (u_Status u) (sint (u_UsedUploadBytes u)) (sint (u_UsedDownloadBytes u))
       (case u_DataLimitBytes u of None \<Rightarrow> 0 | Some l \<Rightarrow> sint l)
       (case u_ExpiresAt u of None \<Rightarrow> 0 | Some t \<Rightarrow> t div 1000000000)))"

definition maxWebhookBody :: nat where
  "maxWebhookBody = 1048576"

definition handleBillingWebhook :: "'x env \<Rightarrow> server \<Rightarrow> request \<Rightarrow> ('x, response) io" where
  "handleBillingWebhook env srv r =
     (if srv_billingSecret srv = [] then ret \<lparr>rs_Status = 404, rs_Headers = [], rs_Body = NotFoundBody\<rparr>
      else let body = bytes (take (maxWebhookBody + 1) (rq_Body r)) in
        if rq_BodyFails r \<or> maxWebhookBody < length body then ret (badRequest ''unreadable or oversized body'')
        else if \<not> VerifySignature (srv_billingSecret srv) body (rq_XWebhookSignature r)
          then ret (writeJSON 401 (ErrorBody ''invalid_signature'' (Inr ''signature verification failed'')))
        else render (BillingService_Process (env_json_text env ''BillingEvent'' (text_of body)) body) (\<lambda>res. writeJSON 200
          (BillingBody (br_Action res) (br_Duplicate res) (map_option (\<lambda>u. (u, SubURL (srv_publicBaseURL srv) u)) (br_User res)))))"

section \<open>Middleware\<close>

definition extractKey :: "request \<Rightarrow> string" where
  "extractKey r = (if HasPrefix (rq_Authorization r) ''Bearer ''
     then TrimSpace (drop (length ''Bearer '') (rq_Authorization r)) else TrimSpace (rq_XAPIKey r))"

definition authMiddleware :: "server \<Rightarrow> request \<Rightarrow> ('x, response) io \<Rightarrow> ('x, response) io" where
  "authMiddleware srv r next = bindE (APIKeyService_Verify (extractKey r) (srv_bootstrapKey srv)) (\<lambda>ok.
     if \<not> ok then ret (writeJSON 401 (ErrorBody ''unauthorized'' (Inr ''missing or invalid API key''))) else next)"

text \<open>
  The limiter of \<open>ratelimit.go\<close>. The token buckets are those of \<open>golang.org/x/time/rate\<close>: a new one
  for a number of requests per minute, and \<open>Allow\<close>, which reads the clock.
\<close>

record 'l rate_lib =
  rl_NewLimiter :: "int \<Rightarrow> 'l"
  rl_Allow :: "'l \<Rightarrow> time \<Rightarrow> bool \<times> 'l"

record 'l ip_bucket =
  bk_lim :: 'l
  bk_lastSeen :: time

record 'l ip_limiter =
  lim_buckets :: "(string \<times> 'l ip_bucket) list"
  lim_perMinute :: int

definition ipBucketTTL :: time where
  "ipBucketTTL = 600000000000"

definition newIPLimiter :: "int \<Rightarrow> 'l ip_limiter option" where
  "newIPLimiter perMinute = (if perMinute \<le> 0 then None else Some \<lparr>lim_buckets = [], lim_perMinute = perMinute\<rparr>)"

definition put_bucket :: "string \<Rightarrow> 'l ip_bucket \<Rightarrow> (string \<times> 'l ip_bucket) list \<Rightarrow> (string \<times> 'l ip_bucket) list" where
  "put_bucket ip b bs = (if ip \<in> fst ` set bs then map (\<lambda>e. if fst e = ip then (ip, b) else e) bs else bs @ [(ip, b)])"

definition pruneLocked :: "time \<Rightarrow> (string \<times> 'l ip_bucket) list \<Rightarrow> (string \<times> 'l ip_bucket) list" where
  "pruneLocked now bs = filter (\<lambda>e. \<not> bk_lastSeen (snd e) < now - ipBucketTTL) bs"

definition limiter_allow :: "'l rate_lib \<Rightarrow> string \<Rightarrow> 'l ip_limiter \<Rightarrow> ('x, bool \<times> 'l ip_limiter) io" where
  "limiter_allow L ip l = bindE time_Now (\<lambda>now.
     let lim = (case map_of (lim_buckets l) ip of None \<Rightarrow> rl_NewLimiter L (lim_perMinute l) | Some b \<Rightarrow> bk_lim b);
         bs = put_bucket ip \<lparr>bk_lim = lim, bk_lastSeen = now\<rparr> (lim_buckets l) in
     bindE (if 10000 < length bs then bindE time_Now (\<lambda>t. ret (pruneLocked t bs)) else ret bs) (\<lambda>bs.
     bindE time_Now (\<lambda>t. case rl_Allow L lim t of (ok, lim') \<Rightarrow>
       ret (ok, l\<lparr>lim_buckets := map (\<lambda>e. if fst e = ip then (ip, (snd e)\<lparr>bk_lim := lim'\<rparr>) else e) bs\<rparr>))))"

text \<open>\<open>net.SplitHostPort\<close>: the host, if the address is well-formed.\<close>

definition last_colon :: "string \<Rightarrow> nat option" where
  "last_colon s = LastIndex s '':''"

definition SplitHostPort :: "string \<Rightarrow> string option" where
  "SplitHostPort s = (case last_colon s of
      None \<Rightarrow> None
    | Some i \<Rightarrow>
        if s ! 0 = CHR ''['' then
          (let j = length (takeWhile (\<lambda>c. c \<noteq> CHR '']'') s) in
           if j = length s \<or> j + 1 \<noteq> i then None
           else let host = take (j - 1) (drop 1 s) in
             if CHR ''['' \<in> set (drop 1 s) \<or> CHR '']'' \<in> set (drop (j + 1) s) then None else Some host)
        else let host = take i s in
          if CHR '':'' \<in> set host \<or> CHR ''['' \<in> set s \<or> CHR '']'' \<in> set s then None else Some host)"

definition client_ip :: "request \<Rightarrow> string" where
  "client_ip r = (case SplitHostPort (rq_RemoteAddr r) of None \<Rightarrow> rq_RemoteAddr r | Some ip \<Rightarrow> ip)"

definition rateLimitMiddleware :: "'l rate_lib \<Rightarrow> 'l ip_limiter option \<Rightarrow> request \<Rightarrow> ('x, response) io
    \<Rightarrow> ('x, response \<times> 'l ip_limiter option) io" where
  "rateLimitMiddleware L lim r next = (case lim of
      None \<Rightarrow> bindE next (\<lambda>res. ret (res, None))
    | Some l \<Rightarrow> bindE (limiter_allow L (client_ip r) l) (\<lambda>(ok, l').
        if \<not> ok then ret ((writeJSON 429 (ErrorBody ''rate_limited'' (Inr ''too many requests'')))
            \<lparr>rs_Headers := [(''Retry-After'', ''60''), (''Content-Type'', ''application/json'')]\<rparr>, Some l')
        else bindE next (\<lambda>res. ret (res, Some l'))))"

section \<open>The route tree\<close>

datatype public_endpoint = SubscriptionE string | SubscriptionInfoE string | BillingWebhookE

datatype admin_endpoint =
    OpenAPIE | SystemStatsE
  | ListNodesE | CreateNodeE | GetNodeE string | UpdateNodeE string | DeleteNodeE string | ReconcileNodeE string
  | ListInboundsE string | CreateInboundE string | GetInboundE string | UpdateInboundE string | DeleteInboundE string
  | ListPlansE | CreatePlanE | GetPlanE string | UpdatePlanE string | DeletePlanE string
  | ListUsersE | CreateUserE | GetUserE string | UpdateUserE string | DeleteUserE string | SetUserInboundsE string
  | SuspendUserE string | ResumeUserE string | RenewUserE string | ResetTrafficE string | RotateSubTokenE string | UserUsageE string
  | ListAPIKeysE | CreateAPIKeyE | RevokeAPIKeyE string

datatype endpoint = HealthzE | MetricsE | PublicE public_endpoint | AdminE admin_endpoint

definition handlePublic :: "'x env \<Rightarrow> server \<Rightarrow> request \<Rightarrow> public_endpoint \<Rightarrow> ('x, response) io" where
  "handlePublic env srv r e = (case e of
      SubscriptionE token \<Rightarrow> handleSubscription env srv token r
    | SubscriptionInfoE token \<Rightarrow> handleSubscriptionInfo token
    | BillingWebhookE \<Rightarrow> handleBillingWebhook env srv r)"

definition handleAdmin :: "'x env \<Rightarrow> server \<Rightarrow> request \<Rightarrow> admin_endpoint \<Rightarrow> ('x, response) io" where
  "handleAdmin env srv r e = (case e of
      OpenAPIE \<Rightarrow> ret \<lparr>rs_Status = 200, rs_Headers = [(''Content-Type'', ''application/yaml'')], rs_Body = OpenAPIBody\<rparr>
    | SystemStatsE \<Rightarrow> handleSystemStats
    | ListNodesE \<Rightarrow> handleListNodes
    | CreateNodeE \<Rightarrow> handleCreateNode env r
    | GetNodeE i \<Rightarrow> handleGetNode i
    | UpdateNodeE i \<Rightarrow> handleUpdateNode env i r
    | DeleteNodeE i \<Rightarrow> handleDeleteNode i
    | ReconcileNodeE i \<Rightarrow> handleReconcileNode i
    | ListInboundsE i \<Rightarrow> handleListInbounds i
    | CreateInboundE i \<Rightarrow> handleCreateInbound env i r
    | GetInboundE i \<Rightarrow> handleGetInbound i
    | UpdateInboundE i \<Rightarrow> handleUpdateInbound env i r
    | DeleteInboundE i \<Rightarrow> handleDeleteInbound i
    | ListPlansE \<Rightarrow> handleListPlans
    | CreatePlanE \<Rightarrow> handleCreatePlan env r
    | GetPlanE i \<Rightarrow> handleGetPlan i
    | UpdatePlanE i \<Rightarrow> handleUpdatePlan env i r
    | DeletePlanE i \<Rightarrow> handleDeletePlan i
    | ListUsersE \<Rightarrow> handleListUsers srv r
    | CreateUserE \<Rightarrow> handleCreateUser env srv r
    | GetUserE i \<Rightarrow> handleGetUser srv i
    | UpdateUserE i \<Rightarrow> handleUpdateUser env srv i r
    | DeleteUserE i \<Rightarrow> handleDeleteUser i
    | SetUserInboundsE i \<Rightarrow> handleSetUserInbounds env srv i r
    | SuspendUserE i \<Rightarrow> handleSuspendUser srv i
    | ResumeUserE i \<Rightarrow> handleResumeUser srv i
    | RenewUserE i \<Rightarrow> handleRenewUser env srv i r
    | ResetTrafficE i \<Rightarrow> handleResetTraffic srv i
    | RotateSubTokenE i \<Rightarrow> handleRotateSubToken srv i
    | UserUsageE i \<Rightarrow> handleUserUsage env i r
    | ListAPIKeysE \<Rightarrow> handleListAPIKeys
    | CreateAPIKeyE \<Rightarrow> handleCreateAPIKey env r
    | RevokeAPIKeyE i \<Rightarrow> handleRevokeAPIKey i)"

definition serve :: "'x env \<Rightarrow> 'l rate_lib \<Rightarrow> server \<Rightarrow> 'l ip_limiter option \<Rightarrow> endpoint \<Rightarrow> request
    \<Rightarrow> ('x, response \<times> 'l ip_limiter option) io" where
  "serve env L srv lim e r = (case e of
      HealthzE \<Rightarrow> ret (writeJSON 200 (StatusBody ''ok''), lim)
    | MetricsE \<Rightarrow> ret (if srv_metricsEnabled srv then \<lparr>rs_Status = 200, rs_Headers = [], rs_Body = MetricsBody\<rparr>
        else \<lparr>rs_Status = 404, rs_Headers = [], rs_Body = NotFoundBody\<rparr>, lim)
    | PublicE p \<Rightarrow> rateLimitMiddleware L lim r (handlePublic env srv r p)
    | AdminE a \<Rightarrow> bindE (authMiddleware srv r (handleAdmin env srv r a)) (\<lambda>res. ret (res, lim)))"


section \<open>Requests keep what the statements keep\<close>

lemma keeps_render [pres]: "keeps P m \<Longrightarrow> keeps P (render m f)"
  unfolding render_def by (intro pres)

lemma keeps_decodeJSON [pres]: "(\<And>v. keeps P (k v)) \<Longrightarrow> keeps P (decodeJSON env type tags zero r k)"
  unfolding decodeJSON_def by (intro pres)

lemma preserves_limiter [pres]: "preserves I (limiter_allow L ip l)"
  unfolding limiter_allow_def by (intro pres)

lemma preserves_service_reads [pres]:
  "preserves I NodeService_List" "preserves I (NodeService_Get i)" "preserves I (NodeService_ListInbounds i)"
  "preserves I (NodeService_GetInbound i)" "preserves I PlanService_List" "preserves I (PlanService_Get i)"
  "preserves I APIKeyService_List" "preserves I (SubscriptionByToken t)" "preserves I (NodeService_Reconcile i)"
  unfolding NodeService_List_def NodeService_Get_def NodeService_ListInbounds_def NodeService_GetInbound_def PlanService_List_def
    PlanService_Get_def APIKeyService_List_def SubscriptionByToken_def NodeService_Reconcile_def
  by (intro pres)+

lemmas handler_defs = handleListNodes_def handleCreateNode_def handleGetNode_def handleUpdateNode_def handleDeleteNode_def
  handleReconcileNode_def handleListInbounds_def handleCreateInbound_def handleGetInbound_def handleUpdateInbound_def
  handleDeleteInbound_def handleListPlans_def handleCreatePlan_def handleGetPlan_def handleUpdatePlan_def handleDeletePlan_def
  handleListUsers_def handleCreateUser_def handleUpdateUser_def handleDeleteUser_def handleSetUserInbounds_def handleRenewUser_def
  handleUserUsage_def handleListAPIKeys_def handleCreateAPIKey_def handleRevokeAPIKey_def handleSystemStats_def userAction_def
  handleGetUser_def handleSuspendUser_def handleResumeUser_def handleResetTraffic_def handleRotateSubToken_def

context store_invariant begin

lemma billing [pres]: "preserves I (BillingService_Process err_text raw)"
  unfolding BillingService_Process_def process_event_def execute_def billing_provision_def billing_renew_def
    billing_cancel_def withUser_def resolveUser_def
  by (intro pres)

lemma admin_requests [pres]: "preserves I (handleAdmin env srv r a)"
  by (cases a) (simp_all add: handleAdmin_def handler_defs Let_def pres)

lemma public_requests [pres]: "preserves I (handlePublic env srv r p)"
  by (cases p) (simp_all add: handlePublic_def handleSubscription_def handleSubscriptionInfo_def handleBillingWebhook_def Let_def pres)

lemma requests [pres]: "preserves I (serve env L srv lim e r)"
  unfolding serve_def rateLimitMiddleware_def authMiddleware_def
  by (cases e) (simp_all add: keeps_ret, (intro pres)+)

end


section \<open>Who may change anything\<close>

text \<open>Whether a request carries what its endpoint demands: an API key or a signature.\<close>

definition authorized :: "server \<Rightarrow> endpoint \<Rightarrow> request \<Rightarrow> db \<Rightarrow> bool" where
  "authorized srv e r d = (case e of
      AdminE a \<Rightarrow> extractKey r \<noteq> [] \<and> (srv_bootstrapKey srv = extractKey r \<or> (\<exists>k \<in> set (db_api_keys d). live_key (HashKey (extractKey r)) k))
    | PublicE BillingWebhookE \<Rightarrow> srv_billingSecret srv \<noteq> [] \<and> rq_XWebhookSignature r \<noteq> [] \<and>
        rq_XWebhookSignature r = hex_EncodeToString (hmac_Sum (bytes (srv_billingSecret srv)) (bytes (take (maxWebhookBody + 1) (rq_Body r))))
    | _ \<Rightarrow> False)"

definition same_state :: "'x world \<Rightarrow> 'x world \<Rightarrow> bool" where
  "same_state w w' \<longleftrightarrow> w_db w' = w_db w \<and> w_sched w' = w_sched w \<and> w_heap w' = w_heap w \<and> w_actors w' = w_actors w \<and> w_remote w' = w_remote w"

lemma same_state_simps [simp]: "same_state w w" "same_state w (tick w)"
  by (simp_all add: same_state_def)

lemma same_state_trans: "same_state u v \<Longrightarrow> same_state v w \<Longrightarrow> same_state u w"
  by (simp add: same_state_def)

lemma Verify_refused:
  assumes "w_sched w = []" and "\<not> (p \<noteq> [] \<and> (b = p \<or> (\<exists>k \<in> set (db_api_keys (w_db w)). live_key (HashKey p) k)))"
  shows "APIKeyService_Verify p b w = (Inr False, w)"
proof -
  have "find (live_key (HashKey p)) (db_api_keys (w_db w)) = None" if "p \<noteq> []"
    using assms(2) that by (auto simp: find_None_iff)
  with assms show ?thesis
    by (auto simp: APIKeyService_Verify_def quiet subtleEqual_iff attempt_def FindAPIKeyByHash_def exec_quiet touch_api_key_def mapErr_def)
qed

lemma limiter_quiet: "\<exists>ok l' w'. limiter_allow L ip l w = (Inr (ok, l'), w') \<and> same_state w w'"
  by (auto simp: limiter_allow_def quiet Let_def same_state_def split: prod.splits)

lemma rateLimit_keeps:
  assumes "\<And>w'. same_state w w' \<Longrightarrow> \<exists>res w''. next w' = (Inr res, w'') \<and> same_state w w'' \<and> rs_Status res \<in> S"
  shows "\<exists>res lim' w'. rateLimitMiddleware L lim r next w = (Inr (res, lim'), w') \<and> same_state w w' \<and> rs_Status res \<in> insert 429 S"
proof (cases lim)
  case None
  then show ?thesis using assms [of w] by (auto simp: rateLimitMiddleware_def bindE_def ret_def)
next
  case (Some l)
  obtain ok l' w1 where l: "limiter_allow L (client_ip r) l w = (Inr (ok, l'), w1)" "same_state w w1"
    using limiter_quiet by blast
  with assms [OF l(2)] Some show ?thesis
    by (cases ok) (auto simp: rateLimitMiddleware_def bindE_def ret_def writeJSON_def)
qed

lemma find_token_quiet: "w_sched w = [] \<Longrightarrow> \<exists>r. SubscriptionByToken t w = (r, w)"
  by (auto simp: SubscriptionByToken_def quiet GetUserBySubToken_def scanUser_def find_row_quiet ListInboundsForUser_def
      queryInbounds_def rows_quiet split: option.splits)

lemma render_quiet: "m w = (r, w') \<Longrightarrow> \<exists>res. render m f w = (Inr res, w')"
  by (simp add: render_def bindE_def attempt_def ret_def)

lemma webhook_refused:
  assumes "\<not> authorized srv (PublicE BillingWebhookE) r d"
  shows "\<exists>res. handleBillingWebhook env srv r w = (Inr res, w) \<and> rs_Status res \<in> {400, 401, 404}"
  using assms
  by (auto simp: handleBillingWebhook_def authorized_def ret_def badRequest_def writeJSON_def Let_def VerifySignature_iff)

text \<open>C9: Without credentials nothing changes. A request to the administration API without a live
  API key or the bootstrap key is answered 401, a webhook without the right signature 400, 401, 404
  or 429, and neither these nor any other unauthenticated request changes the database, the
  actors or the nodes.\<close>

theorem unauthorized_no_effect:
  assumes q: "w_sched w = []" and "\<not> authorized srv e r (w_db w)"
  shows "\<exists>res lim' w'. serve env L srv lim e r w = (Inr (res, lim'), w') \<and> same_state w w' \<and>
    (\<forall>a. e = AdminE a \<longrightarrow> rs_Status res = 401) \<and> (e = PublicE BillingWebhookE \<longrightarrow> rs_Status res \<in> {429, 400, 401, 404})"
proof (cases e)
  case (AdminE a)
  with assms have "APIKeyService_Verify (extractKey r) (srv_bootstrapKey srv) w = (Inr False, w)"
    by (intro Verify_refused) (simp_all add: authorized_def)
  with AdminE show ?thesis by (simp add: serve_def authMiddleware_def bindE_def ret_def writeJSON_def)
next
  case (PublicE p)
  show ?thesis
  proof (cases "p = BillingWebhookE")
    case True
    have "\<exists>res lim' w'. rateLimitMiddleware L lim r (handlePublic env srv r p) w = (Inr (res, lim'), w') \<and> same_state w w' \<and>
       rs_Status res \<in> insert 429 {400, 401, 404}"
      by (rule rateLimit_keeps) (use webhook_refused assms(2) PublicE True in \<open>fastforce simp: handlePublic_def\<close>)
    with PublicE True show ?thesis by (auto simp: serve_def)
  next
    case False
    have "\<exists>res w''. handlePublic env srv r p w' = (Inr res, w'') \<and> same_state w w'' \<and> rs_Status res \<in> UNIV"
      if "same_state w w'" for w'
    proof -
      have "w_sched w' = []" using that q by (simp add: same_state_def)
      then have "\<exists>res w''. render (SubscriptionByToken t) f w' = (Inr res, w'') \<and> same_state w w''" for t f
        using find_token_quiet render_quiet that by blast
      then show ?thesis using False
        by (cases p) (simp_all add: handlePublic_def handleSubscription_def handleSubscriptionInfo_def)
    qed
    from rateLimit_keeps [of w _ UNIV L lim r, OF this] PublicE False show ?thesis by (auto simp: serve_def)
  qed
qed (auto simp: serve_def ret_def)


definition sample_server :: server where
  "sample_server = \<lparr>srv_publicBaseURL = ''http://h'', srv_bootstrapKey = ''root'', srv_billingSecret = ''s'', srv_metricsEnabled = True,
     srv_updateIntervalHours = 12, srv_profileTitle = ''''\<rparr>"

definition sample_request :: request where
  "sample_request = \<lparr>rq_Authorization = '''', rq_XAPIKey = '''', rq_XWebhookSignature = '''', rq_UserAgent = '''',
     rq_RemoteAddr = ''1.2.3.4:5'', rq_Query = [], rq_Body = '''', rq_BodyFails = False\<rparr>"

theorem unauthorized_no_effect_witness:
  "\<forall>(env :: unit env) (L :: unit rate_lib). \<exists>res lim' w'.
     serve env L sample_server None (AdminE (DeleteUserE ''u1'')) sample_request (sample_world (\<lambda>_. ())) = (Inr (res, lim'), w') \<and>
     w_db w' = sample_db \<and> rs_Status res = 401"
proof (intro allI)
  fix env :: "unit env" and L :: "unit rate_lib"
  let ?w = "sample_world (\<lambda>_. ()) :: unit world"
  have no: "\<not> authorized sample_server (AdminE (DeleteUserE ''u1'')) sample_request (w_db ?w)"
    by (simp add: authorized_def extractKey_def sample_request_def)
  have "w_sched ?w = []" "w_db ?w = sample_db" by (simp_all add: sample_world_def)
  with unauthorized_no_effect [OF _ no, of env L None]
  show "\<exists>res lim' w'. serve env L sample_server None (AdminE (DeleteUserE ''u1'')) sample_request ?w = (Inr (res, lim'), w') \<and>
     w_db w' = sample_db \<and> rs_Status res = 401"
    unfolding same_state_def by auto
qed

section \<open>Malformed bodies\<close>

text \<open>The fields that the body of a request may name, where the endpoint has a body.\<close>

definition body_names :: "admin_endpoint \<Rightarrow> string list option" where
  "body_names a = (case a of
      CreateNodeE \<Rightarrow> Some (map fst nodeRequest_fields) | UpdateNodeE _ \<Rightarrow> Some (map fst nodeRequest_fields)
    | CreateInboundE _ \<Rightarrow> Some (map fst inboundRequest_fields) | UpdateInboundE _ \<Rightarrow> Some (map fst inboundRequest_fields)
    | CreatePlanE \<Rightarrow> Some (map fst planRequest_fields) | UpdatePlanE _ \<Rightarrow> Some (map fst planRequest_fields)
    | CreateUserE \<Rightarrow> Some (map fst createUserRequest_fields) | UpdateUserE _ \<Rightarrow> Some (map fst updateUserRequest_fields)
    | SetUserInboundsE _ \<Rightarrow> Some (map fst setInboundsRequest_fields) | RenewUserE _ \<Rightarrow> Some (map fst renewUserRequest_fields)
    | CreateAPIKeyE \<Rightarrow> Some (map fst createAPIKeyRequest_fields)
    | _ \<Rightarrow> None)"

definition malformed :: "string list \<Rightarrow> string \<Rightarrow> bool" where
  "malformed names body = (case scan_value body of
      Inr (JNull, _) \<Rightarrow> False
    | Inr (JObject ms, _) \<Rightarrow> list_ex (\<lambda>(k, v). foldName k \<notin> foldName ` set names) ms
    | _ \<Rightarrow> True)"

lemma malformed_Decode:
  assumes "malformed (map fst tags) body"
  shows "\<exists>e. json_Decode tags zero body fails = Inl e"
proof (cases "scan_value body")
  case (Inr p)
  obtain v rest where p: "p = (v, rest)" by force
  show ?thesis
  proof (cases v)
    case (JObject ms)
    then obtain k where k: "k \<in> fst ` set ms" "foldName k \<notin> foldName ` fst ` set tags"
      using assms Inr p by (force simp: malformed_def list_ex_iff image_comp)
    from decode_struct_unknown [OF k(1) field_slot_None [OF k(2)]] show ?thesis by (simp add: json_Decode_def Inr p JObject)
  qed (use assms in \<open>simp_all add: json_Decode_def decode_struct_def malformed_def Inr p\<close>)
qed (simp add: json_Decode_def)

lemma decodeJSON_refuses:
  "malformed (map fst tags) (rq_Body r) \<Longrightarrow> \<exists>msg. decodeJSON env type tags zero r k w = (Inr (badRequest msg), w)"
  using malformed_Decode [of tags "rq_Body r" zero "rq_BodyFails r"] by (auto simp: decodeJSON_def ret_def)



section \<open>The limiter's memory is bounded\<close>




end
