(* ===== verification/Manager_Life.thy ===== *)
theory Manager_Life
  imports HttpApi
begin

text \<open>
  The life of the manager: its creation, the end of an actor's \<open>run\<close> and \<open>Stop\<close>. The invariant
  \<open>roster\<close> relates the manager's map to the actor objects: the actor registered for a node is the
  only one of that node that has not been told to stop, and a goroutine that has returned holds no
  connection. The locale \<open>actor_table\<close> carries a predicate on the actors from the three
  operations that services call on the manager to every request.
\<close>

section \<open>Creation and end\<close>

text \<open>A new manager has no actors.\<close>

definition NewManager :: "'x world \<Rightarrow> 'x world" where
  "NewManager w = w\<lparr>w_actors := (\<lambda>_. None), w_next := 0\<rparr>"

text \<open>\<open>run\<close> returns when the context is done or the stop channel closed; the deferred \<open>close\<close> drops the connection.\<close>

definition run_return :: "nat \<Rightarrow> ('x, unit) io" where
  "run_return k = bindE (actor_close k) (\<lambda>_. updA k (\<lambda>a. a\<lparr>a_running := False\<rparr>))"

text \<open>
  \<open>Stop\<close>: the context is cancelled, so every goroutine that still runs returns (\<open>wg.Wait\<close>), and then
  the actors in the map are closed.
\<close>

definition wait_actor :: "nat \<Rightarrow> ('x, unit) io" where
  "wait_actor k = bindE (getA k) (\<lambda>a. if a_running a then run_return k else ret ())"

definition close_registered :: "nat \<Rightarrow> ('x, unit) io" where
  "close_registered k = bindE (getA k) (\<lambda>a. bindE (getW (\<lambda>w. w_actors w (n_ID (a_node a)))) (\<lambda>r.
     if r = Some k then actor_close k else ret ()))"

definition Manager_Stop :: "('x, unit) io" where
  "Manager_Stop = bindE (getW (\<lambda>w. [0 ..< w_next w])) (\<lambda>ks.
     bindE (forEach ks wait_actor) (\<lambda>_. forEach ks close_registered))"

section \<open>What the services do to the actors\<close>

locale actor_table =
  fixes P :: "'x world \<Rightarrow> bool"
  assumes frame: "\<And>w w'. P w \<Longrightarrow> w_heap w' = w_heap w \<Longrightarrow> w_actors w' = w_actors w \<Longrightarrow> w_next w' = w_next w \<Longrightarrow> P w'"
    and trigger [pres]: "\<And>k. keeps P (triggerReconcile k)"
    and stop [pres]: "\<And>i. keeps P (StopNode i)"
    and start [pres]: "\<And>n. keeps P (StartNode n)"
begin

lemma calls [pres]: "keeps P (db_exec q)" "keeps P (tx_exec q)" "keeps P (db_query q')"
  by (auto simp: keeps_def db_query_def db_exec_def tx_exec_def next_call_def next_tx_call_def run_stmt_def
      split: option.splits sum.splits list.splits elim!: frame)

lemma sources [pres]: "keeps P time_Now" "keeps P uuid_NewString" "keeps P (rand_Read n)"
  by (auto simp: keeps_def time_Now_def uuid_NewString_def rand_Read_def split: list.splits elim!: frame)

lemma client_calls [pres]:
  "keeps P (callX (RemoveUser X c tag email))" "keeps P (callX (AddUser X c tag acc))"
  "keeps P (callX (Ping X c))" "keeps P (callX (QueryUserTraffic X c reset))"
  by (auto simp: keeps_def callX_def RemoveUser_def AddUser_def Ping_def QueryUserTraffic_def
      dest!: remote_call_keeps split: prod.splits sum.splits elim!: frame)

lemma transactions [pres]:
  assumes "keeps P fn" shows "keeps P (WithTx fn)"
proof (unfold keeps_def, intro allI impI)
  fix w assume "P w"
  have call: "P (snd (next_call w))" using \<open>P w\<close> by (auto simp: next_call_def split: list.splits elim!: frame)
  have tx: "P (snd (next_tx_call v))" if "P v" for v using that by (auto simp: next_tx_call_def split: list.splits elim!: frame)
  have fn: "P (snd (fn (snd (next_call w))))" by (rule keepsD [OF assms call])
  have undo: "P (v\<lparr>w_db := d\<rparr>)" if "P v" for v d by (rule frame [OF that]) simp_all
  show "P (snd (WithTx fn w))"
    using call fn tx [OF fn] undo by (auto simp: WithTx_def split: prod.splits option.splits sum.splits)
qed

lemma Reconcile_keeps [pres]: "keeps P (Reconcile n)"
  unfolding Reconcile_def by (intro pres)

lemma reconcile_targets_keeps [pres]: "keeps P (reconcile_targets ns seen)"
  by (induction ns arbitrary: seen) (auto intro!: pres)

lemma ReconcileForUser_keeps [pres]: "keeps P (ReconcileForUser u)"
  unfolding ReconcileForUser_def store_defs by (intro pres)

lemma user_service [pres]:
  "keeps P (UserService_Create inp)" "keeps P (UserService_Update uid upd)" "keeps P (UserService_SetInbounds uid ids)"
  "keeps P (UserService_Suspend uid)" "keeps P (UserService_Resume uid)" "keeps P (UserService_ResetTraffic uid)"
  "keeps P (UserService_Renew uid rn)" "keeps P (UserService_RotateSubToken uid)" "keeps P (UserService_Delete uid)"
  unfolding UserService_Create_def UserService_Update_def UserService_SetInbounds_def UserService_Suspend_def
    UserService_Resume_def UserService_ResetTraffic_def UserService_Renew_def UserService_RotateSubToken_def
    UserService_Delete_def Let_def create_tx_def renew_reset_def renew_revive_def save_user_def setStatusAndReconcile_def
    plan_terms_def new_user_def randToken_def renew_plan_def renew_expiry_def unexpired_def reconcileNodes_def store_defs scanUser_def
  by (intro pres)+

lemma node_service [pres]:
  "keeps P (NodeService_Create X ni)" "keeps P (NodeService_Update X uid ni)" "keeps P (NodeService_Delete uid)"
  "keeps P (NodeService_DeleteInbound uid)" "keeps P (NodeService_CreateInbound nid ii)" "keeps P (NodeService_UpdateInbound iid ii)"
  "keeps P (NodeService_Reconcile i)"
  unfolding NodeService_Create_def NodeService_Update_def NodeService_Delete_def NodeService_DeleteInbound_def launch_node_def probe_def
    NodeService_CreateInbound_def NodeService_UpdateInbound_def NodeService_Reconcile_def store_defs Let_def
  by (intro pres)+

lemma plan_and_key_services [pres]:
  "keeps P (PlanService_Create pin)" "keeps P (PlanService_Update uid pin)" "keeps P (PlanService_Delete uid)"
  "keeps P (APIKeyService_Create name)" "keeps P (APIKeyService_Revoke uid)" "keeps P (APIKeyService_Verify p b)"
  unfolding PlanService_Create_def PlanService_Update_def PlanService_Delete_def APIKeyService_Create_def
    APIKeyService_Revoke_def APIKeyService_Verify_def randToken_def store_defs Let_def
  by (intro pres)+

lemma service_reads [pres]:
  "keeps P NodeService_List" "keeps P (NodeService_Get i)" "keeps P (NodeService_ListInbounds i)"
  "keeps P (NodeService_GetInbound i)" "keeps P PlanService_List" "keeps P (PlanService_Get i)"
  "keeps P APIKeyService_List" "keeps P (SubscriptionByToken t)" "keeps P (UserService_Get i)" "keeps P (UserService_List f)"
  "keeps P (UserService_Usage day uid from until g)"
  unfolding NodeService_List_def NodeService_Get_def NodeService_ListInbounds_def NodeService_GetInbound_def PlanService_List_def
    PlanService_Get_def APIKeyService_List_def SubscriptionByToken_def UserService_Get_def UserService_List_def UserService_Usage_def
    ListUsers_def UserUsage_def store_defs scanUser_def
  by (intro pres)+

lemma billing [pres]: "keeps P (BillingService_Process err_text raw)"
  unfolding BillingService_Process_def process_event_def execute_def billing_provision_def billing_renew_def
    billing_cancel_def withUser_def resolveUser_def store_defs scanUser_def
  by (intro pres)

lemma requests: "keeps P (serve env L srv lim e r)"
proof -
  have admin: "keeps P (handleAdmin env srv r a)" for a
    by (cases a) (simp_all add: handleAdmin_def handler_defs Let_def pres)
  have public: "keeps P (handlePublic env srv r p)" for p
    by (cases p) (simp_all add: handlePublic_def handleSubscription_def handleSubscriptionInfo_def handleBillingWebhook_def Let_def pres)
  have limiter: "keeps P (limiter_allow L ip l)" for ip l
    unfolding limiter_allow_def by (intro pres)
  show ?thesis
    unfolding serve_def rateLimitMiddleware_def authMiddleware_def
    by (cases e) (simp_all add: keeps_ret, (intro pres admin public limiter)+)
qed

lemma sweepers: "keeps P expiry_pass" "keeps P (prune_pass n)"
  unfolding expiry_pass_def prune_pass_def store_defs by (intro pres)+

lemma starts: "keeps P Start"
  unfolding Start_def store_defs by (intro pres)

end

section \<open>One live actor per node\<close>

definition roster :: "nat set \<Rightarrow> 'x world \<Rightarrow> bool" where
  "roster K w \<longleftrightarrow>
     (\<forall>n k. w_actors w n = Some k \<longrightarrow> k < w_next w \<and> n_ID (a_node (w_heap w k)) = n \<and> \<not> a_stopCh (w_heap w k)) \<and>
     (\<forall>k < w_next w. \<not> a_stopCh (w_heap w k) \<longrightarrow> w_actors w (n_ID (a_node (w_heap w k))) = Some k) \<and>
     (\<forall>k < w_next w. \<not> a_running (w_heap w k) \<longrightarrow> a_client (w_heap w k) = None) \<and>
     (\<forall>k \<in> K. k < w_next w \<and> a_running (w_heap w k))"

lemma roster_facts:
  assumes "roster K w"
  shows "w_actors w n = Some k \<Longrightarrow> k < w_next w" "w_actors w n = Some k \<Longrightarrow> n_ID (a_node (w_heap w k)) = n"
    "w_actors w n = Some k \<Longrightarrow> \<not> a_stopCh (w_heap w k)"
    "k < w_next w \<Longrightarrow> \<not> a_stopCh (w_heap w k) \<Longrightarrow> w_actors w (n_ID (a_node (w_heap w k))) = Some k"
    "k < w_next w \<Longrightarrow> \<not> a_running (w_heap w k) \<Longrightarrow> a_client (w_heap w k) = None"
    "k \<in> K \<Longrightarrow> k < w_next w" "k \<in> K \<Longrightarrow> a_running (w_heap w k)"
  using assms unfolding roster_def by blast+

lemma rosterI:
  assumes "\<And>n k. w_actors w n = Some k \<Longrightarrow> k < w_next w \<and> n_ID (a_node (w_heap w k)) = n \<and> \<not> a_stopCh (w_heap w k)"
    and "\<And>k. k < w_next w \<Longrightarrow> \<not> a_stopCh (w_heap w k) \<Longrightarrow> w_actors w (n_ID (a_node (w_heap w k))) = Some k"
    and "\<And>k. k < w_next w \<Longrightarrow> \<not> a_running (w_heap w k) \<Longrightarrow> a_client (w_heap w k) = None"
    and "\<And>k. k \<in> K \<Longrightarrow> k < w_next w \<and> a_running (w_heap w k)"
  shows "roster K w"
  using assms unfolding roster_def by blast

lemma roster_same:
  assumes "roster K w" and fixed: "w_actors w' = w_actors w" "w_next w' = w_next w"
    "\<And>j. n_ID (a_node (w_heap w' j)) = n_ID (a_node (w_heap w j))" "\<And>j. a_stopCh (w_heap w' j) = a_stopCh (w_heap w j)"
    and ended: "\<And>j. j < w_next w \<Longrightarrow> \<not> a_running (w_heap w' j) \<Longrightarrow> a_client (w_heap w' j) = None"
    and runs: "\<And>j. j \<in> K' \<Longrightarrow> j < w_next w \<and> a_running (w_heap w' j)"
  shows "roster K' w'"
  using assms(1) ended runs unfolding roster_def fixed by blast

lemma roster_updA:
  assumes "\<And>a. n_ID (a_node (f a)) = n_ID (a_node a) \<and> a_stopCh (f a) = a_stopCh a \<and> a_running (f a) = a_running a"
    and "\<And>a. a_client (f a) = a_client a \<or> a_client (f a) = None \<or> k \<in> K"
  shows "keeps (roster K) (updA k f)"
proof (unfold keeps_def, intro allI impI)
  fix w :: "'x world" assume r: "roster K w"
  note a = assms(1) [of "w_heap w k"] assms(2) [of "w_heap w k"]
  show "roster K (snd (updA k f w))"
  proof (rule roster_same [OF r])
    fix j assume "j < w_next w" "\<not> a_running (w_heap (snd (updA k f w)) j)"
    then show "a_client (w_heap (snd (updA k f w)) j) = None"
      using roster_facts(5) [OF r, of j] roster_facts(7) [OF r, of k] a by (cases "j = k") (auto simp: updA_def modifyW_def)
  qed (use a roster_facts(6,7) [OF r] in \<open>auto simp: updA_def modifyW_def\<close>)
qed

lemma roster_drop:
  assumes r: "roster K w" and k: "w_actors w i = Some k"
  shows "roster K (w\<lparr>w_heap := (w_heap w)(k := (w_heap w k)\<lparr>a_stopCh := True\<rparr>), w_actors := (w_actors w)(i := None)\<rparr>)" (is "roster K ?w")
proof (rule rosterI)
  fix n j assume "w_actors ?w n = Some j"
  then have n: "n \<noteq> i" and j: "w_actors w n = Some j" by (simp_all split: if_splits)
  then have "j \<noteq> k" using roster_facts(2) [OF r j] roster_facts(2) [OF r k] by auto
  then show "j < w_next ?w \<and> n_ID (a_node (w_heap ?w j)) = n \<and> \<not> a_stopCh (w_heap ?w j)" using roster_facts(1-3) [OF r j] by simp
next
  fix j assume "j < w_next ?w" "\<not> a_stopCh (w_heap ?w j)"
  then have j: "j \<noteq> k" "w_actors w (n_ID (a_node (w_heap w j))) = Some j" using roster_facts(4) [OF r, of j] by (auto split: if_splits)
  then have "n_ID (a_node (w_heap w j)) \<noteq> i" using k by auto
  with j show "w_actors ?w (n_ID (a_node (w_heap ?w j))) = Some j" by simp
next
  fix j assume "j < w_next ?w" "\<not> a_running (w_heap ?w j)"
  then show "a_client (w_heap ?w j) = None" using roster_facts(5) [OF r, of j] by (cases "j = k") simp_all
next
  fix j assume "j \<in> K"
  then show "j < w_next ?w \<and> a_running (w_heap ?w j)" using roster_facts(6,7) [OF r] by (cases "j = k") simp_all
qed

lemma roster_add:
  assumes r: "roster K w" and free: "w_actors w (n_ID n) = None"
  shows "roster K (w\<lparr>w_heap := (w_heap w)(w_next w := newNodeActor n), w_actors := (w_actors w)(n_ID n \<mapsto> w_next w), w_next := Suc (w_next w)\<rparr>)"
    (is "roster K ?w")
proof (rule rosterI)
  fix i k assume "w_actors ?w i = Some k"
  then consider "i = n_ID n" "k = w_next w" | "i \<noteq> n_ID n" "w_actors w i = Some k" by (auto split: if_splits)
  then show "k < w_next ?w \<and> n_ID (a_node (w_heap ?w k)) = i \<and> \<not> a_stopCh (w_heap ?w k)"
  proof cases
    case 2
    then show ?thesis using roster_facts(1-3) [OF r 2(2)] by simp
  qed (simp add: newNodeActor_def)
next
  fix k assume k: "k < w_next ?w" "\<not> a_stopCh (w_heap ?w k)"
  show "w_actors ?w (n_ID (a_node (w_heap ?w k))) = Some k"
  proof (cases "k = w_next w")
    case False
    then have "w_actors w (n_ID (a_node (w_heap w k))) = Some k" using k roster_facts(4) [OF r, of k] by simp
    moreover from this have "n_ID (a_node (w_heap w k)) \<noteq> n_ID n" using free by auto
    ultimately show ?thesis using False by simp
  qed (simp add: newNodeActor_def)
next
  fix k assume "k < w_next ?w" "\<not> a_running (w_heap ?w k)"
  then show "a_client (w_heap ?w k) = None" using roster_facts(5) [OF r, of k] by (cases "k = w_next w") (simp_all add: newNodeActor_def)
next
  fix k assume "k \<in> K"
  then show "k < w_next ?w \<and> a_running (w_heap ?w k)" using roster_facts(6,7) [OF r, of k] by simp
qed

lemma StopNode_run:
  "StopNode i w = (Inr (), case w_actors w i of None \<Rightarrow> w
     | Some k \<Rightarrow> w\<lparr>w_heap := (w_heap w)(k := (w_heap w k)\<lparr>a_stopCh := True\<rparr>), w_actors := (w_actors w)(i := None)\<rparr>)"
  by (simp add: StopNode_def actor_stop_def updA_def getW_def modifyW_def bindE_def ret_def split: option.splits)

lemma roster_StopNode: "keeps (roster K) (StopNode i)"
  unfolding keeps_def StopNode_run by (simp add: roster_drop split: option.splits)

lemma StartNode_run: "StartNode n = bindE (StopNode (n_ID n)) (\<lambda>_. bindE (new_actor n) (\<lambda>_. ret ()))"
  by (rule ext) (simp add: StartNode_def StopNode_def getW_def bindE_def ret_def split: option.splits)

lemma roster_StartNode: "keeps (roster K) (StartNode n)"
proof (unfold keeps_def, intro allI impI)
  fix w :: "'x world" assume r: "roster K w"
  define w1 where "w1 = snd (StopNode (n_ID n) w)"
  have "roster K w1" unfolding w1_def by (rule keepsD [OF roster_StopNode r])
  moreover have "w_actors w1 (n_ID n) = None" by (simp add: w1_def StopNode_run split: option.splits)
  ultimately show "roster K (snd (StartNode n w))"
    using roster_add [of K w1 n] by (simp add: StartNode_run StopNode_run w1_def bindE_def new_actor_def ret_def)
qed

interpretation roster: actor_table "roster K :: 'x world \<Rightarrow> bool" for K
proof unfold_locales
  fix w w' :: "'x world"
  show "roster K w \<Longrightarrow> w_heap w' = w_heap w \<Longrightarrow> w_actors w' = w_actors w \<Longrightarrow> w_next w' = w_next w \<Longrightarrow> roster K w'"
    by (simp add: roster_def)
qed (unfold triggerReconcile_def, (rule roster_updA roster_StopNode roster_StartNode; simp)+)

lemma roster_actor_ops [pres]:
  "keeps (roster K) (updA k (\<lambda>a. a\<lparr>a_failCount := f a\<rparr>))" "keeps (roster K) (updA k (\<lambda>a. a\<lparr>a_online := b\<rparr>))"
  "keeps (roster K) (updA k (\<lambda>a. a\<lparr>a_lastUptime := u, a_online := b\<rparr>))"
  "keeps (roster K) (updA k (\<lambda>a. a\<lparr>a_node := (a_node a)\<lparr>n_Status := st\<rparr>\<rparr>))"
  "keeps (roster K) (updA k (\<lambda>a. a\<lparr>a_pendingDeltas := g a\<rparr>))" "keeps (roster K) (updA k (\<lambda>a. a\<lparr>a_reconcileCh := b\<rparr>))"
  "keeps (roster K) (dropClient k)" "keeps (roster K) (actor_close k)"
  "k \<in> K \<Longrightarrow> keeps (roster K) (updA k (\<lambda>a. a\<lparr>a_client := c\<rparr>))"
  unfolding dropClient_def actor_close_def by (rule roster_updA; simp)+

lemma roster_reconcile: "k \<in> K \<Longrightarrow> keeps (roster K) (reconcile X k)"
proof -
  assume k: "k \<in> K"
  have "keeps (roster K) (remove_all X k c ds)" for c ds
    by (induction ds) (auto simp: store_defs intro!: pres)
  moreover have "keeps (roster K) (add_all X k c ds)" for c ds
    by (induction ds) (auto simp: store_defs intro!: pres)
  ultimately show ?thesis unfolding reconcile_def ensureClient_def store_defs using k by (intro pres)
qed

lemma roster_run_turn: "keeps (roster {k}) (run_turn X k ev)"
proof -
  have k: "k \<in> {k}" by simp
  have "keeps (roster {k}) (checkHealth X k)" "keeps (roster {k}) (collect X k)"
    unfolding checkHealth_def health_failed_def health_passed_def setHealth_def collect_def ensureClient_def ApplyTrafficDeltas_def
      store_defs Let_def
    by (intro pres roster_reconcile k)+
  then show ?thesis unfolding run_turn_def by (cases ev) (simp_all add: pres roster_reconcile)
qed

lemma roster_run_return:
  assumes r: "roster {} w"
  shows "roster {} (snd (run_return k w))"
proof (rule roster_same [OF r])
  fix j assume "j < w_next w" "\<not> a_running (w_heap (snd (run_return k w)) j)"
  then show "a_client (w_heap (snd (run_return k w)) j) = None"
    using roster_facts(5) [OF r, of j]
    by (cases "j = k") (auto simp: run_return_def actor_close_def updA_def modifyW_def bindE_def)
qed (auto simp: run_return_def actor_close_def updA_def modifyW_def bindE_def)

lemma roster_NewManager: "roster {} (NewManager w)"
  by (simp add: roster_def NewManager_def)

text \<open>Two actors of a node that have not been told to stop are one.\<close>

lemma roster_unique:
  "roster K w \<Longrightarrow> j < w_next w \<Longrightarrow> k < w_next w \<Longrightarrow> \<not> a_stopCh (w_heap w j) \<Longrightarrow> \<not> a_stopCh (w_heap w k) \<Longrightarrow>
     n_ID (a_node (w_heap w j)) = n_ID (a_node (w_heap w k)) \<Longrightarrow> j = k"
  by (metis roster_def option.inject)

section \<open>Stopping\<close>

lemma forEach_wait:
  "forEach ks wait_actor w = (Inr (), w\<lparr>w_heap := (\<lambda>k. if k \<in> set ks \<and> a_running (w_heap w k)
     then (w_heap w k)\<lparr>a_client := None, a_running := False\<rparr> else w_heap w k)\<rparr>)"
proof (induction ks arbitrary: w)
  case (Cons k ks)
  have one: "wait_actor k w = (Inr (), w\<lparr>w_heap := (w_heap w)(k := if a_running (w_heap w k)
      then (w_heap w k)\<lparr>a_client := None, a_running := False\<rparr> else w_heap w k)\<rparr>)" for w :: "'x world"
    by (simp add: wait_actor_def getA_def getW_def bindE_def run_return_def actor_close_def updA_def modifyW_def ret_def)
  show ?case by (auto simp: bindE_def one Cons.IH intro!: world.equality)
qed (simp add: ret_def)

text \<open>\<open>Stop\<close> always returns, and afterwards no actor runs and no connection to a node is open: the
  invariant of the actors suffices, whatever state each of them is in. The database is not touched.\<close>

lemma Stop_stops_all:
  assumes "roster {} w"
  shows "\<exists>w'. Manager_Stop w = (Inr (), w') \<and> w_db w' = w_db w \<and>
    (\<forall>k < w_next w'. \<not> a_running (w_heap w' k) \<and> a_client (w_heap w' k) = None)"
proof -
  define w1 where "w1 = snd (forEach [0 ..< w_next w] wait_actor w)"
  let ?P = "\<lambda>v. w_db v = w_db w \<and> w_next v = w_next w \<and> (\<forall>k < w_next w. \<not> a_running (w_heap v k) \<and> a_client (w_heap v k) = None)"
  have P1: "?P w1" using assms by (auto simp: w1_def forEach_wait roster_def)
  have step: "\<exists>v'. close_registered k v = (Inr (), v') \<and> ?P v'" if "?P v" for k v
    using that by (auto simp: close_registered_def getA_def getW_def bindE_def actor_close_def updA_def modifyW_def ret_def)
  have loop: "\<exists>v'. forEach ks close_registered v = (Inr (), v') \<and> ?P v'" if "?P v" for ks v
    using that
  proof (induction ks arbitrary: v)
    case (Cons k ks)
    from step [OF Cons.prems, of k] Cons.IH show ?case by (fastforce simp: bindE_def)
  qed (simp add: ret_def)
  from loop [OF P1, of "[0 ..< w_next w]"] show ?thesis
    by (auto simp: Manager_Stop_def getW_def bindE_def forEach_wait w1_def)
qed

end
