(* ===== verification/System.thy ===== *)
theory System
  imports Config Manager_Life
begin

text \<open>
  The whole program as a transition system: a request served to its end, a turn of an actor, a
  pass of a sweeper, the end of a goroutine and the cancellation of the manager's context, in any
  order. What happens between two statements of a step is the schedule of the world, so
  interleavings are steps with interference. The state has the rate limiter, whether the context
  is cancelled, and the world.
\<close>

section \<open>Steps\<close>

type_synonym ('x, 'l) sys = "'l ip_limiter option \<times> bool \<times> 'x world"

text \<open>
  An actor that runs may take any turn whose channel is ready; when the context is cancelled or its
  stop channel closed it may also return. \<open>select\<close> chooses among the ready channels at random.
\<close>

inductive step :: "'x env \<Rightarrow> 'l rate_lib \<Rightarrow> config \<Rightarrow> ('x, 'l) sys \<Rightarrow> ('x, 'l) sys \<Rightarrow> bool"
  for env :: "'x env" and L :: "'l rate_lib" and cfg :: config where
  request: "serve env L (NewServer cfg) lim e r w = (Inr (res, lim'), w') \<Longrightarrow> step env L cfg (lim, c, w) (lim', c, w')"
| turn: "k < w_next w \<Longrightarrow> a_running (w_heap w k) \<Longrightarrow> ev \<noteq> ReconcileTrigger \<or> a_reconcileCh (w_heap w k) \<Longrightarrow>
    run_turn (env_Xray env) k ev w = (res, w') \<Longrightarrow> step env L cfg (lim, c, w) (lim, c, w')"
| return: "k < w_next w \<Longrightarrow> a_running (w_heap w k) \<Longrightarrow> c \<or> a_stopCh (w_heap w k) \<Longrightarrow>
    run_return k w = (res, w') \<Longrightarrow> step env L cfg (lim, c, w) (lim, c, w')"
| expiry: "expiry_pass w = (res, w') \<Longrightarrow> step env L cfg (lim, c, w) (lim, c, w')"
| prune: "prune_pass (wc_SnapshotRetentionDays (workerConfig cfg)) w = (res, w') \<Longrightarrow> step env L cfg (lim, c, w) (lim, c, w')"
| cancel: "step env L cfg (lim, c, w) (lim, True, w)"

inductive_cases stepE: "step env L cfg s s'"

text \<open>The states reached from a start of a new manager.\<close>

inductive reachable :: "'x env \<Rightarrow> 'l rate_lib \<Rightarrow> config \<Rightarrow> 'x world \<Rightarrow> ('x, 'l) sys \<Rightarrow> bool"
  for env :: "'x env" and L :: "'l rate_lib" and cfg :: config and w0 :: "'x world" where
  start: "Start (NewManager w0) = (res, w) \<Longrightarrow> reachable env L cfg w0 (newIPLimiter (cfg_PublicPerMinute cfg), False, w)"
| run: "reachable env L cfg w0 s \<Longrightarrow> step env L cfg s s' \<Longrightarrow> reachable env L cfg w0 s'"

section \<open>Invariants\<close>

abbreviation the_world :: "('x, 'l) sys \<Rightarrow> 'x world" where
  "the_world s \<equiv> snd (snd s)"

lemma preserves_Start [pres]: "preserves I Start"
  unfolding Start_def StartNode_def by (intro pres)

lemma preserves_run_return [pres]: "preserves I (run_return k)"
  unfolding run_return_def by (intro pres)

lemma holdsW_NewManager: "holdsW I (NewManager w) = holdsW I w"
  by (simp add: NewManager_def holdsW_def rely_def)

context store_invariant begin

lemma step_keeps: "step env L cfg s s' \<Longrightarrow> holdsW I (the_world s) \<Longrightarrow> holdsW I (the_world s')"
proof (induction rule: step.induct)
  case (request lim e r w res lim' w' c)
  then show ?case using keepsD [OF requests, of w env L "NewServer cfg" lim e r] by simp
next
  case (turn k w ev res w' lim c)
  then show ?case using keepsD [OF turns, of w "env_Xray env" k ev] by simp
next
  case (return k w c res w' lim)
  then show ?case using keepsD [OF preserves_run_return, of I w k] by simp
next
  case (expiry w res w' lim c)
  then show ?case using keepsD [OF worker(4), of w] by simp
next
  case (prune w res w' lim c)
  then show ?case using keepsD [OF worker(5), of w "wc_SnapshotRetentionDays (workerConfig cfg)"] by simp
qed simp

lemma reachable_keeps: "reachable env L cfg w0 s \<Longrightarrow> holdsW I w0 \<Longrightarrow> holdsW I (the_world s)"
proof (induction rule: reachable.induct)
  case (start res w)
  then show ?case using keepsD [OF preserves_Start, of I "NewManager w0"] by (simp add: holdsW_NewManager)
qed (simp add: step_keeps)

end

lemma step_roster: "step env L cfg s s' \<Longrightarrow> roster {} (the_world s) \<Longrightarrow> roster {} (the_world s')"
proof (induction rule: step.induct)
  case (request lim e r w res lim' w' c)
  then show ?case using keepsD [OF roster.requests, of "{}" w env L "NewServer cfg" lim e r] by simp
next
  case (turn k w ev res w' lim c)
  then have "roster {k} w" by (simp add: roster_def)
  then have "roster {k} w'" using keepsD [OF roster_run_turn, of k w "env_Xray env" ev] turn(4) by simp
  then show ?case by (simp add: roster_def)
next
  case (return k w c res w' lim)
  then show ?case using roster_run_return [of w k] by simp
next
  case (expiry w res w' lim c)
  then show ?case using keepsD [OF roster.sweepers(1), of "{}" w] by simp
next
  case (prune w res w' lim c)
  then show ?case using keepsD [OF roster.sweepers(2), of "{}" w "wc_SnapshotRetentionDays (workerConfig cfg)"] by simp
qed simp

lemma reachable_roster: "reachable env L cfg w0 s \<Longrightarrow> roster {} (the_world s)"
proof (induction rule: reachable.induct)
  case (start res w)
  then show ?case using keepsD [OF roster.starts, of "{}" "NewManager w0"] roster_NewManager [of w0] by simp
qed (simp add: step_roster)


lemma catalog_valid_desired:
  assumes "catalog_valid d" and "a \<in> set (desired_for_node n d)"
  shows "\<exists>pu. buildUser (accountFor a) = Inr pu"
proof -
  obtain r i u where "a = desired_row r i u" "i \<in> set (db_inbounds d)"
    using assms(2) unfolding desired_for_node_def mem_join_assignments by blast
  with assms(1) show ?thesis by (simp add: catalog_valid_def valid_inbound_builds)
qed

text \<open>C7: In every state the program reaches, whatever requests and worker turns came before and
  whatever other sessions did in between that keeps these conditions: the keys and references
  of all tables are intact, every stored inbound is valid, and every account that some node
  should have can be encoded for it, so no reconcile pass stumbles over bad data.\<close>

theorem system_invariant:
  assumes "reachable env L cfg w0 (lim, c, w)" and "holdsW wf_db w0" and "holdsW catalog_valid w0"
  shows "wf_db (w_db w) \<and> catalog_valid (w_db w) \<and>
    (\<forall>n. \<forall>a \<in> set (desired_for_node n (w_db w)). \<exists>pu. buildUser (accountFor a) = Inr pu)"
proof -
  have "wf_db (w_db w)" using schema.reachable_keeps [OF assms(1,2)] by (simp add: holdsW_def)
  moreover have "catalog_valid (w_db w)" using catalog.reachable_keeps [OF assms(1,3)] by (simp add: holdsW_def)
  ultimately show ?thesis using catalog_valid_desired by blast
qed

theorem system_invariant_witness:
  "\<forall>(env :: unit env) (L :: unit rate_lib). \<exists>w. reachable env L Default (sample_world (\<lambda>_. ())) (newIPLimiter (cfg_PublicPerMinute Default), False, w) \<and>
     wf_db (w_db w) \<and> catalog_valid (w_db w)"
proof (intro allI)
  fix env :: "unit env" and L :: "unit rate_lib"
  let ?w = "sample_world (\<lambda>_. ()) :: unit world"
  obtain res w1 where "Start (NewManager ?w) = (res, w1)" by force
  then have "reachable env L Default ?w (newIPLimiter (cfg_PublicPerMinute Default), False, w1)" by (rule reachable.start)
  moreover obtain res' w where "expiry_pass w1 = (res', w)" by force
  ultimately have r: "reachable env L Default ?w (newIPLimiter (cfg_PublicPerMinute Default), False, w)"
    by (blast intro: reachable.run step.expiry)
  have "catalog_valid sample_db" by code_simp
  then have "holdsW wf_db ?w" "holdsW catalog_valid ?w" by (simp_all add: holdsW_def rely_def sample_world_def wf_sample_db)
  from system_invariant [OF r this] r
  show "\<exists>w. reachable env L Default ?w (newIPLimiter (cfg_PublicPerMinute Default), False, w) \<and> wf_db (w_db w) \<and> catalog_valid (w_db w)" by blast
qed

text \<open>C8: In every state the program reaches, a node has at most one actor that has not been told to
  stop, the manager's map holds exactly these actors, each under the node it serves, and an actor
  whose goroutine has ended holds no connection. So no two live actors work on one node.\<close>

theorem one_live_actor:
  assumes "reachable env L cfg w0 (lim, c, w)"
  shows "(\<forall>n k. w_actors w n = Some k \<longleftrightarrow> k < w_next w \<and> n_ID (a_node (w_heap w k)) = n \<and> \<not> a_stopCh (w_heap w k)) \<and>
    (\<forall>j k. j < w_next w \<and> k < w_next w \<and> \<not> a_stopCh (w_heap w j) \<and> \<not> a_stopCh (w_heap w k) \<and>
       n_ID (a_node (w_heap w j)) = n_ID (a_node (w_heap w k)) \<longrightarrow> j = k) \<and>
    (\<forall>k < w_next w. a_running (w_heap w k) \<or> a_client (w_heap w k) = None)"
proof -
  have r: "roster {} w" using reachable_roster [OF assms] by simp
  have "w_actors w n = Some k \<longleftrightarrow> k < w_next w \<and> n_ID (a_node (w_heap w k)) = n \<and> \<not> a_stopCh (w_heap w k)" for n k
    using roster_facts(1-3) [OF r, of n k] roster_facts(4) [OF r, of k] by auto
  moreover have "a_running (w_heap w k) \<or> a_client (w_heap w k) = None" if "k < w_next w" for k
    using roster_facts(5) [OF r that] by (cases "a_running (w_heap w k)") simp_all
  moreover have "j = k" if "j < w_next w \<and> k < w_next w \<and> \<not> a_stopCh (w_heap w j) \<and> \<not> a_stopCh (w_heap w k) \<and>
       n_ID (a_node (w_heap w j)) = n_ID (a_node (w_heap w k))" for j k
    using that by (intro roster_unique [OF r]) simp_all
  ultimately show ?thesis by simp
qed

theorem one_live_actor_witness:
  "\<forall>(env :: unit env) (L :: unit rate_lib). \<exists>lim w. reachable env L Default (sample_world (\<lambda>_. ())) (lim, False, w) \<and>
     w_actors w ''n1'' = Some 0 \<and> \<not> a_stopCh (w_heap w 0)"
proof (intro allI)
  fix env :: "unit env" and L :: "unit rate_lib"
  let ?r = "Start (NewManager (sample_world (\<lambda>_. ()))) :: (error + unit) \<times> unit world"
  have reg: "w_actors (snd ?r) ''n1'' = Some 0" by code_simp
  have r: "reachable env L Default (sample_world (\<lambda>_. ())) (newIPLimiter (cfg_PublicPerMinute Default), False, snd ?r)"
    by (rule reachable.start [of _ "fst ?r"]) simp
  have "\<not> a_stopCh (w_heap (snd ?r) 0)" using one_live_actor [OF r] reg by blast
  with r reg show "\<exists>lim w. reachable env L Default (sample_world (\<lambda>_. ())) (lim, False, w) \<and>
     w_actors w ''n1'' = Some 0 \<and> \<not> a_stopCh (w_heap w 0)" by blast
qed

section \<open>Every request is answered\<close>

definition answered :: "('x, 'a) io \<Rightarrow> bool" where
  "answered m \<longleftrightarrow> (\<forall>w. \<exists>a w'. m w = (Inr a, w'))"

named_theorems ans \<open>calls that never fail\<close>

lemma answered_ret [ans]: "answered (ret a)"
  by (simp add: answered_def ret_def)

lemma answered_bindE [ans]: "answered m \<Longrightarrow> (\<And>a. answered (f a)) \<Longrightarrow> answered (bindE m f)"
proof (unfold answered_def, intro allI)
  fix w assume m: "\<forall>w. \<exists>a w'. m w = (Inr a, w')" and f: "\<And>a. \<forall>w. \<exists>b w'. f a w = (Inr b, w')"
  obtain a w1 where "m w = (Inr a, w1)" using m by blast
  then show "\<exists>b w'. bindE m f w = (Inr b, w')" using f by (simp add: bindE_def)
qed

lemma answered_attempt [ans]: "answered (attempt m)"
  by (simp add: answered_def attempt_def split: prod.splits)

lemma answered_time_Now [ans]: "answered time_Now"
  by (simp add: answered_def time_Now_def)

lemma answered_if [ans]: "answered m \<Longrightarrow> answered n \<Longrightarrow> answered (if b then m else n)"
  by simp

lemma answered_option [ans]: "answered m \<Longrightarrow> (\<And>a. answered (f a)) \<Longrightarrow> answered (case z of None \<Rightarrow> m | Some a \<Rightarrow> f a)"
  by (cases z) auto

lemma answered_sum [ans]: "(\<And>e. answered (g e)) \<Longrightarrow> (\<And>a. answered (f a)) \<Longrightarrow> answered (case z of Inl e \<Rightarrow> g e | Inr a \<Rightarrow> f a)"
  by (cases z) auto

lemma answered_prod [ans]: "(\<And>a b. answered (f a b)) \<Longrightarrow> answered (case z of (a, b) \<Rightarrow> f a b)"
  by (cases z) auto

lemma answered_handlers [ans]: "answered (render m g)" "(\<And>v. answered (k v)) \<Longrightarrow> answered (decodeJSON env type tags zero r k)"
  unfolding render_def decodeJSON_def by (intro ans; assumption?)+

lemma answered_admin [ans]: "answered (handleAdmin env srv r a)"
  by (cases a) (simp_all add: handleAdmin_def handler_defs Let_def ans)

lemma answered_public [ans]: "answered (handlePublic env srv r p)"
  by (cases p) (simp_all add: handlePublic_def handleSubscription_def handleSubscriptionInfo_def handleBillingWebhook_def Let_def ans)

lemma answered_middleware [ans]: "answered (APIKeyService_Verify k b)" "answered (limiter_allow L ip l)"
  unfolding APIKeyService_Verify_def limiter_allow_def Let_def by (intro ans)+


end
