(* ===== verification/Startup.thy ===== *)
theory Startup
  imports System
begin

text \<open>
  \<open>store.Open\<close> with its migration, and the commands of \<open>cmd/xray-api\<close>: dispatch, logger, \<open>serve\<close> from
  the configuration to the shutdown, and \<open>gen-key\<close>. The database driver and the migration library
  are an argument that tells which of their calls fail; the calls made are recorded in order, so
  that the resources held at the end can be stated.
\<close>

section \<open>Opening the store\<close>

datatype db_action =
    SqlOpen string | PingDB | SetDialect string | TakeConn | AdvisoryLock int | GooseUp string | AdvisoryUnlock int | CloseConn | CloseDB

type_synonym driver = "db_action \<Rightarrow> string option"

datatype open_error =
    OpenDatabase string | PingDatabase string | DialectError string | MigrationConn string | MigrationLock string | RunMigrations string

definition advisoryLockKey :: int where
  "advisoryLockKey = 0x78726179"

text \<open>The deferred calls run in reverse order: unlock, then close the connection.\<close>

definition migrate :: "driver \<Rightarrow> open_error option \<times> db_action list" where
  "migrate drv = (case drv (SetDialect ''postgres'') of
      Some e \<Rightarrow> (Some (DialectError e), [SetDialect ''postgres''])
    | None \<Rightarrow> (case drv TakeConn of
        Some e \<Rightarrow> (Some (MigrationConn e), [SetDialect ''postgres'', TakeConn])
      | None \<Rightarrow> (case drv (AdvisoryLock advisoryLockKey) of
          Some e \<Rightarrow> (Some (MigrationLock e), [SetDialect ''postgres'', TakeConn, AdvisoryLock advisoryLockKey, CloseConn])
        | None \<Rightarrow> (map_option RunMigrations (drv (GooseUp ''migrations'')),
            [SetDialect ''postgres'', TakeConn, AdvisoryLock advisoryLockKey, GooseUp ''migrations'',
             AdvisoryUnlock advisoryLockKey, CloseConn]))))"

definition Open :: "driver \<Rightarrow> string \<Rightarrow> open_error option \<times> db_action list" where
  "Open drv dsn = (case drv (SqlOpen dsn) of
      Some e \<Rightarrow> (Some (OpenDatabase e), [SqlOpen dsn])
    | None \<Rightarrow> (case drv PingDB of
        Some e \<Rightarrow> (Some (PingDatabase e), [SqlOpen dsn, PingDB, CloseDB])
      | None \<Rightarrow> (case migrate drv of
          (Some e, acts) \<Rightarrow> (Some e, [SqlOpen dsn, PingDB] @ acts @ [CloseDB])
        | (None, acts) \<Rightarrow> (None, [SqlOpen dsn, PingDB] @ acts))))"

text \<open>
  What a sequence of calls leaves open. Closing the handle ends all its sessions, and with them an
  advisory lock.
\<close>

datatype resource = Handle | Conn | Lock

fun holds :: "driver \<Rightarrow> resource list \<Rightarrow> db_action list \<Rightarrow> resource list" where
  "holds drv rs [] = rs"
| "holds drv rs (a # acts) = holds drv (case a of
      SqlOpen _ \<Rightarrow> if drv a = None then Handle # rs else rs
    | TakeConn \<Rightarrow> if drv a = None then Conn # rs else rs
    | AdvisoryLock _ \<Rightarrow> if drv a = None then Lock # rs else rs
    | AdvisoryUnlock _ \<Rightarrow> if drv a = None then removeAll Lock rs else rs
    | CloseConn \<Rightarrow> removeAll Conn rs
    | CloseDB \<Rightarrow> []
    | _ \<Rightarrow> rs) acts"

lemma holds_append: "holds drv rs (xs @ ys) = holds drv (holds drv rs xs) ys"
  by (induction xs arbitrary: rs) simp_all

lemma holds_closed [simp]: "holds drv rs (acts @ [CloseDB]) = []"
  by (simp add: holds_append)

lemma Open_failed: "Open drv dsn = (Some e, acts) \<Longrightarrow> holds drv [] acts = []"
  by (auto simp: Open_def append_assoc [symmetric] simp del: append_assoc split: option.splits prod.splits)

lemma Open_done:
  "Open drv dsn = (None, acts) \<Longrightarrow> holds drv [] acts = (if drv (AdvisoryUnlock advisoryLockKey) = None then [Handle] else [Lock, Handle])"
  by (auto simp: Open_def migrate_def split: option.splits prod.splits)

lemma Open_locks:
  assumes "snd (Open drv dsn) = pre @ GooseUp d # post"
  shows "Lock \<in> set (holds drv [] pre)"
proof -
  have "d = ''migrations'' \<and> pre = [SqlOpen dsn, PingDB, SetDialect ''postgres'', TakeConn, AdvisoryLock advisoryLockKey]
      \<and> drv (AdvisoryLock advisoryLockKey) = None"
    using assms by (auto simp: Open_def migrate_def Cons_eq_append_conv append_eq_Cons_conv split: option.splits prod.splits)
  then show ?thesis by simp
qed

text \<open>The store opens safely. Migrations run only while the advisory lock is held; if opening
  fails at any point, nothing stays open; if it succeeds, the handle is open, the connection used
  for the migration has been given back, and the lock has been released unless the release failed.\<close>

lemma Open_safe:
  "(\<forall>pre d post. snd (Open drv dsn) = pre @ GooseUp d # post \<longrightarrow> Lock \<in> set (holds drv [] pre)) \<and>
   (case Open drv dsn of
      (Some e, acts) \<Rightarrow> holds drv [] acts = []
    | (None, acts) \<Rightarrow> Handle \<in> set (holds drv [] acts) \<and> Conn \<notin> set (holds drv [] acts) \<and>
        (drv (AdvisoryUnlock advisoryLockKey) = None \<longrightarrow> Lock \<notin> set (holds drv [] acts)))"
proof -
  obtain r acts where o: "Open drv dsn = (r, acts)" by force
  have "Handle \<in> set (holds drv [] acts) \<and> Conn \<notin> set (holds drv [] acts) \<and>
      (drv (AdvisoryUnlock advisoryLockKey) = None \<longrightarrow> Lock \<notin> set (holds drv [] acts))" if "r = None"
    using Open_done [OF o [unfolded that]] by (cases "drv (AdvisoryUnlock advisoryLockKey)") simp_all
  then have "case Open drv dsn of
      (Some e, acts) \<Rightarrow> holds drv [] acts = []
    | (None, acts) \<Rightarrow> Handle \<in> set (holds drv [] acts) \<and> Conn \<notin> set (holds drv [] acts) \<and>
        (drv (AdvisoryUnlock advisoryLockKey) = None \<longrightarrow> Lock \<notin> set (holds drv [] acts))"
    using o Open_failed [of drv dsn _ acts] by (simp split: option.splits)
  with Open_locks [of drv dsn] show ?thesis by blast
qed

section \<open>Commands\<close>

datatype command = Serve "string list" | GenKey "string list" | Version | Usage

text \<open>The arguments after the program's name.\<close>

definition main_command :: "string list \<Rightarrow> command" where
  "main_command args = (case args of
      [] \<Rightarrow> Serve []
    | a # rest \<Rightarrow> if a = ''serve'' then Serve rest else if a = ''gen-key'' then GenKey rest
        else if a = ''version'' then Version else if a \<in> {''-h'', ''--help'', ''help''} then Usage else Serve args)"

datatype log_level = LevelDebug | LevelInfo | LevelWarn | LevelError

datatype log_handler = JSONHandler | TextHandler

definition newLogger :: "config \<Rightarrow> log_level \<times> log_handler" where
  "newLogger c =
     (if cfg_LogLevel c = ''debug'' then LevelDebug else if cfg_LogLevel c = ''warn'' then LevelWarn
      else if cfg_LogLevel c = ''error'' then LevelError else LevelInfo,
      if cfg_LogFormat c = ''json'' then JSONHandler else TextHandler)"

text \<open>
  How serving ends: \<open>ListenAndServe\<close> fails, or a signal arrives and \<open>Shutdown\<close> returns, perhaps with
  an error.
\<close>

datatype ending = ListenFailed string | Signalled "string option"

definition exit_code :: "ending \<Rightarrow> int" where
  "exit_code e = (case e of ListenFailed _ \<Rightarrow> 1 | Signalled (Some _) \<Rightarrow> 1 | Signalled None \<Rightarrow> 0)"

text \<open>
  \<open>runServe\<close>: the exit code, the calls of the driver, and the final world. The argument \<open>life\<close> is
  what requests, actors and sweepers do between the start and the end. The deferred calls stop the
  manager, then close the store.
\<close>

definition runServe :: "loader \<Rightarrow> environment \<Rightarrow> driver \<Rightarrow> ('x world \<Rightarrow> 'x world \<times> ending) \<Rightarrow> string list \<Rightarrow> 'x world
    \<Rightarrow> int \<times> db_action list \<times> 'x world" where
  "runServe ld vars drv life args w = (case Load ld vars (configPath vars args) of
      Inl e \<Rightarrow> (1, [], w)
    | Inr cfg \<Rightarrow> (case Open drv (cfg_DSN cfg) of
        (Some e, acts) \<Rightarrow> (1, acts, w)
      | (None, acts) \<Rightarrow> (case Start (NewManager w) of
          (Inl e, w1) \<Rightarrow> (1, acts @ [CloseDB], w1)
        | (Inr _, w1) \<Rightarrow> (case life w1 of (w2, e) \<Rightarrow> (exit_code e, acts @ [CloseDB], snd (Manager_Stop w2))))))"

definition runGenKey :: "loader \<Rightarrow> environment \<Rightarrow> driver \<Rightarrow> string list \<Rightarrow> 'x world \<Rightarrow> (int \<times> created_key option) \<times> db_action list \<times> 'x world" where
  "runGenKey ld vars drv args w = (case genkey_args args ''admin'' [] of (name, path) \<Rightarrow>
     let path = (if path = [] then Getenv vars ''XRAY_API_CONFIG'' else path) in
     case Load ld vars path of
       Inl e \<Rightarrow> ((1, None), [], w)
     | Inr cfg \<Rightarrow> (case Open drv (cfg_DSN cfg) of
         (Some e, acts) \<Rightarrow> ((1, None), acts, w)
       | (None, acts) \<Rightarrow> (case APIKeyService_Create name w of
           (Inl e, w1) \<Rightarrow> ((1, None), acts @ [CloseDB], w1)
         | (Inr k, w1) \<Rightarrow> ((0, Some k), acts @ [CloseDB], w1))))"

definition main_exit :: "loader \<Rightarrow> environment \<Rightarrow> driver \<Rightarrow> ('x world \<Rightarrow> 'x world \<times> ending) \<Rightarrow> string list \<Rightarrow> 'x world \<Rightarrow> int" where
  "main_exit ld vars drv life args w = (case main_command args of
      Serve a \<Rightarrow> fst (runServe ld vars drv life a w)
    | GenKey a \<Rightarrow> fst (fst (runGenKey ld vars drv a w))
    | Version \<Rightarrow> 0
    | Usage \<Rightarrow> 0)"

section \<open>Everything is released\<close>

lemma Start_failed:
  assumes "Start w = (Inl e, w1)" shows "w_next w1 = w_next w"
proof -
  have ok: "\<exists>v. forEach ns (\<lambda>n. if n_Status n \<noteq> NodeStatusDisabled then StartNode n else ret ()) w = (Inr (), v)" for ns and w :: "'a world"
  proof (induction ns arbitrary: w)
    case (Cons n ns)
    have "\<exists>v. (if n_Status n \<noteq> NodeStatusDisabled then StartNode n else ret ()) w = (Inr (), v)"
      by (simp add: StartNode_run StopNode_run bindE_def new_actor_def ret_def)
    then show ?case using Cons.IH by (fastforce simp: bindE_def)
  qed (simp add: ret_def)
  obtain r w' where l: "ListNodes w = (r, w')" by force
  have "w_next w' = w_next w"
    using l unfolding store_defs
    by (auto simp: db_query_def db_exec_def next_call_def run_stmt_def onErr_def bindE_def ret_def split: option.splits sum.splits prod.splits list.splits)
  moreover have "w1 = w'"
  proof (cases r)
    case (Inr ns)
    then show ?thesis using assms l ok [of ns w'] by (auto simp: Start_def bindE_def)
  qed (use assms l in \<open>simp add: Start_def bindE_def\<close>)
  ultimately show ?thesis by simp
qed

lemma runGenKey_releases: "runGenKey ld vars drv args w = (res, acts, w') \<Longrightarrow> holds drv [] acts = []"
  by (auto simp: runGenKey_def Let_def dest: Open_failed split: sum.splits prod.splits option.splits)

text \<open>C39: However \<open>serve\<close> ends, it leaves nothing behind: whether the configuration, the opening of
  the store, the start of the workers or the listener fails, or a signal ends it, all database
  resources are released, no actor runs and no connection to a node is open. It exits with 0
  exactly when a signal led to a clean shutdown of a server that had started.\<close>

theorem runServe_releases:
  assumes fresh: "w_next w = 0"
    and life: "\<forall>cfg w1. Load ld vars (configPath vars args) = Inr cfg \<and> Start (NewManager w) = (Inr (), w1)
      \<longrightarrow> (\<exists>lim c. reachable env L cfg w (lim, c, fst (life w1)))"
    and run: "runServe ld vars drv life args w = (code, acts, w')"
  shows "holds drv [] acts = [] \<and> (\<forall>k < w_next w'. \<not> a_running (w_heap w' k) \<and> a_client (w_heap w' k) = None) \<and>
    (code = 0 \<longleftrightarrow> (\<exists>cfg opened w1. Load ld vars (configPath vars args) = Inr cfg \<and> Open drv (cfg_DSN cfg) = (None, opened) \<and>
        Start (NewManager w) = (Inr (), w1) \<and> snd (life w1) = Signalled None))"
proof (cases "Load ld vars (configPath vars args)")
  case (Inl e)
  then show ?thesis using run fresh by (auto simp: runServe_def)
next
  case (Inr cfg)
  obtain failed opened where o: "Open drv (cfg_DSN cfg) = (failed, opened)" by force
  obtain r w1 where s: "Start (NewManager w) = (r, w1)" by force
  obtain w2 e where l: "life w1 = (w2, e)" by force
  consider (unopened) x where "failed = Some x" | (unstarted) x where "failed = None" "r = Inl x" | (served) "failed = None" "r = Inr ()"
    by (cases failed; cases r) auto
  then show ?thesis
  proof cases
    case unopened
    then show ?thesis using run Inr o fresh Open_failed [of drv "cfg_DSN cfg" x opened] by (auto simp: runServe_def)
  next
    case unstarted
    then have "w_next w1 = 0" using Start_failed [of "NewManager w" x w1] s by (simp add: NewManager_def)
    then show ?thesis using run Inr o s unstarted by (auto simp: runServe_def)
  next
    case served
    then obtain lim c where "reachable env L cfg w (lim, c, w2)" using life Inr s l by force
    then have "roster {} w2" using reachable_roster by fastforce
    from Stop_stops_all [OF this] obtain w3 where "Manager_Stop w2 = (Inr (), w3)"
      "\<forall>k < w_next w3. \<not> a_running (w_heap w3 k) \<and> a_client (w_heap w3 k) = None" by blast
    then show ?thesis using run Inr o s l served
      by (auto simp: runServe_def exit_code_def split: ending.splits option.splits)
  qed
qed

theorem runServe_releases_witness:
  "let w = NewManager (sample_world (\<lambda>_. ())) :: unit world; ld = \<lparr>ld_ReadFile = (\<lambda>_. Inl ''none''), ld_Unmarshal = (\<lambda>_. Inr), ld_ParseDuration = (\<lambda>_. None)\<rparr>
   in case runServe ld (\<lambda>_. None) (\<lambda>_. None) (\<lambda>w. (w, Signalled None)) [] w of (code, acts, w') \<Rightarrow>
     code = 0 \<and> w_next w' = 1 \<and> \<not> a_running (w_heap w' 0)"
proof -
  let ?w = "NewManager (sample_world (\<lambda>_. ())) :: unit world"
  let ?ld = "\<lparr>ld_ReadFile = (\<lambda>_. Inl ''none''), ld_Unmarshal = (\<lambda>_. Inr), ld_ParseDuration = (\<lambda>_. None)\<rparr>"
  let ?life = "\<lambda>w :: unit world. (w, Signalled None)"
  let ?r = "runServe ?ld (\<lambda>_. None) (\<lambda>_. None) ?life [] ?w"
  have fresh: "w_next ?w = 0" by (simp add: NewManager_def)
  have life: "\<forall>cfg w1. Load ?ld (\<lambda>_. None) (configPath (\<lambda>_. None) []) = Inr cfg \<and> Start (NewManager ?w) = (Inr (), w1)
      \<longrightarrow> (\<exists>lim c. reachable env (L :: unit rate_lib) cfg ?w (lim, c, fst (?life w1)))" for env L
    by (auto intro: reachable.start)
  have vals: "fst ?r = 0" "w_next (snd (snd ?r)) = 1" by code_simp+
  have run: "?r = (fst ?r, fst (snd ?r), snd (snd ?r))" by simp
  have "\<not> a_running (w_heap (snd (snd ?r)) 0)" using runServe_releases [OF fresh life run] vals(2) by simp
  with vals show ?thesis by (simp add: Let_def case_prod_beta)
qed

end
