(* ===== verification/Spec2Isabelle.thy ===== *)
theory Spec2Isabelle
  imports Collector Health Lifecycle Startup
begin

text \<open>
  A verification of the control plane xray-api: an HTTP service that keeps users, plans, nodes
  and inbounds in PostgreSQL and drives the users' accounts onto remote Xray nodes.

  \<^bold>\<open>The parts and how they interact.\<close> The services (\<open>src/internal/service\<close>) validate requests,
  change the database through the store (\<open>src/internal/store\<close>) and trigger the worker manager
  (\<open>src/internal/worker\<close>). Each node has an actor, a goroutine with its own connection
  (\<open>src/internal/xray\<close>): it reconciles the accounts on its node with the assignments in the
  database, collects the traffic counters and watches the node's health. Sweepers expire users and
  prune old snapshots. Entities and errors are those of \<open>src/internal/domain\<close>.

  \<^bold>\<open>The model.\<close> Everything is a function on a record of type \<open>world\<close> (theory World): the tables,
  the clock, the sources of identifiers and random bytes, the actors' heap, the manager's map of
  actors, and the state of the remote nodes. A call takes a world and returns an error or a result
  together with the new world; errors never undo what was written before. Other goroutines and
  failures of the database are a schedule in the world: before each statement the schedule may
  change the tables arbitrarily, subject to the schema, or make the statement fail. Theorems with
  \<open>holdsW\<close> hold for every such schedule; theorems with an empty schedule describe undisturbed runs.
  Go's \<open>int64\<close>, \<open>uint32\<close> and \<open>byte\<close> are words of that width, strings are lists of bytes, times are
  nanoseconds, nil pointers and nil slices are \<open>None\<close>.

  \<^item> Prelude: text functions of the standard library, lemmas on lists.
  \<^item> Domain: \<open>domain/*.go\<close>; the quota test adds 64-bit words and so wraps.
  \<^item> World, Schema, Transactions: \<open>store/store.go\<close>, \<open>tx.go\<close>, \<open>migrations/0001_init.sql\<close>. The
    invariant \<open>wf_db\<close> holds the primary, unique and foreign keys. \<open>WithTx\<close> runs a function on the
    tables and discards its writes when it fails; \<open>refines\<close> relates a function to one statement.
  \<^item> Store_Catalog, Store_Users, Store_Assignments: one definition per statement and per store
    function. The locales \<open>repository\<close> and \<open>updatable_repository\<close> give the laws of lookup, insertion,
    update and deletion for nodes, inbounds, plans and users at once.
  \<^item> Accounting: the batch of traffic and the two sweeps over users. A committed batch adds exactly
    its bytes, suspends exactly the users that reach their limit and leaves no active user over it;
    a failed batch leaves no trace. The locale \<open>status_sweep\<close> is the contract of the two sweeps.
  \<^item> Xray: accounts, TLS checks and the API calls. Xray-core and the TLS library are the fields of
    the record \<open>xray_api\<close>, an argument of the definitions. \<open>node_contract\<close> states what is relied on:
    adding and removing an account behaves as on a set of accounts, and the error texts are those
    that \<open>mapAlterErr\<close> knows. \<open>toy_api\<close> is an instance.
  \<^item> Worker, Convergence, Collector, Health: the manager and the actor. A pass that runs to its end
    leaves exactly the desired accounts among those it manages, and it runs to its end when the node
    is available; desired accounts and removals split the assignments; a stats pass neither loses
    nor repeats traffic; the health check refines a small automaton, which reports a node offline
    after three failures and online again with a pass that restores its accounts.
  \<^item> Codec: hexadecimal, base64 and URL escapes as instances of one locale \<open>codec\<close> with its round
    trip; SHA-256 and HMAC; the constant-time comparison.
  \<^item> Json: what is used of \<open>encoding/json\<close>, \<open>strconv\<close> and \<open>time\<close>. The scanner is an automaton over bytes
    with a stack of open containers; structs are decoded by tables of their tagged fields, with the
    rules for \<open>null\<close>, pointers, slices, repeated and unknown fields; times are RFC 3339 texts. Encoded
    strings and maps are read back; an object with an unknown field is refused in strict mode.
  \<^item> Service_Common, Users_Service, Users_Provisioning: \<open>service/users.go\<close>, \<open>secret.go\<close>. Each
    operation is characterised on each branch; \<open>user_action\<close> is the contract of the operations on
    one user (identity and other users are untouched, a missing user is an error without effect).
  \<^item> Nodes_Service: \<open>service/nodes.go\<close>, \<open>plans.go\<close>, \<open>apikeys.go\<close>. A created inbound is valid and its
    accounts can be encoded; a created node has one row and one actor with the same settings; an API
    key is accepted from its creation to its revocation.
  \<^item> Lifecycle: a service operation followed by the pass it triggers, from the database to the node.
  \<^item> Invariants: the locale \<open>store_invariant\<close>. A predicate on the tables that each SQL statement keeps
    is kept by every service operation and worker turn. Its instances are the schema, the validity of
    the stored inbounds and the record of webhook events.
  \<^item> Billing: \<open>service/billing.go\<close>, with the field tables of the event and its payloads. Signatures are
    checked exactly, an event is executed at most once, provisioning is idempotent per external id, and a renewal does not undo a cancellation.
  \<^item> Store_Reads: \<open>Store.ListUsers\<close> and \<open>Store.UserUsage\<close>. The pages of a listing and the buckets of a
    report neither lose nor repeat anything.
  \<^item> Sublink: \<open>sublink/*.go\<close>. Links and the V2Ray bundle are read back exactly, and links and Clash
    entries carry the credentials of the accounts on the nodes, also inside the JSON of a vmess link.
  \<^item> HttpApi: \<open>httpapi/*.go\<close>. The route tree is a datatype of endpoints and \<open>serve\<close> runs a request
    through its middleware and handler; bodies are decoded by the field tables of the request
    structs. Requests without credentials change nothing, malformed bodies are refused without
    effect, the rate limiter's memory is bounded.
  \<^item> Config: \<open>config/config.go\<close>, the wiring of \<open>NewServer\<close> and of the worker's configuration, the options
    of \<open>cmd/xray-api\<close>.
  \<^item> Manager_Life: \<open>NewManager\<close>, the return of an actor's \<open>run\<close> and \<open>Manager.Stop\<close>. The locale
    \<open>actor_table\<close> carries a predicate on the actors through every request; its instance \<open>roster\<close> says
    that a node has one live actor. \<open>Stop\<close> ends every actor and closes every connection.
  \<^item> System: the program as an inductive step relation over requests, turns and returns of the actors,
    passes of the sweepers and the cancellation of the context. The invariants hold in every reachable
    state; every request is answered.
  \<^item> Startup: \<open>store.Open\<close> with its migration under an advisory lock, and the commands of
    \<open>cmd/xray-api/main.go\<close>. However \<open>serve\<close> ends, it releases what it holds.

  \<^bold>\<open>Termination.\<close> All functions are total; no fuel is used. The loops of the source run over finite
  lists, except for the run loop of the actor and the tickers of the sweepers, which are modelled as
  single turns that may occur in any order. The JSON scanner recurses over its text.

  \<^bold>\<open>Simplifications.\<close> A statement is atomic, and a transaction sees the tables as they were when it
  began together with its own writes. Iteration over Go maps uses insertion order. Days are days of
  UTC. Texts are not checked for NUL bytes and integers not for the 32 bits of their column, both of
  which PostgreSQL rejects; identifiers are texts without the syntax check of the type \<open>uuid\<close>.
  Format verbs inside the texts of TLS errors are not expanded. Contexts and deadlines appear only as
  failures in the schedule. \<open>LIKE\<close> matches bytes, and lower case is that of ASCII.

  \<^bold>\<open>Parameters.\<close> Besides Xray-core and the TLS library these are arguments of the definitions, and the
  theorems hold for all of them: the texts of JSON decoding errors, the YAML library, PostgreSQL's
  text of a day, the outcome of each call of the database driver and of the migration library while
  the store is opened, the token buckets of \<open>golang.org/x/time/rate\<close>, the reading of the
  configuration file and of durations. The matching of paths by chi is left out: a request comes
  with its endpoint. A response body is a value, before it is encoded as JSON.

  \<^bold>\<open>Not modelled.\<close> The contents of the migrations as a sequence of schemas (the model starts from the
  schema they lead to), the HTTP server's listening and timeouts, the connection pool, output on the
  terminal, logging and metrics: these are input and output with no effect on the state described
  here. Timers are not modelled: a turn may happen at any time. Requests that are still served while
  the server shuts down are steps like any other.
\<close>

end
